(* ===== verification/Prelude.thy ===== *)
theory Prelude
  imports Complex_Main "HOL-Library.Finite_Map" "HOL-Library.Sublist"
    "HOL-Library.List_Lexorder" "HOL-Library.Char_ord" "HOL-Library.Code_Target_Nat"
begin

text \<open>
  Shared vocabulary of the development: the Go built-ins and the parts of the Go standard
  library (\<^verbatim>\<open>strings\<close>, \<^verbatim>\<open>strconv\<close> on integers, \<^verbatim>\<open>fmt\<close> verbs d and q) that the program uses,
  as executable functions, with the lemmas the components share.

  A Go string is a list of bytes, here a \<^typ>\<open>string\<close>; a Go \<^verbatim>\<open>map[string]string\<close> is a finite
  map (a nil map reads like the empty one). Signed machine integers are \<^typ>\<open>int\<close> with the
  wrap-around written out by \<open>i32\<close> and \<open>i64\<close>.
\<close>

named_theorems str_simps \<open>evaluation of string helpers\<close>
named_theorems wrap_simps \<open>machine integers that stay in range\<close>

section \<open>Machine integers\<close>

definition i64 :: "int \<Rightarrow> int" where
  "i64 x = (x + 2 ^ 63) mod 2 ^ 64 - 2 ^ 63"

definition i32 :: "int \<Rightarrow> int" where
  "i32 x = (x + 2 ^ 31) mod 2 ^ 32 - 2 ^ 31"

definition in_i64 :: "int \<Rightarrow> bool" where
  "in_i64 x \<longleftrightarrow> - (2 ^ 63) \<le> x \<and> x < 2 ^ 63"

definition in_i32 :: "int \<Rightarrow> bool" where
  "in_i32 x \<longleftrightarrow> - (2 ^ 31) \<le> x \<and> x < 2 ^ 31"

lemma i64_id [wrap_simps]: "in_i64 x \<Longrightarrow> i64 x = x"
  by (simp add: i64_def in_i64_def)

lemma i32_id [wrap_simps]: "in_i32 x \<Longrightarrow> i32 x = x"
  by (simp add: i32_def in_i32_def)

lemma in_i64_wrap [simp]: "in_i64 (i64 x)"
  by (simp add: i64_def in_i64_def)

lemma in_i32_wrap [simp]: "in_i32 (i32 x)"
  by (simp add: i32_def in_i32_def)

lemma i64_add_wrap: "i64 (i64 x + y) = i64 (x + y)"
proof -
  have "(i64 x + y + 2 ^ 63) mod 2 ^ 64 = ((x + 2 ^ 63) mod 2 ^ 64 + y) mod 2 ^ 64"
    by (simp add: i64_def)
  also have "\<dots> = (x + y + 2 ^ 63) mod 2 ^ 64"
    by (simp only: mod_add_left_eq) (simp add: ac_simps)
  finally show ?thesis by (simp only: i64_def)
qed

section \<open>Maps\<close>

type_synonym smap = "(string, string) fmap"

text \<open>Indexing a Go map yields the zero value of an absent key.\<close>

definition mget :: "smap \<Rightarrow> string \<Rightarrow> string" where
  "mget m k = (case fmlookup m k of None \<Rightarrow> '''' | Some v \<Rightarrow> v)"

definition mhas :: "smap \<Rightarrow> string \<Rightarrow> bool" where
  "mhas m k \<longleftrightarrow> fmlookup m k \<noteq> None"

lemma mget_upd [simp]: "mget (fmupd k v m) k' = (if k' = k then v else mget m k')"
  by (simp add: mget_def)

lemma mhas_upd [simp]: "mhas (fmupd k v m) k' = (k' = k \<or> mhas m k')"
  by (simp add: mhas_def)

lemma mget_drop [simp]: "mget (fmdrop k m) k' = (if k' = k then '''' else mget m k')"
  by (simp add: mget_def)

lemma mhas_drop [simp]: "mhas (fmdrop k m) k' = (k' \<noteq> k \<and> mhas m k')"
  by (simp add: mhas_def)

lemma mget_empty [simp]: "mget fmempty k = ''''"
  by (simp add: mget_def)

lemma mhas_empty [simp]: "\<not> mhas fmempty k"
  by (simp add: mhas_def)

lemma mget_add: "mget (fmadd m n) k = (if mhas n k then mget n k else mget m k)"
  by (auto simp: mget_def mhas_def split: option.splits)

lemma mhas_add [simp]: "mhas (fmadd m n) k \<longleftrightarrow> mhas m k \<or> mhas n k"
  by (auto simp: mhas_def fmlookup_dom_iff)

lemma mget_absent: "\<not> mhas m k \<Longrightarrow> mget m k = ''''"
  by (simp add: mget_def mhas_def)

lemma mget_nonempty_has: "mget m k \<noteq> '''' \<Longrightarrow> mhas m k"
  by (auto simp: mget_def mhas_def split: option.splits)

definition mdrop_keys :: "string list \<Rightarrow> smap \<Rightarrow> smap" where
  "mdrop_keys ks m = fold fmdrop ks m"

lemma fmlookup_drop_keys [simp]:
  "fmlookup (mdrop_keys ks m) k = (if k \<in> set ks then None else fmlookup m k)"
  unfolding mdrop_keys_def by (induction ks arbitrary: m) auto

section \<open>Strings\<close>

definition HasPrefix :: "string \<Rightarrow> string \<Rightarrow> bool" where
  "HasPrefix s p = prefix p s"

definition TrimPrefix :: "string \<Rightarrow> string \<Rightarrow> string" where
  "TrimPrefix s p = (if prefix p s then drop (length p) s else s)"

fun Contains :: "string \<Rightarrow> string \<Rightarrow> bool" where
  "Contains [] sub = (sub = [])"
| "Contains (c # s) sub = (prefix sub (c # s) \<or> Contains s sub)"

lemma Contains_sublist: "Contains s sub \<longleftrightarrow> sublist sub s"
  by (induction s) (auto simp: sublist_Cons_right)

lemma Contains_append: "Contains s sub \<Longrightarrow> Contains (p @ s @ q) sub"
  by (auto simp: Contains_sublist sublist_def) (metis append.assoc)

text \<open>\<^verbatim>\<open>strings.TrimRight(s, c)\<close> for a one-byte cutset.\<close>

definition trim_right :: "char \<Rightarrow> string \<Rightarrow> string" where
  "trim_right c s = rev (dropWhile (\<lambda>x. x = c) (rev s))"

definition trim_left :: "char \<Rightarrow> string \<Rightarrow> string" where
  "trim_left c s = dropWhile (\<lambda>x. x = c) s"

definition trim_both :: "char \<Rightarrow> string \<Rightarrow> string" where
  "trim_both c s = trim_right c (trim_left c s)"

text \<open>\<^verbatim>\<open>strings.ReplaceAll\<close> of one byte by one byte.\<close>

definition replace_char :: "char \<Rightarrow> char \<Rightarrow> string \<Rightarrow> string" where
  "replace_char a b s = map (\<lambda>c. if c = a then b else c) s"

lemma trim_right_snoc [simp]:
  "trim_right c (s @ [d]) = (if d = c then trim_right c s else s @ [d])"
  by (simp add: trim_right_def)

lemma trim_right_Nil [simp]: "trim_right c [] = []"
  by (simp add: trim_right_def)

lemma trim_right_decomp: "\<exists>k. s = trim_right c s @ replicate k c"
proof (induction s rule: rev_induct)
  case (snoc d s)
  then obtain k where k: "s = trim_right c s @ replicate k c" by blast
  show ?case
  proof (cases "d = c")
    case True
    with k have "s @ [d] = trim_right c (s @ [d]) @ replicate (Suc k) c"
      by (simp add: replicate_append_same[symmetric])
    then show ?thesis by blast
  qed (auto intro: exI[of _ 0])
qed simp

lemma trim_right_append_other:
  "trim_right c t \<noteq> [] \<Longrightarrow> trim_right c (s @ t) = s @ trim_right c t"
  by (induction t rule: rev_induct) (auto simp flip: append_assoc split: if_splits)

text \<open>
  White space as \<^verbatim>\<open>unicode.IsSpace\<close> has it, on the UTF-8 bytes: the six ASCII characters and
  the encodings of U+0085, U+00A0, U+1680, U+2000 to U+200A, U+2028, U+2029, U+202F, U+205F and
  U+3000. \<open>trim_space_left\<close> takes one such character off the front at a time.
\<close>

definition ascii_space :: "char \<Rightarrow> bool" where
  "ascii_space c \<longleftrightarrow> c \<in> {CHR '' '', CHR 0x09, CHR 0x0A, CHR 0x0B, CHR 0x0C, CHR 0x0D}"

definition space2 :: "char \<Rightarrow> char \<Rightarrow> bool" where
  "space2 a b \<longleftrightarrow> a = CHR 0xC2 \<and> (b = CHR 0x85 \<or> b = CHR 0xA0)"

definition space3 :: "char \<Rightarrow> char \<Rightarrow> char \<Rightarrow> bool" where
  "space3 a b c \<longleftrightarrow>
     a = CHR 0xE1 \<and> b = CHR 0x9A \<and> c = CHR 0x80
   \<or> a = CHR 0xE2 \<and> b = CHR 0x80 \<and>
       (CHR 0x80 \<le> c \<and> c \<le> CHR 0x8A \<or> c = CHR 0xA8 \<or> c = CHR 0xA9 \<or> c = CHR 0xAF)
   \<or> a = CHR 0xE2 \<and> b = CHR 0x81 \<and> c = CHR 0x9F
   \<or> a = CHR 0xE3 \<and> b = CHR 0x80 \<and> c = CHR 0x80"

fun trim_space_left :: "string \<Rightarrow> string" where
  "trim_space_left (a # b # c # s) =
     (if ascii_space a then trim_space_left (b # c # s)
      else if space2 a b then trim_space_left (c # s)
      else if space3 a b c then trim_space_left s else a # b # c # s)"
| "trim_space_left [a, b] =
     (if ascii_space a then trim_space_left [b] else if space2 a b then [] else [a, b])"
| "trim_space_left [a] = (if ascii_space a then [] else [a])"
| "trim_space_left [] = []"

text \<open>The same from the right end, on the reversed string.\<close>

fun trim_space_rev :: "string \<Rightarrow> string" where
  "trim_space_rev (c # b # a # s) =
     (if ascii_space c then trim_space_rev (b # a # s)
      else if space2 b c then trim_space_rev (a # s)
      else if space3 a b c then trim_space_rev s else c # b # a # s)"
| "trim_space_rev [b, a] =
     (if ascii_space b then trim_space_rev [a] else if space2 a b then [] else [b, a])"
| "trim_space_rev [a] = (if ascii_space a then [] else [a])"
| "trim_space_rev [] = []"

definition TrimSpace :: "string \<Rightarrow> string" where
  "TrimSpace s = rev (trim_space_rev (rev (trim_space_left s)))"

text \<open>A string whose first and last bytes are printable ASCII is left alone by \<open>TrimSpace\<close>.\<close>

definition graphic :: "char \<Rightarrow> bool" where
  "graphic c \<longleftrightarrow> CHR ''!'' \<le> c \<and> c \<le> CHR ''~''"

lemma graphic_not_space [simp]:
  "graphic c \<Longrightarrow> \<not> ascii_space c"
  "graphic c \<Longrightarrow> \<not> space2 c d" "graphic c \<Longrightarrow> \<not> space2 d c"
  "graphic c \<Longrightarrow> \<not> space3 c d e" "graphic c \<Longrightarrow> \<not> space3 d e c"
  by (auto simp: graphic_def ascii_space_def space2_def space3_def less_eq_char_def)

lemma trim_space_left_graphic: "graphic c \<Longrightarrow> trim_space_left (c # s) = c # s"
  by (cases s rule: trim_space_left.cases) (auto elim: trim_space_left.elims)

lemma trim_space_rev_graphic: "graphic c \<Longrightarrow> trim_space_rev (c # s) = c # s"
  by (cases s rule: trim_space_rev.cases) (auto elim: trim_space_rev.elims)

lemma TrimSpace_graphic:
  assumes "s \<noteq> []" and "graphic (hd s)" and "graphic (last s)"
  shows "TrimSpace s = s"
proof -
  from assms(1,2) have "trim_space_left s = s"
    by (cases s) (simp_all add: trim_space_left_graphic)
  moreover from assms(1,3) have "trim_space_rev (rev s) = rev s"
    by (cases s rule: rev_cases) (simp_all add: trim_space_rev_graphic)
  ultimately show ?thesis by (simp add: TrimSpace_def)
qed

lemma TrimSpace_Nil [simp]: "TrimSpace [] = []"
  by (simp add: TrimSpace_def)

text \<open>ASCII case mapping; bytes outside ASCII letters are unchanged.\<close>

definition lower_char :: "char \<Rightarrow> char" where
  "lower_char c = (if CHR ''A'' \<le> c \<and> c \<le> CHR ''Z'' then char_of (of_char c + 32 :: nat) else c)"

definition ToLower :: "string \<Rightarrow> string" where
  "ToLower s = map lower_char s"

text \<open>
  The Unicode lower-case mapping as far as it yields an ASCII letter: ASCII capitals, the Kelvin
  sign (which lowers to k) and the dotted capital I (which lowers to i), on UTF-8 bytes. Other
  characters stay as they are, which is the same for code that only looks for ASCII text.
\<close>

fun lower_to_ascii :: "string \<Rightarrow> string" where
  "lower_to_ascii [] = []"
| "lower_to_ascii (c # s) =
     (case s of
        d # e # r \<Rightarrow>
          if c = CHR 0xE2 \<and> d = CHR 0x84 \<and> e = CHR 0xAA then CHR ''k'' # lower_to_ascii r
          else if c = CHR 0xC4 \<and> d = CHR 0xB0 then CHR ''i'' # lower_to_ascii (e # r)
          else lower_char c # lower_to_ascii s
      | [d] \<Rightarrow> if c = CHR 0xC4 \<and> d = CHR 0xB0 then ''i'' else lower_char c # lower_to_ascii s
      | [] \<Rightarrow> [lower_char c])"

text \<open>Case folding against a text whose letters have no fold outside ASCII (all but k and s).\<close>

definition EqualFold :: "string \<Rightarrow> string \<Rightarrow> bool" where
  "EqualFold s t \<longleftrightarrow> ToLower s = ToLower t"

text \<open>\<^verbatim>\<open>strings.Join\<close>.\<close>

fun join :: "string \<Rightarrow> string list \<Rightarrow> string" where
  "join sep [] = []"
| "join sep [l] = l"
| "join sep (l # k # ls) = l @ sep @ join sep (k # ls)"

section \<open>Decimal numerals\<close>

definition digit :: "nat \<Rightarrow> char" where
  "digit d = char_of (48 + d)"

fun dec :: "nat \<Rightarrow> string" where
  "dec n = (if n < 10 then [digit n] else dec (n div 10) @ [digit (n mod 10)])"

declare dec.simps [simp del]

fun decw :: "nat \<Rightarrow> nat \<Rightarrow> string" where
  "decw 0 n = []"
| "decw (Suc w) n = decw w (n div 10) @ [digit (n mod 10)]"

text \<open>\<^verbatim>\<open>strconv.FormatInt(n, 10)\<close> and the verb d.\<close>

definition FormatInt :: "int \<Rightarrow> string" where
  "FormatInt n = (if n < 0 then ''-'' @ dec (nat (- n)) else dec (nat n))"

definition is_digit :: "char \<Rightarrow> bool" where
  "is_digit c \<longleftrightarrow> CHR ''0'' \<le> c \<and> c \<le> CHR ''9''"

definition digit_val :: "char \<Rightarrow> nat" where
  "digit_val c = of_char c - 48"

definition digits_val :: "string \<Rightarrow> nat" where
  "digits_val s = foldl (\<lambda>n c. 10 * n + digit_val c) 0 s"

lemma of_char_digit: "d < 10 \<Longrightarrow> of_char (digit d) = 48 + d"
  by (simp add: digit_def)

lemma is_digit_digit [simp]: "d < 10 \<Longrightarrow> is_digit (digit d)"
  by (simp add: is_digit_def less_eq_char_def of_char_digit)

lemma digit_val_digit [simp]: "d < 10 \<Longrightarrow> digit_val (digit d) = d"
  by (simp add: digit_val_def of_char_digit)

lemma digit_graphic [simp]: "is_digit c \<Longrightarrow> graphic c"
  by (auto simp: is_digit_def graphic_def less_eq_char_def)

lemma digits_val_Nil [simp]: "digits_val [] = 0"
  by (simp add: digits_val_def)

lemma digits_val_snoc [simp]: "digits_val (s @ [c]) = 10 * digits_val s + digit_val c"
  by (simp add: digits_val_def)

lemma digits_val_append: "digits_val (s @ t) = digits_val s * 10 ^ length t + digits_val t"
  by (induction t rule: rev_induct) (auto simp: algebra_simps simp flip: append_assoc)

lemma dec_nonempty [simp]: "dec n \<noteq> []"
  by (subst dec.simps) simp

lemma dec_digits: "c \<in> set (dec n) \<Longrightarrow> is_digit c"
proof (induction n rule: dec.induct)
  case (1 n)
  then show ?case by (subst (asm) (2) dec.simps) (auto split: if_splits)
qed

lemma decw_digits: "c \<in> set (decw w n) \<Longrightarrow> is_digit c"
  by (induction w arbitrary: n) auto

lemma length_decw [simp]: "length (decw w n) = w"
  by (induction w arbitrary: n) auto

lemma digits_val_dec [simp]: "digits_val (dec n) = n"
proof (induction n rule: dec.induct)
  case (1 n)
  then show ?case by (subst dec.simps) (auto simp: digits_val_def)
qed

lemma digits_val_decw [simp]: "digits_val (decw w n) = n mod 10 ^ w"
proof (induction w arbitrary: n)
  case (Suc w)
  then show ?case by (simp add: mod_mult2_eq)
qed simp

lemma dec_inj: "dec m = dec n \<longleftrightarrow> m = n"
  by (metis digits_val_dec)

lemma hd_dec_digit: "is_digit (hd (dec n))"
  by (rule dec_digits [of _ n]) simp

lemma FormatInt_inj: "FormatInt m = FormatInt n \<longleftrightarrow> m = n"
proof
  assume eq: "FormatInt m = FormatInt n"
  have d: "hd (dec k) \<noteq> CHR ''-''" for k
    using hd_dec_digit[of k] by (auto simp: is_digit_def less_eq_char_def)
  have "(m < 0) = (n < 0)"
    using eq d [of "nat m"] d [of "nat n"]
    by (cases "dec (nat m)"; cases "dec (nat n)") (auto simp: FormatInt_def split: if_splits)
  with eq show "m = n" by (auto simp: FormatInt_def dec_inj nat_eq_iff split: if_splits)
qed simp

section \<open>Digit groups\<close>

text \<open>
  The loop that writes thousands separators: \<open>n\<close> is the length of the whole numeral and \<open>i\<close> the
  index of the next digit.
\<close>

fun write_groups :: "nat \<Rightarrow> nat \<Rightarrow> string \<Rightarrow> string" where
  "write_groups n i [] = []"
| "write_groups n i (c # cs) =
     (if 0 < i \<and> (n - i) mod 3 = 0 then '','' else []) @ c # write_groups n (Suc i) cs"

lemma write_groups_filter:
  "CHR '','' \<notin> set cs \<Longrightarrow> filter (\<lambda>c. c \<noteq> CHR '','') (write_groups n i cs) = cs"
  by (induction n i cs rule: write_groups.induct) auto

lemma length_write_groups:
  "0 < i \<Longrightarrow> n = i + length cs \<Longrightarrow> length (write_groups n i cs) = length cs + length cs div 3"
proof (induction cs arbitrary: i)
  case (Cons c cs)
  then have "length (write_groups n (Suc i) cs) = length cs + length cs div 3" by simp
  moreover have "Suc (length cs) div 3 = length cs div 3 + (if Suc (length cs) mod 3 = 0 then 1 else 0)"
    by (simp add: div_Suc)
  ultimately show ?case using Cons.prems by simp
qed simp

text \<open>Counted from the right, every fourth position holds a comma and no other does.\<close>

lemma write_groups_commas:
  assumes "CHR '','' \<notin> set cs" and "n = i + length cs" and "k < length (write_groups n i cs)"
  shows "rev (write_groups n i cs) ! k = CHR '','' \<longleftrightarrow> k mod 4 = 3"
  using assms
proof (induction cs arbitrary: i k)
  case (Cons c cs)
  define m where "m = length cs"
  define rest where "rest = write_groups n (Suc i) cs"
  have len: "length rest = m + m div 3"
    using Cons.prems length_write_groups [of "Suc i" n cs] by (simp add: rest_def m_def)
  have out: "rev (write_groups n i (c # cs)) = rev rest @ c # (if 0 < i \<and> Suc m mod 3 = 0 then '','' else [])"
    using Cons.prems by (simp add: rest_def m_def)
  have m4: "(m + m div 3) mod 4 = m mod 3"
  proof -
    have "m + m div 3 = m mod 3 + 4 * (m div 3)" using div_mult_mod_eq [of m 3] by simp
    then have "(m + m div 3) mod 4 = (m mod 3 + 4 * (m div 3)) mod 4" by (rule arg_cong)
    also have "\<dots> = m mod 3 mod 4" by (rule mod_mult_self2)
    also have "\<dots> = m mod 3" by (rule mod_less) (use mod_less_divisor [of 3 m] in linarith)
    finally show ?thesis .
  qed
  consider "k < length rest" | "k = length rest"
    | "k = Suc (length rest)" "0 < i" "Suc m mod 3 = 0"
  proof -
    have "length (write_groups n i (c # cs)) = length rest + (if 0 < i \<and> Suc m mod 3 = 0 then 2 else 1)"
      using Cons.prems(2) by (simp add: rest_def m_def)
    with Cons.prems(3)
    have "k < length rest \<or> k = length rest \<or> k = Suc (length rest) \<and> 0 < i \<and> Suc m mod 3 = 0"
      by (auto split: if_splits)
    with that show ?thesis by (elim disjE conjE) assumption+
  qed
  then show ?case
  proof cases
    case 1
    then show ?thesis
      using Cons.IH [of "Suc i" k] Cons.prems unfolding out by (simp add: nth_append rest_def)
  next
    case 2
    moreover have "m mod 3 \<noteq> 3" using mod_less_divisor [of 3 m] by linarith
    ultimately show ?thesis using Cons.prems(1) m4 unfolding out by (auto simp: nth_append len)
  next
    case 3
    then have "m mod 3 = 2" by (simp add: mod_Suc split: if_splits)
    then have "Suc (m + m div 3) mod 4 = 3" using m4 by (simp add: mod_Suc)
    then show ?thesis using 3 unfolding out by (simp add: nth_append len)
  qed
qed simp

section \<open>Lists\<close>

lemma find_first_split:
  assumes "List.find P xs = Some x"
  obtains ys zs where "xs = ys @ x # zs" "P x" "\<And>y. y \<in> set ys \<Longrightarrow> \<not> P y"
  using assms
proof (induction xs arbitrary: thesis)
  case (Cons a xs)
  show ?case
  proof (cases "P a")
    case True
    with Cons.prems show ?thesis by (auto intro: Cons.prems(1) [of "[]"])
  next
    case False
    with Cons.prems(2) have "List.find P xs = Some x" by simp
    with Cons.IH obtain ys zs where
      "xs = ys @ x # zs" "P x" "\<And>y. y \<in> set ys \<Longrightarrow> \<not> P y" by blast
    with False show ?thesis by (intro Cons.prems(1) [of "a # ys" zs]) auto
  qed
qed simp

lemma find_Some_iff_first: "List.find P (xs @ x # zs) = Some x" if "P x" "\<forall>y \<in> set xs. \<not> P y"
  using that by (induction xs) auto

lemma find_Some_in: "List.find P xs = Some x \<Longrightarrow> x \<in> set xs \<and> P x"
  by (auto elim: find_first_split)

end
