(* ===== verification/Float64.thy ===== *)
theory Float64
  imports Prelude "HOL-Library.Log_Nat"
begin

text \<open>
  Go's \<^verbatim>\<open>float64\<close>: IEEE 754 binary64 with round-to-nearest, ties to even. A finite value is a
  sign and a rational magnitude; every operation computes the exact rational result and rounds
  it once (\<open>rnd\<close>, \<open>mk\<close>), so that overflow to an infinity, gradual underflow, NaN and the
  sign of zero come out as on the machine. The definitions compute.

  The locale \<open>rounding\<close> names the laws of rounding that the clients use (monotone, exact on
  53-bit integers); it is interpreted on \<open>rnd\<close>.
\<close>

named_theorems f64_simps \<open>evaluation of float64 operations\<close>

section \<open>Rounding\<close>

text \<open>Round half to even, to an integer.\<close>

definition rhe :: "rat \<Rightarrow> int" where
  "rhe q = (let f = \<lfloor>q\<rfloor>; r = q - of_int f in
     if r < 1 / 2 then f else if r > 1 / 2 then f + 1 else if even f then f else f + 1)"

definition pow2 :: "int \<Rightarrow> rat" where
  "pow2 e = (if 0 \<le> e then of_int (2 ^ nat e) else 1 / of_int (2 ^ nat (- e)))"

text \<open>The exponent \<open>k\<close> with \<open>pow2 k \<le> q < pow2 (k + 1)\<close>.\<close>

definition binexp :: "rat \<Rightarrow> int" where
  "binexp q = (case quotient_of q of (a, b) \<Rightarrow>
     let k = int (floorlog 2 (nat a)) - int (floorlog 2 (nat b))
     in if pow2 k \<le> q then k else k - 1)"

text \<open>The exponent of the unit in the last place: 53 significant bits, subnormals below.\<close>

definition ulpexp :: "rat \<Rightarrow> int" where
  "ulpexp q = max (binexp q - 52) (- 1074)"

definition rnd :: "rat \<Rightarrow> rat" where
  "rnd q = (if q \<le> 0 then 0 else of_int (rhe (q / pow2 (ulpexp q))) * pow2 (ulpexp q))"

lemma pow2_pos [simp]: "0 < pow2 e"
  by (simp add: pow2_def)

lemma pow2_nonneg [simp]: "0 \<le> pow2 e" "pow2 e \<noteq> 0"
  by (rule less_imp_le [OF pow2_pos]) (rule pow2_pos [THEN less_imp_neq, symmetric])

lemma pow2_powi: "pow2 e = 2 powi e"
  unfolding pow2_def power_int_def by (simp only: of_int_power of_int_numeral divide_inverse power_inverse mult_1)

lemma pow2_add: "pow2 (a + b) = pow2 a * pow2 b"
  by (simp add: pow2_powi power_int_add)

lemma pow2_mono: "a \<le> b \<Longrightarrow> pow2 a \<le> pow2 b"
  by (simp add: pow2_powi power_int_increasing)

lemma pow2_less: "a < b \<Longrightarrow> pow2 a < pow2 b"
  by (simp add: pow2_powi power_int_strict_increasing)

lemma pow2_le_iff [simp]: "pow2 a \<le> pow2 b \<longleftrightarrow> a \<le> b"
  by (meson linorder_not_less pow2_less pow2_mono)

lemma pow2_less_iff [simp]: "pow2 a < pow2 b \<longleftrightarrow> a < b"
  by (meson linorder_not_less pow2_le_iff)

lemma pow2_nat: "0 \<le> e \<Longrightarrow> pow2 e = of_int (2 ^ nat e)"
  by (simp add: pow2_def)

lemma pow2_div: "pow2 a / pow2 b = pow2 (a - b)"
  using pow2_add [of "a - b" b] by (simp add: field_simps)

lemma floor_half [simp]: "\<lfloor>1 / 2 :: rat\<rfloor> = 0"
  by (rule floor_unique) simp_all

lemma rhe_bounds: "rhe q = \<lfloor>q\<rfloor> \<or> rhe q = \<lfloor>q\<rfloor> + 1"
  by (auto simp: rhe_def Let_def)

lemma rhe_of_int [simp]: "rhe (of_int n) = n"
  by (simp add: rhe_def)

lemma rhe_error: "\<bar>of_int (rhe q) - q\<bar> \<le> 1 / 2"
proof -
  have "of_int \<lfloor>q\<rfloor> \<le> q" "q < of_int \<lfloor>q\<rfloor> + 1" by linarith+
  then show ?thesis by (auto simp: rhe_def Let_def)
qed

lemma rhe_mono: "p \<le> q \<Longrightarrow> rhe p \<le> rhe q"
proof -
  assume le: "p \<le> q"
  then have fl: "\<lfloor>p\<rfloor> \<le> \<lfloor>q\<rfloor>" by (rule floor_mono)
  show ?thesis
  proof (cases "\<lfloor>p\<rfloor> = \<lfloor>q\<rfloor>")
    case True
    with le show ?thesis by (auto simp: rhe_def Let_def)
  next
    case False
    with fl have "\<lfloor>p\<rfloor> + 1 \<le> \<lfloor>q\<rfloor>" by simp
    with rhe_bounds [of p] rhe_bounds [of q] show ?thesis by auto
  qed
qed

lemma rhe_nonneg: "0 \<le> q \<Longrightarrow> 0 \<le> rhe q"
  using rhe_mono [of 0 q] rhe_of_int [of 0] by simp

lemma rhe_le_of_int: "q \<le> of_int n \<Longrightarrow> rhe q \<le> n"
  using rhe_mono [of q "of_int n"] by simp

lemma rhe_ge_of_int: "of_int n \<le> q \<Longrightarrow> n \<le> rhe q"
  using rhe_mono [of "of_int n" q] by simp

lemma binexp_bounds:
  assumes "0 < q"
  shows "pow2 (binexp q) \<le> q" and "q < pow2 (binexp q + 1)"
proof -
  obtain a b where ab: "quotient_of q = (a, b)" by (cases "quotient_of q") auto
  have q: "q = of_int a / of_int b" and b: "0 < b"
    using quotient_of_div [OF ab] quotient_of_denom_pos [OF ab] by auto
  with assms have a: "0 < a" by (simp add: zero_less_divide_iff)
  define i where "i = int (floorlog 2 (nat a))"
  define j where "j = int (floorlog 2 (nat b))"
  have fa: "2 ^ (floorlog 2 (nat a) - 1) \<le> nat a \<and> nat a < 2 ^ floorlog 2 (nat a)"
    and fb: "2 ^ (floorlog 2 (nat b) - 1) \<le> nat b \<and> nat b < 2 ^ floorlog 2 (nat b)"
    using a b floorlog_bounds [of "nat a" 2] floorlog_bounds [of "nat b" 2] by simp_all
  have pa: "0 < floorlog 2 (nat a)" and pb: "0 < floorlog 2 (nat b)"
    using a b by (simp_all add: floorlog_def)
  have up: "(of_int x :: rat) < pow2 (int k)" if "nat x < 2 ^ k" "0 < x" for x k
  proof -
    have "(of_int x :: rat) = of_nat (nat x)" using that(2) by simp
    also have "\<dots> < of_nat (2 ^ k)" using that(1) by (simp only: of_nat_less_iff)
    finally show ?thesis by (simp add: pow2_def)
  qed
  have lo: "pow2 (int k - 1) \<le> (of_int x :: rat)" if "2 ^ (k - 1) \<le> nat x" "0 < x" "0 < k" for x k
  proof -
    from that have "pow2 (int k - 1) = of_nat (2 ^ (k - 1))"
      by (simp add: pow2_def nat_diff_distrib)
    also have "\<dots> \<le> of_nat (nat x)" using that(1) by (simp only: of_nat_le_iff)
    finally show ?thesis using that(2) by simp
  qed
  have A: "pow2 (i - 1) \<le> of_int a" "(of_int a :: rat) < pow2 i"
    and B: "pow2 (j - 1) \<le> of_int b" "(of_int b :: rat) < pow2 j"
    using up lo fa fb pa pb a b by (auto simp: i_def j_def)
  have hi: "q < pow2 (i - j + 1)"
  proof -
    have "q < pow2 i / of_int b" using q A(2) b by (simp add: divide_strict_right_mono)
    also have "\<dots> \<le> pow2 i / pow2 (j - 1)" using B(1) b by (intro divide_left_mono) auto
    finally show ?thesis by (simp add: pow2_div algebra_simps)
  qed
  have lo': "pow2 (i - j - 1) \<le> q"
  proof -
    have "pow2 (i - 1) / pow2 j \<le> of_int a / of_int b"
      using A(1) B(2) a b by (intro frac_le) auto
    then show ?thesis by (simp add: pow2_div q algebra_simps)
  qed
  have be: "binexp q = (if pow2 (i - j) \<le> q then i - j else i - j - 1)"
    by (simp add: binexp_def ab i_def j_def)
  show "pow2 (binexp q) \<le> q" using lo' by (simp add: be)
  show "q < pow2 (binexp q + 1)" using hi by (auto simp: be)
qed

lemma binexp_mono: "0 < p \<Longrightarrow> p \<le> q \<Longrightarrow> binexp p \<le> binexp q"
proof -
  assume p: "0 < p" and pq: "p \<le> q"
  have "pow2 (binexp p) < pow2 (binexp q + 1)"
    using binexp_bounds(1) [OF p] pq binexp_bounds(2) [of q] p by linarith
  then show ?thesis by simp
qed

lemma binexp_unique: "pow2 k \<le> q \<Longrightarrow> q < pow2 (k + 1) \<Longrightarrow> binexp q = k"
proof -
  assume k: "pow2 k \<le> q" "q < pow2 (k + 1)"
  then have "0 < q" using pow2_pos [of k] by linarith
  from binexp_bounds [OF this] k have "pow2 (binexp q) < pow2 (k + 1)" "pow2 k < pow2 (binexp q + 1)"
    by linarith+
  then show ?thesis by simp
qed


lemma ulpexp_mono: "0 < p \<Longrightarrow> p \<le> q \<Longrightarrow> ulpexp p \<le> ulpexp q"
  using binexp_mono [of p q] by (auto simp: ulpexp_def)

lemma rnd_zero [simp]: "rnd 0 = 0"
  by (simp add: rnd_def)

lemma rnd_nonneg [simp]: "0 \<le> rnd q"
  by (simp add: rnd_def rhe_nonneg)

text \<open>The significand of a rounded value fits 53 bits (or is exactly the next power of two).\<close>

lemma rhe_sig_le:
  assumes "0 < q"
  shows "rhe (q / pow2 (ulpexp q)) \<le> 2 ^ 53"
proof (rule rhe_le_of_int)
  have "q < pow2 (binexp q + 1)" by (rule binexp_bounds [OF assms])
  also have "\<dots> \<le> pow2 (53 + ulpexp q)" by (simp add: ulpexp_def)
  finally have "q \<le> pow2 53 * pow2 (ulpexp q)" by (simp add: pow2_add)
  then show "q / pow2 (ulpexp q) \<le> of_int (2 ^ 53)" by (simp add: field_simps pow2_nat)
qed

lemma rhe_sig_ge:
  assumes "0 < q" and "- 1074 < ulpexp q"
  shows "2 ^ 52 \<le> rhe (q / pow2 (ulpexp q))"
proof (rule rhe_ge_of_int)
  have "pow2 (52 + ulpexp q) \<le> pow2 (binexp q)" using assms(2) by (simp add: ulpexp_def)
  also have "\<dots> \<le> q" by (rule binexp_bounds [OF assms(1)])
  finally have "pow2 52 * pow2 (ulpexp q) \<le> q" by (simp add: pow2_add)
  then show "of_int (2 ^ 52) \<le> q / pow2 (ulpexp q)" by (simp add: field_simps pow2_nat)
qed

lemma rnd_mono:
  assumes "p \<le> q"
  shows "rnd p \<le> rnd q"
proof (cases "0 < p")
  case True
  with assms have q: "0 < q" by simp
  let ?u = "ulpexp p" and ?v = "ulpexp q"
  have uv: "?u \<le> ?v" by (rule ulpexp_mono [OF True assms])
  show ?thesis
  proof (cases "?u = ?v")
    case eq: True
    have "rhe (p / pow2 ?v) \<le> rhe (q / pow2 ?v)"
      using assms by (intro rhe_mono divide_right_mono) auto
    then show ?thesis using True q eq by (simp add: rnd_def mult_right_mono)
  next
    case False
    with uv have less: "?u + 1 \<le> ?v" and v: "- 1074 < ?v" by (auto simp: ulpexp_def)
    have "rnd p \<le> of_int (2 ^ 53) * pow2 ?u"
      using rhe_sig_le [OF True] True
      by (simp add: rnd_def mult_right_mono del: of_int_power)
    also have "\<dots> = pow2 (53 + ?u)" by (simp add: pow2_add pow2_nat)
    also have "\<dots> \<le> pow2 (52 + ?v)" using less by simp
    also have "\<dots> = of_int (2 ^ 52) * pow2 ?v" by (simp add: pow2_add pow2_nat)
    also have "\<dots> \<le> rnd q"
      using rhe_sig_ge [OF q v] q
      by (simp add: rnd_def mult_right_mono del: of_int_power)
    finally show ?thesis .
  qed
next
  case False
  then show ?thesis using rnd_nonneg [of q] by (simp add: rnd_def [of p])
qed

lemma rnd_multiple:
  assumes "q = of_int m * pow2 e" and "ulpexp q \<le> e" and "0 \<le> q"
  shows "rnd q = q"
proof (cases "q = 0")
  case False
  let ?u = "ulpexp q"
  have "q / pow2 ?u = of_int m * (pow2 e / pow2 ?u)" by (subst (1) assms(1)) simp
  also have "\<dots> = of_int m * pow2 (e - ?u)" by (simp only: pow2_div)
  also have "\<dots> = of_int (m * 2 ^ nat (e - ?u))" using assms(2) by (simp add: pow2_nat)
  finally have "of_int (rhe (q / pow2 ?u)) = q / pow2 ?u" by (simp only: rhe_of_int)
  with False assms(3) show ?thesis by (simp add: rnd_def)
qed simp

definition representable :: "rat \<Rightarrow> bool" where
  "representable q \<longleftrightarrow> (\<exists>m e. q = of_int m * pow2 e \<and> 0 \<le> m \<and> m \<le> 2 ^ 53 \<and> - 1074 \<le> e)"

lemma representable_rnd [simp]: "representable (rnd q)"
proof (cases "q \<le> 0")
  case True
  then show ?thesis
    by (auto simp: rnd_def representable_def intro!: exI [of _ "0::int"])
next
  case False
  then have "rnd q = of_int (rhe (q / pow2 (ulpexp q))) * pow2 (ulpexp q)"
    and "0 \<le> rhe (q / pow2 (ulpexp q))" and "rhe (q / pow2 (ulpexp q)) \<le> 2 ^ 53"
    by (simp_all add: rnd_def rhe_nonneg rhe_sig_le [simplified])
  moreover have "- 1074 \<le> ulpexp q" by (simp add: ulpexp_def)
  ultimately show ?thesis unfolding representable_def by blast
qed

lemma rnd_representable:
  assumes "representable q"
  shows "rnd q = q"
proof -
  from assms obtain m e where q: "q = of_int m * pow2 e" and m: "0 \<le> m" "m \<le> 2 ^ 53"
    and e: "- 1074 \<le> e" unfolding representable_def by blast
  have nn: "0 \<le> q" using q m by simp
  consider "m = 0" | "m = 2 ^ 53" | "0 < m" "m < 2 ^ 53" using m by linarith
  then show ?thesis
  proof cases
    case 1
    with q show ?thesis by simp
  next
    case 2
    then have q': "q = of_int (2 ^ 52) * pow2 (e + 1)" using q by (simp add: pow2_add pow2_nat)
    then have "q = pow2 (e + 53)" by (simp add: pow2_add pow2_nat)
    then have "binexp q = e + 53" by (intro binexp_unique) auto
    with e have "ulpexp q \<le> e + 1" by (simp add: ulpexp_def)
    then show ?thesis by (rule rnd_multiple [OF q' _ nn])
  next
    case 3
    then have pos: "0 < q" using q by simp
    have "(of_int m :: rat) < of_int (2 ^ 53)" using 3(2) by (simp only: of_int_less_iff)
    then have "q < of_int (2 ^ 53) * pow2 e" unfolding q by (rule mult_strict_right_mono) simp
    also have "\<dots> = pow2 (e + 53)" by (simp add: pow2_add pow2_nat)
    finally have "pow2 (binexp q) < pow2 (e + 53)" using binexp_bounds(1) [OF pos] by linarith
    with e have "ulpexp q \<le> e" by (simp add: ulpexp_def)
    then show ?thesis by (rule rnd_multiple [OF q _ nn])
  qed
qed

lemma rnd_rnd [simp]: "rnd (rnd q) = rnd q"
  by (simp add: rnd_representable)

lemma representable_int: "0 \<le> n \<Longrightarrow> n \<le> 2 ^ 53 \<Longrightarrow> representable (of_int n)"
  unfolding representable_def by (rule exI [of _ n], rule exI [of _ 0]) (simp add: pow2_def)

lemma rnd_int: "0 \<le> n \<Longrightarrow> n \<le> 2 ^ 53 \<Longrightarrow> rnd (of_int n) = of_int n"
  by (rule rnd_representable [OF representable_int])

lemma representable_pow2: "- 1074 \<le> e \<Longrightarrow> representable (pow2 e)"
  unfolding representable_def by (rule exI [of _ 1], rule exI [of _ e]) simp

text \<open>Relative error of half a unit in the last place, away from the subnormal range.\<close>

lemma rnd_lower:
  assumes "0 \<le> q" and "pow2 (- 1022) \<le> q \<or> (\<exists>m. q = of_int m * pow2 (- 1074))"
  shows "q * (1 - pow2 (- 53)) \<le> rnd q"
proof (cases "pow2 (- 1022) \<le> q")
  case True
  then have pos: "0 < q" using pow2_pos [of "- 1022"] by linarith
  let ?u = "ulpexp q"
  have "pow2 (- 1022) < pow2 (binexp q + 1)" using True binexp_bounds(2) [OF pos] by linarith
  then have u: "?u = binexp q - 52" by (simp add: ulpexp_def)
  have "q / pow2 ?u - 1 / 2 \<le> of_int (rhe (q / pow2 ?u))"
    using rhe_error [of "q / pow2 ?u"] by linarith
  then have "(q / pow2 ?u - 1 / 2) * pow2 ?u \<le> rnd q"
    using pos by (simp add: rnd_def mult_right_mono)
  then have "q - pow2 ?u / 2 \<le> rnd q" by (simp add: left_diff_distrib)
  moreover have half: "pow2 ?u / 2 = pow2 (binexp q) * pow2 (- 53)"
    using pow2_div [of ?u 1] pow2_add [of "binexp q" "- 53"] by (simp add: u pow2_def [of 1])
  moreover have "pow2 (binexp q) * pow2 (- 53) \<le> q * pow2 (- 53)"
    using binexp_bounds(1) [OF pos] by (rule mult_right_mono) simp
  ultimately have "q - q * pow2 (- 53) \<le> rnd q" by linarith
  then show ?thesis by (simp add: right_diff_distrib)
next
  case False
  with assms(2) obtain m where q: "q = of_int m * pow2 (- 1074)" by blast
  have "rnd q = q"
  proof (cases "q = 0")
    case nz: False
    with assms(1) have pos: "0 < q" by simp
    have "pow2 (binexp q) < pow2 (- 1022)"
      using binexp_bounds(1) [OF pos] False by linarith
    then have "ulpexp q \<le> - 1074" by (simp add: ulpexp_def)
    then show ?thesis by (rule rnd_multiple [OF q _ assms(1)])
  qed simp
  moreover have "q * (1 - pow2 (- 53)) \<le> q * 1"
    using assms(1) by (intro mult_left_mono) auto
  ultimately show ?thesis by simp
qed


text \<open>The laws of rounding that percentages and products rely on.\<close>

locale rounding =
  fixes r :: "rat \<Rightarrow> rat"
  assumes mono: "p \<le> q \<Longrightarrow> r p \<le> r q"
    and exact: "representable q \<Longrightarrow> r q = q"
begin

lemma exact_int: "0 \<le> n \<Longrightarrow> n \<le> 2 ^ 53 \<Longrightarrow> r (of_int n) = of_int n"
  by (rule exact [OF representable_int])

lemma nonneg: "0 \<le> q \<Longrightarrow> 0 \<le> r q"
  using mono [of 0 q] exact_int [of 0] by simp

lemma le_bound: "q \<le> b \<Longrightarrow> representable b \<Longrightarrow> r q \<le> b"
  using mono [of q b] exact [of b] by simp

lemma ge_bound: "b \<le> q \<Longrightarrow> representable b \<Longrightarrow> b \<le> r q"
  using mono [of b q] exact [of b] by simp

lemma ratio_mono: "p \<le> q \<Longrightarrow> 0 < b \<Longrightarrow> r (r p / b) \<le> r (r q / b)"
  by (intro mono divide_right_mono) simp_all

lemma ratio_antimono: "0 \<le> p \<Longrightarrow> 0 < b \<Longrightarrow> b \<le> c \<Longrightarrow> r (r p / c) \<le> r (r p / b)"
  by (intro mono divide_left_mono nonneg) simp_all

end

text \<open>Rounding with the half-ulp error bound on sums and products of machine values.\<close>

locale sharp_rounding = rounding +
  assumes lower: "0 \<le> q \<Longrightarrow> q = of_int m * pow2 (- 1074) \<Longrightarrow> q * (1 - pow2 (- 53)) \<le> r q"
begin

lemma percent_reached:
  assumes b: "0 < b" and ab: "b \<le> a" and rep: "representable a"
  shows "399 / 4 \<le> r (r (100 * a) / b)"
proof -
  from rep obtain m e where a: "a = of_int m * pow2 e" and e: "- 1074 \<le> e"
    unfolding representable_def by blast
  have "100 * a = of_int (100 * m * 2 ^ nat (e + 1074)) * pow2 (- 1074)"
    using e pow2_add [of "e + 1074" "- 1074"] by (simp add: a pow2_nat)
  moreover have a0: "0 \<le> 100 * a" using b ab by simp
  ultimately have "100 * a * (1 - pow2 (- 53)) \<le> r (100 * a)" by (intro lower)
  then have "100 * a * (1 - pow2 (- 53)) / b \<le> r (100 * a) / b"
    using b by (simp add: divide_right_mono)
  moreover have "(100 * (1 - pow2 (- 53))) * 1 \<le> (100 * (1 - pow2 (- 53))) * (a / b)"
    using b ab by (intro mult_left_mono) (auto simp: pow2_def)
  ultimately have "399 / 4 \<le> r (100 * a) / b" by (simp add: pow2_def)
  moreover have "representable (399 / 4)"
    unfolding representable_def by (rule exI [of _ 399], rule exI [of _ "- 2"]) (simp add: pow2_def)
  ultimately show ?thesis by (rule ge_bound)
qed

end

interpretation f64r: sharp_rounding rnd
proof unfold_locales
  fix q m assume "0 \<le> q" "q = of_int m * pow2 (- 1074)"
  then show "q * (1 - pow2 (- 53)) \<le> rnd q" by (intro rnd_lower) auto
qed (auto intro: rnd_mono rnd_representable)

section \<open>Values and operations\<close>

text \<open>\<open>Inf True\<close> and \<open>Fin True q\<close> are negative; \<open>Fin s q\<close> has the magnitude \<open>q\<close>.\<close>

datatype f64 = NaN | Inf bool | Fin bool rat

definition f64_ok :: "f64 \<Rightarrow> bool" where
  "f64_ok x = (case x of Fin s q \<Rightarrow> 0 \<le> q \<and> representable q \<and> q < pow2 1024 | _ \<Rightarrow> True)"

fun fval :: "f64 \<Rightarrow> rat" where
  "fval (Fin s q) = (if s then - q else q)"
| "fval _ = 0"

definition mk :: "bool \<Rightarrow> rat \<Rightarrow> f64" where
  "mk s q = (if rnd q < pow2 1024 then Fin s (rnd q) else Inf s)"

definition f64_of_int :: "int \<Rightarrow> f64" where
  "f64_of_int n = mk (n < 0) (of_int \<bar>n\<bar>)"

definition fzero :: f64 where
  "fzero = Fin False 0"

fun fneg :: "f64 \<Rightarrow> f64" where
  "fneg NaN = NaN"
| "fneg (Inf s) = Inf (\<not> s)"
| "fneg (Fin s q) = Fin (\<not> s) q"

fun fadd :: "f64 \<Rightarrow> f64 \<Rightarrow> f64" where
  "fadd (Fin s p) (Fin t q) = (let v = fval (Fin s p) + fval (Fin t q) in
     if v = 0 then Fin (s \<and> t) 0 else mk (v < 0) \<bar>v\<bar>)"
| "fadd NaN _ = NaN"
| "fadd _ NaN = NaN"
| "fadd (Inf s) (Inf t) = (if s = t then Inf s else NaN)"
| "fadd (Inf s) _ = Inf s"
| "fadd _ (Inf t) = Inf t"

definition fsub :: "f64 \<Rightarrow> f64 \<Rightarrow> f64" where
  "fsub x y = fadd x (fneg y)"

fun fmul :: "f64 \<Rightarrow> f64 \<Rightarrow> f64" where
  "fmul (Fin s p) (Fin t q) = mk (s \<noteq> t) (p * q)"
| "fmul NaN _ = NaN"
| "fmul _ NaN = NaN"
| "fmul (Inf s) (Inf t) = Inf (s \<noteq> t)"
| "fmul (Inf s) (Fin t q) = (if q = 0 then NaN else Inf (s \<noteq> t))"
| "fmul (Fin s p) (Inf t) = (if p = 0 then NaN else Inf (s \<noteq> t))"

fun fdiv :: "f64 \<Rightarrow> f64 \<Rightarrow> f64" where
  "fdiv (Fin s p) (Fin t q) =
     (if q = 0 then if p = 0 then NaN else Inf (s \<noteq> t) else mk (s \<noteq> t) (p / q))"
| "fdiv NaN _ = NaN"
| "fdiv _ NaN = NaN"
| "fdiv (Inf s) (Inf t) = NaN"
| "fdiv (Inf s) (Fin t q) = Inf (s \<noteq> t)"
| "fdiv (Fin s p) (Inf t) = Fin (s \<noteq> t) 0"

fun flt :: "f64 \<Rightarrow> f64 \<Rightarrow> bool" where
  "flt (Fin s p) (Fin t q) = (fval (Fin s p) < fval (Fin t q))"
| "flt NaN _ = False"
| "flt _ NaN = False"
| "flt (Inf s) (Inf t) = (s \<and> \<not> t)"
| "flt (Inf s) (Fin _ _) = s"
| "flt (Fin _ _) (Inf t) = (\<not> t)"

fun fle :: "f64 \<Rightarrow> f64 \<Rightarrow> bool" where
  "fle (Fin s p) (Fin t q) = (fval (Fin s p) \<le> fval (Fin t q))"
| "fle NaN _ = False"
| "fle _ NaN = False"
| "fle (Inf s) (Inf t) = (s \<or> \<not> t)"
| "fle (Inf s) (Fin _ _) = s"
| "fle (Fin _ _) (Inf t) = (\<not> t)"

text \<open>\<^verbatim>\<open>math.Round\<close>: half away from zero.\<close>

fun fround :: "f64 \<Rightarrow> f64" where
  "fround (Fin s q) = Fin s (of_int \<lfloor>q + 1 / 2\<rfloor>)"
| "fround x = x"

text \<open>
  A conversion to an integer type truncates towards zero. For a value outside \<open>[lo, hi]\<close>
  (and for NaN and the infinities) Go leaves the result to the implementation: it is the
  parameter \<open>oor\<close>.
\<close>

definition ftrunc :: "(f64 \<Rightarrow> int) \<Rightarrow> int \<Rightarrow> int \<Rightarrow> f64 \<Rightarrow> int" where
  "ftrunc oor lo hi x = (case x of
     Fin s q \<Rightarrow> (let t = (if s then - \<lfloor>q\<rfloor> else \<lfloor>q\<rfloor>) in if lo \<le> t \<and> t \<le> hi then t else oor x)
   | _ \<Rightarrow> oor x)"

definition f64_to_i64 :: "(f64 \<Rightarrow> int) \<Rightarrow> f64 \<Rightarrow> int" where
  "f64_to_i64 oor = ftrunc oor (- (2 ^ 63)) (2 ^ 63 - 1)"

definition f64_to_i32 :: "(f64 \<Rightarrow> int) \<Rightarrow> f64 \<Rightarrow> int" where
  "f64_to_i32 oor = ftrunc oor (- (2 ^ 31)) (2 ^ 31 - 1)"

section \<open>Facts about the operations\<close>

lemma mk_ok [simp]: "f64_ok (mk s q)"
  by (simp add: mk_def f64_ok_def)

lemma f64_of_int_ok [simp]: "f64_ok (f64_of_int n)"
  by (simp add: f64_of_int_def)

lemma representable_zero [simp]: "representable 0"
  using representable_int [of 0] by simp

lemma fzero_ok [simp]: "f64_ok fzero"
  by (simp add: fzero_def f64_ok_def)

lemma fneg_ok [simp]: "f64_ok (fneg x) = f64_ok x"
  by (cases x) (simp_all add: f64_ok_def)

lemma fin_zero_ok [simp]: "f64_ok (Fin s 0)"
  by (simp add: f64_ok_def)

lemma nan_inf_ok [simp]: "f64_ok NaN" "f64_ok (Inf s)"
  by (simp_all add: f64_ok_def)

lemma fadd_ok [simp]: "f64_ok (fadd x y)" if "f64_ok x" "f64_ok y"
  using that by (cases "(x, y)" rule: fadd.cases) (simp_all add: Let_def)

lemma fmul_ok [simp]: "f64_ok (fmul x y)"
  by (cases "(x, y)" rule: fmul.cases) simp_all

lemma fdiv_ok [simp]: "f64_ok (fdiv x y)"
  by (cases "(x, y)" rule: fdiv.cases) simp_all

lemma f64_of_nat_small:
  assumes "0 \<le> n" and "n \<le> 2 ^ 53"
  shows "f64_of_int n = Fin False (of_int n)"
proof -
  have "(of_int n :: rat) \<le> of_int (2 ^ 53)" using assms(2) by (simp only: of_int_le_iff)
  also have "\<dots> < pow2 1024" by (simp add: pow2_nat)
  finally show ?thesis using assms rnd_int [OF assms] by (simp add: f64_of_int_def mk_def)
qed

lemma mk_exact: "representable q \<Longrightarrow> q < pow2 1024 \<Longrightarrow> mk s q = Fin s q"
  by (simp add: mk_def rnd_representable)

lemma mk_int [f64_simps]:
  assumes "0 \<le> n" and "n \<le> 2 ^ 53"
  shows "mk s (of_int n) = Fin s (of_int n)"
  using f64_of_nat_small [OF assms] assms rnd_int [OF assms]
  by (simp add: f64_of_int_def mk_def split: if_splits)

lemma mk_numeral [f64_simps]:
  "(numeral k :: int) \<le> 2 ^ 53 \<Longrightarrow> mk s (numeral k) = Fin s (numeral k)"
  using mk_int [of "numeral k" s] by simp

lemma mk_one [f64_simps]: "mk s 1 = Fin s 1"
  using mk_int [of 1 s] by simp

lemma mk_zero [f64_simps]: "mk s 0 = Fin s 0"
  using mk_int [of 0 s] by simp

lemma f64_numeral [f64_simps]:
  "(numeral k :: int) \<le> 2 ^ 53 \<Longrightarrow> f64_of_int (numeral k) = Fin False (numeral k)"
  using f64_of_nat_small [of "numeral k"] by simp

lemma f64_small [f64_simps]:
  "f64_of_int 0 = Fin False 0" "f64_of_int 1 = Fin False 1"
  using f64_of_nat_small [of 0] f64_of_nat_small [of 1] by simp_all

lemma flt_imp_fle: "flt x y \<Longrightarrow> fle x y"
  by (cases "(x, y)" rule: flt.cases) auto

lemma fle_trans: "fle x y \<Longrightarrow> fle y z \<Longrightarrow> fle x z"
  by (cases x; cases y; cases z) (auto split: if_splits)

lemma fle_flt_trans: "fle x y \<Longrightarrow> flt y z \<Longrightarrow> flt x z"
  by (cases x; cases y; cases z) (auto split: if_splits)

lemma flt_fle_trans: "flt x y \<Longrightarrow> fle y z \<Longrightarrow> flt x z"
  by (cases x; cases y; cases z) (auto split: if_splits)

lemma not_flt: "x \<noteq> NaN \<Longrightarrow> y \<noteq> NaN \<Longrightarrow> \<not> flt x y \<longleftrightarrow> fle y x"
  by (cases x; cases y) (auto split: if_splits)

lemma fle_NaN: "fle x y \<Longrightarrow> x \<noteq> NaN \<and> y \<noteq> NaN"
  by (cases x; cases y) auto

lemma not_le_NaN [simp]: "\<not> fle x NaN" "\<not> flt x NaN"
  by (cases x; simp)+

lemma fle_refl: "x \<noteq> NaN \<Longrightarrow> fle x x"
  by (cases x) auto

lemma mk_mono: "p \<le> q \<Longrightarrow> fle (mk False p) (mk False q)"
  using rnd_mono [of p q] by (auto simp: mk_def)

lemma f64_of_int_not_NaN [simp]: "f64_of_int n \<noteq> NaN"
  by (simp add: f64_of_int_def mk_def)

lemma f64_of_int_nonneg:
  assumes "0 \<le> n" and "n < 2 ^ 64"
  shows "f64_of_int n = Fin False (rnd (of_int n))"
proof -
  have "(of_int n :: rat) \<le> of_int (2 ^ 64)" using assms(2) by (simp only: of_int_le_iff)
  then have "rnd (of_int n) \<le> rnd (pow2 64)" by (intro rnd_mono) (simp add: pow2_nat)
  also have "\<dots> = pow2 64" by (intro rnd_representable representable_pow2) simp
  also have "\<dots> < pow2 1024" by simp
  finally show ?thesis using assms(1) by (simp add: f64_of_int_def mk_def)
qed

lemma rnd_pos_int: "1 \<le> n \<Longrightarrow> 1 \<le> rnd (of_int n)"
  using f64r.ge_bound [of 1 "of_int n"] representable_int [of 1] by simp

lemma fround_bounds: "0 \<le> q \<Longrightarrow> q - 1 / 2 \<le> of_int \<lfloor>q + 1 / 2\<rfloor> \<and> of_int \<lfloor>q + 1 / 2\<rfloor> \<le> q + 1 / 2"
  by linarith

lemma f64_to_i64_range: "(\<And>y. in_i64 (oor y)) \<Longrightarrow> in_i64 (f64_to_i64 oor x)"
  by (auto simp: f64_to_i64_def ftrunc_def in_i64_def Let_def split: f64.splits)

lemma f64_to_i32_range: "(\<And>y. in_i32 (oor y)) \<Longrightarrow> in_i32 (f64_to_i32 oor x)"
  by (auto simp: f64_to_i32_def ftrunc_def in_i32_def Let_def split: f64.splits)

lemma f64_to_i32_int: "0 \<le> n \<Longrightarrow> n < 2 ^ 31 \<Longrightarrow> f64_to_i32 oor (Fin False (of_int n)) = n"
  by (simp add: f64_to_i32_def ftrunc_def)

end
