(* ===== verification/FloatText.thy ===== *)
theory FloatText
  imports Float64
begin

text \<open>
  The text forms of a \<^verbatim>\<open>float64\<close>: \<^verbatim>\<open>strconv.FormatFloat(v, 'f', p, 64)\<close> (the verb
  \<^verbatim>\<open>%.pf\<close>) and \<^verbatim>\<open>strconv.ParseFloat(s, 64)\<close>, with decimal and hexadecimal literals, signs,
  exponents, digit separators and the special names. \<open>ParseFloat\<close> answers \<open>None\<close> for every
  error, a value out of range included: no caller in the program looks at the value that comes
  with an error.
\<close>

section \<open>Formatting\<close>

definition frac_part :: "nat \<Rightarrow> nat \<Rightarrow> string" where
  "frac_part p n = (if p = 0 then '''' else CHR ''.'' # decw p n)"

text \<open>The magnitude scaled by \<open>10 ^ p\<close>, rounded half to even as the exact decimal is.\<close>

definition scaled :: "nat \<Rightarrow> rat \<Rightarrow> nat" where
  "scaled p q = nat (rhe (q * 10 ^ p))"

definition FormatFixed :: "nat \<Rightarrow> f64 \<Rightarrow> string" where
  "FormatFixed p x = (case x of
     NaN \<Rightarrow> ''NaN''
   | Inf s \<Rightarrow> (if s then ''-Inf'' else ''+Inf'')
   | Fin s q \<Rightarrow> (if s then ''-'' else '''') @ dec (scaled p q div 10 ^ p) @ frac_part p (scaled p q mod 10 ^ p))"

section \<open>Parsing\<close>

definition parse_special :: "string \<Rightarrow> f64 option" where
  "parse_special s = (let t = ToLower s in
     if t = ''nan'' then Some NaN
     else if t \<in> {''inf'', ''+inf'', ''infinity'', ''+infinity''} then Some (Inf False)
     else if t \<in> {''-inf'', ''-infinity''} then Some (Inf True)
     else None)"

definition is_hex :: "char \<Rightarrow> bool" where
  "is_hex c \<longleftrightarrow> is_digit c \<or> CHR ''a'' \<le> lower_char c \<and> lower_char c \<le> CHR ''f''"

definition hex_val :: "char \<Rightarrow> nat" where
  "hex_val c = (if is_digit c then digit_val c else of_char (lower_char c) - 87)"

definition strip_sign :: "string \<Rightarrow> bool \<times> string" where
  "strip_sign s = (case s of [] \<Rightarrow> (False, []) | c # t \<Rightarrow>
     if c = CHR ''-'' then (True, t) else if c = CHR ''+'' then (False, t) else (False, c # t))"

definition hex_prefix :: "string \<Rightarrow> bool" where
  "hex_prefix s = (case s of a # b # c # _ \<Rightarrow> a = CHR ''0'' \<and> lower_char b = CHR ''x'' | _ \<Rightarrow> False)"

text \<open>
  \<^verbatim>\<open>underscoreOK\<close>: an underscore stands between digits or between a base prefix and a digit.
  The first argument is the last character class seen: \<open>True\<close> a digit, the second: an underscore.
\<close>

fun underscores_from :: "bool \<Rightarrow> bool \<Rightarrow> bool \<Rightarrow> string \<Rightarrow> bool" where
  "underscores_from hex dig us [] = (\<not> us)"
| "underscores_from hex dig us (c # s) =
     (if is_digit c \<or> hex \<and> is_hex c then underscores_from hex True False s
      else if c = CHR ''_'' then dig \<and> underscores_from hex False True s
      else \<not> us \<and> underscores_from hex False False s)"

definition base_prefix :: "string \<Rightarrow> bool" where
  "base_prefix s = (case s of a # b # _ \<Rightarrow> a = CHR ''0'' \<and> lower_char b \<in> {CHR ''b'', CHR ''o'', CHR ''x''}
     | _ \<Rightarrow> False)"

definition underscoreOK :: "string \<Rightarrow> bool" where
  "underscoreOK s = (let t = snd (strip_sign s) in
     if base_prefix t
     then underscores_from (lower_char (t ! 1) = CHR ''x'') True False (drop 2 t)
     else underscores_from False False False t)"

text \<open>The exponent stops growing once it has reached 10000, as in \<^verbatim>\<open>readFloat\<close>.\<close>

definition exp_val :: "string \<Rightarrow> int" where
  "exp_val s = foldl (\<lambda>e c. if e < 10000 then e * 10 + int (digit_val c) else e) 0 s"

definition parse_exp :: "string \<Rightarrow> int option" where
  "parse_exp s = (case strip_sign s of (neg, t) \<Rightarrow>
     if t = [] \<or> \<not> list_all is_digit t then None
     else Some (if neg then - exp_val t else exp_val t))"

definition scale10 :: "int \<Rightarrow> rat \<Rightarrow> rat" where
  "scale10 e q = (if 0 \<le> e then q * 10 ^ nat e else q / 10 ^ nat (- e))"

definition read_float :: "string \<Rightarrow> f64 option" where
  "read_float s0 = (case strip_sign s0 of (neg, s1) \<Rightarrow>
     let hex = hex_prefix s1;
         isd = (if hex then is_hex else is_digit);
         s = (if hex then drop 2 s1 else s1);
         ip = takeWhile isd s; r = dropWhile isd s;
         (fp, r2) = (case r of [] \<Rightarrow> ([], []) | c # t \<Rightarrow>
            if c = CHR ''.'' then (takeWhile isd t, dropWhile isd t) else ([], c # t));
         ex = (case r2 of [] \<Rightarrow> if hex then None else Some 0
            | c # t \<Rightarrow> if lower_char c = (if hex then CHR ''p'' else CHR ''e'') then parse_exp t else None)
     in if ip @ fp = [] then None
        else map_option (\<lambda>e. mk neg
          (if hex then of_nat (foldl (\<lambda>n c. 16 * n + hex_val c) 0 (ip @ fp)) * pow2 (e - 4 * int (length fp))
           else scale10 (e - int (length fp)) (of_nat (digits_val (ip @ fp))))) ex)"

definition ParseFloat :: "string \<Rightarrow> f64 option" where
  "ParseFloat s = (case parse_special s of Some x \<Rightarrow> Some x | None \<Rightarrow>
     if CHR ''_'' \<in> set s \<and> \<not> underscoreOK s then None
     else case read_float (filter (\<lambda>c. c \<noteq> CHR ''_'') s) of
       Some (Fin sg q) \<Rightarrow> Some (Fin sg q)
     | _ \<Rightarrow> None)"

text \<open>Why a failed parse failed: the numeral is out of range, or it is no numeral.\<close>

datatype num_error = ErrSyntax | ErrRange

definition ParseFloat_failure :: "string \<Rightarrow> num_error" where
  "ParseFloat_failure s =
     (if CHR ''_'' \<in> set s \<and> \<not> underscoreOK s then ErrSyntax
      else case read_float (filter (\<lambda>c. c \<noteq> CHR ''_'') s) of None \<Rightarrow> ErrSyntax | Some _ \<Rightarrow> ErrRange)"

definition num_error_text :: "(string \<Rightarrow> string) \<Rightarrow> string \<Rightarrow> string \<Rightarrow> num_error \<Rightarrow> string" where
  "num_error_text quote fn s e = ''strconv.'' @ fn @ '': parsing '' @ quote s @ '': '' @
     (case e of ErrSyntax \<Rightarrow> ''invalid syntax'' | ErrRange \<Rightarrow> ''value out of range'')"

section \<open>Reading back a fixed-point numeral\<close>

definition digits :: "string \<Rightarrow> bool" where
  "digits s \<longleftrightarrow> (\<forall>c \<in> set s. is_digit c)"

lemma digits_Nil [simp]: "digits []"
  by (simp add: digits_def)

lemma digits_dec [simp]: "digits (dec n)"
  by (simp add: digits_def dec_digits)

lemma digits_decw [simp]: "digits (decw w n)"
  by (auto simp: digits_def dest: decw_digits)

lemma digits_append [simp]: "digits (s @ t) \<longleftrightarrow> digits s \<and> digits t"
  by (auto simp: digits_def)

lemma not_digit_chars [simp]:
  "\<not> is_digit CHR ''.''" "\<not> is_digit CHR ''-''" "\<not> is_digit CHR ''+''" "\<not> is_digit CHR ''_''"
  "\<not> is_digit CHR ''x''" "\<not> is_digit CHR ''$''"
  by (auto simp: is_digit_def less_eq_char_def)

text \<open>A numeral: digits, then possibly a point and digits, as \<^verbatim>\<open>%.pf\<close> writes it.\<close>

definition numeral_text :: "bool \<Rightarrow> string \<Rightarrow> string option \<Rightarrow> string" where
  "numeral_text neg ds fs = (if neg then ''-'' else '''') @ ds
     @ (case fs of None \<Rightarrow> '''' | Some t \<Rightarrow> CHR ''.'' # t)"

definition frac_digits :: "string option \<Rightarrow> string" where
  "frac_digits fs = (case fs of None \<Rightarrow> '''' | Some t \<Rightarrow> t)"

lemma takeWhile_digits: "digits s \<Longrightarrow> takeWhile is_digit (s @ t) = s @ takeWhile is_digit t"
  by (auto simp: digits_def takeWhile_append2)

lemma dropWhile_digits: "digits s \<Longrightarrow> dropWhile is_digit (s @ t) = dropWhile is_digit t"
  by (auto simp: digits_def dropWhile_append2)

lemma strip_sign_numeral:
  assumes "digits ds" and "ds \<noteq> []"
  shows "strip_sign (numeral_text neg ds fs) = (neg, numeral_text False ds fs)"
proof -
  obtain d ds' where "ds = d # ds'" and "is_digit d" using assms by (cases ds) (auto simp: digits_def)
  then show ?thesis by (auto simp: strip_sign_def numeral_text_def)
qed

lemma hex_prefix_numeral:
  assumes "digits ds" and "ds \<noteq> []"
  shows "\<not> hex_prefix (numeral_text False ds fs)"
proof -
  have nx: "lower_char c \<noteq> CHR ''x''" if "is_digit c \<or> c = CHR ''.''" for c
    using that by (auto simp: lower_char_def is_digit_def less_eq_char_def)
  obtain d ds' where ds: "ds = d # ds'" using assms by (cases ds) auto
  show ?thesis
  proof (cases ds')
    case Nil
    with ds nx show ?thesis
      by (auto simp: hex_prefix_def numeral_text_def split: option.splits list.splits)
  next
    case (Cons e es)
    with ds assms(1) have "is_digit e" by (simp add: digits_def)
    with nx Cons ds show ?thesis by (auto simp: hex_prefix_def numeral_text_def split: list.splits)
  qed
qed

lemma read_float_numeral:
  assumes "digits ds" and "ds \<noteq> []" and "digits (frac_digits fs)"
  shows "read_float (numeral_text neg ds fs) =
    Some (mk neg (of_nat (digits_val (ds @ frac_digits fs)) / 10 ^ length (frac_digits fs)))"
proof (cases fs)
  case None
  have "takeWhile is_digit (numeral_text False ds fs) = ds"
    and "dropWhile is_digit (numeral_text False ds fs) = []"
    using takeWhile_digits [OF assms(1), of "[]"] dropWhile_digits [OF assms(1), of "[]"] None
    by (simp_all add: numeral_text_def)
  then show ?thesis
    using assms hex_prefix_numeral [OF assms(1,2), of fs] None
    by (simp add: read_float_def strip_sign_numeral Let_def scale10_def frac_digits_def
        del: dropWhile_eq_Nil_conv takeWhile_eq_all_conv)
next
  case (Some t)
  have t: "digits t" using assms(3) Some by (simp add: frac_digits_def)
  have "takeWhile is_digit (numeral_text False ds fs) = ds"
    and "dropWhile is_digit (numeral_text False ds fs) = CHR ''.'' # t"
    using assms(1) Some by (simp_all add: numeral_text_def takeWhile_digits dropWhile_digits)
  moreover have "takeWhile is_digit t = t" "dropWhile is_digit t = []"
    using takeWhile_digits [OF t, of "[]"] dropWhile_digits [OF t, of "[]"] by simp_all
  ultimately show ?thesis
    using assms hex_prefix_numeral [OF assms(1,2), of fs] Some
    by (simp add: read_float_def strip_sign_numeral Let_def scale10_def frac_digits_def
        del: dropWhile_eq_Nil_conv takeWhile_eq_all_conv)
qed

lemma numeral_no_underscore:
  "digits ds \<Longrightarrow> digits (frac_digits fs) \<Longrightarrow> CHR ''_'' \<notin> set (numeral_text neg ds fs)"
  by (auto simp: numeral_text_def frac_digits_def digits_def split: option.splits)

lemma numeral_not_special:
  assumes "digits ds" and "ds \<noteq> []"
  shows "parse_special (numeral_text neg ds fs) = None"
proof -
  obtain d ds' where ds: "ds = d # ds'" and d: "is_digit d"
    using assms by (cases ds) (auto simp: digits_def)
  have "lower_char d = d" using d by (auto simp: lower_char_def is_digit_def less_eq_char_def)
  moreover have "d \<noteq> CHR ''n''" "d \<noteq> CHR ''i''" "d \<noteq> CHR ''+''" "d \<noteq> CHR ''-''"
    using d by (auto simp: is_digit_def less_eq_char_def)
  moreover have "lower_char CHR ''-'' = CHR ''-''" by (simp add: lower_char_def less_eq_char_def)
  ultimately show ?thesis
    by (auto simp: parse_special_def Let_def numeral_text_def ToLower_def ds)
qed

lemma ParseFloat_numeral:
  assumes "digits ds" and "ds \<noteq> []" and "digits (frac_digits fs)"
    and "v = of_nat (digits_val (ds @ frac_digits fs)) / 10 ^ length (frac_digits fs)"
    and "rnd v < pow2 1024"
  shows "ParseFloat (numeral_text neg ds fs) = Some (Fin neg (rnd v))"
proof -
  have "filter (\<lambda>c. c \<noteq> CHR ''_'') (numeral_text neg ds fs) = numeral_text neg ds fs"
    using numeral_no_underscore [OF assms(1,3)] by (auto simp: filter_id_conv)
  then show ?thesis
    using assms numeral_no_underscore [OF assms(1,3)]
    by (simp add: ParseFloat_def numeral_not_special read_float_numeral mk_def)
qed


section \<open>Format, then parse\<close>

lemma scaled_error:
  assumes "0 \<le> q"
  shows "\<bar>of_nat (scaled p q) / 10 ^ p - q\<bar> \<le> 1 / (2 * 10 ^ p)"
proof -
  have "\<bar>of_nat (scaled p q) - q * 10 ^ p\<bar> \<le> (1 / 2 :: rat)"
    using rhe_error [of "q * 10 ^ p"] assms by (simp add: scaled_def rhe_nonneg)
  then have "\<bar>of_nat (scaled p q) - q * 10 ^ p\<bar> / 10 ^ p \<le> (1 / 2) / (10 ^ p :: rat)"
    by (rule divide_right_mono) simp
  moreover have "\<bar>of_nat (scaled p q) - q * 10 ^ p\<bar> / 10 ^ p = \<bar>of_nat (scaled p q) / 10 ^ p - q\<bar>"
  proof -
    have "of_nat (scaled p q) / 10 ^ p - q = (of_nat (scaled p q) - q * 10 ^ p) / 10 ^ p"
      by (simp add: diff_divide_distrib)
    then show ?thesis by (simp only: abs_divide) simp
  qed
  ultimately show ?thesis by (simp add: divide_divide_eq_left')
qed

lemma scaled_int: "scaled p (of_nat n) = n * 10 ^ p"
  using rhe_of_int [of "int (n * 10 ^ p)"] by (simp add: scaled_def nat_mult_distrib nat_power_eq)

text \<open>A magnitude below \<open>2 ^ 1024\<close> stays below it through the decimal rounding.\<close>

lemma representable_big_int:
  assumes "representable q" and "pow2 53 \<le> q"
  shows "\<exists>n. q = of_nat n"
proof -
  from assms(1) obtain m e where q: "q = of_int m * pow2 e" and m: "0 \<le> m" "m \<le> 2 ^ 53"
    unfolding representable_def by blast
  have "0 \<le> e"
  proof (rule ccontr)
    assume "\<not> 0 \<le> e"
    then have "pow2 e < 1" using pow2_less [of e 0] by (simp add: pow2_def)
    moreover have "(of_int m :: rat) \<le> of_int (2 ^ 53)" using m(2) by (simp only: of_int_le_iff)
    ultimately have "q < pow2 53"
      unfolding q using m(1) pow2_pos [of e]
      by (intro order.strict_trans1 [OF mult_right_mono [of "of_int m" "of_int (2 ^ 53)" "pow2 e"]])
        (auto simp: pow2_nat mult_less_cancel_left2)
    with assms(2) show False by simp
  qed
  then have "q = of_int (m * 2 ^ nat e)" by (simp add: q pow2_nat)
  then have "q = of_nat (nat (m * 2 ^ nat e))" using m(1) by simp
  then show ?thesis by blast
qed

lemma scaled_bound:
  assumes "representable q" and "0 \<le> q" and "q < pow2 1024"
  shows "rnd (of_nat (scaled p q) / 10 ^ p) < pow2 1024"
proof (cases "pow2 53 \<le> q")
  case True
  from representable_big_int [OF assms(1) True] obtain n where "q = of_nat n" by blast
  with assms show ?thesis by (simp add: scaled_int rnd_representable)
next
  case False
  have "rhe (q * 10 ^ p) \<le> 2 ^ 53 * 10 ^ p"
  proof (rule rhe_le_of_int)
    have "q \<le> of_int (2 ^ 53)" using False by (simp add: pow2_nat)
    then have "q * 10 ^ p \<le> of_int (2 ^ 53) * 10 ^ p" by (rule mult_right_mono) simp
    then show "q * 10 ^ p \<le> of_int (2 ^ 53 * 10 ^ p)" by simp
  qed
  then have "(of_int (rhe (q * 10 ^ p)) :: rat) \<le> of_int (2 ^ 53 * 10 ^ p)"
    by (simp only: of_int_le_iff)
  then have "of_nat (scaled p q) / 10 ^ p \<le> pow2 53"
    using assms(2) by (simp add: scaled_def rhe_nonneg pow2_nat divide_le_eq)
  then have "rnd (of_nat (scaled p q) / 10 ^ p) \<le> rnd (pow2 53)" by (rule rnd_mono)
  also have "\<dots> = pow2 53" by (intro rnd_representable representable_pow2) simp
  also have "\<dots> < pow2 1024" by simp
  finally show ?thesis .
qed

lemma FormatFixed_numeral:
  "FormatFixed p (Fin s q) = numeral_text s (dec (scaled p q div 10 ^ p))
     (if p = 0 then None else Some (decw p (scaled p q mod 10 ^ p)))"
  by (simp add: FormatFixed_def numeral_text_def frac_part_def)

lemma digits_val_fixed: "digits_val (dec (n div 10 ^ p) @ decw p (n mod 10 ^ p)) = n"
  by (simp add: digits_val_append div_mult_mod_eq)

text \<open>Printing with \<open>p\<close> decimals and reading back gives the float nearest the printed decimal.\<close>

lemma ParseFloat_FormatFixed:
  assumes "f64_ok (Fin s q)"
  shows "ParseFloat (FormatFixed p (Fin s q)) = Some (Fin s (rnd (of_nat (scaled p q) / 10 ^ p)))"
proof -
  let ?fs = "if p = 0 then None else Some (decw p (scaled p q mod 10 ^ p))"
  have "frac_digits ?fs = decw p (scaled p q mod 10 ^ p)" by (simp add: frac_digits_def)
  then show ?thesis
    using assms scaled_bound [of q p] unfolding FormatFixed_numeral
    by (intro ParseFloat_numeral) (auto simp: digits_val_fixed f64_ok_def)
qed

text \<open>A short numeral without a point is read exactly.\<close>

lemma ParseFloat_digits:
  assumes "digits ds" and "ds \<noteq> []" and "digits_val ds \<le> 2 ^ 53"
  shows "ParseFloat ds = Some (f64_of_int (int (digits_val ds)))"
proof -
  have n: "f64_of_int (int (digits_val ds)) = Fin False (of_nat (digits_val ds))"
    using assms(3) f64_of_nat_small [of "int (digits_val ds)"] by simp
  have r: "rnd (of_nat (digits_val ds)) = of_nat (digits_val ds)"
    using assms(3) rnd_int [of "int (digits_val ds)"] by simp
  have "rnd (of_nat (digits_val ds)) < pow2 1024"
    using n by (auto simp: f64_of_int_def mk_def split: if_splits)
  then have "ParseFloat (numeral_text False ds None) = Some (Fin False (rnd (of_nat (digits_val ds))))"
    using assms by (intro ParseFloat_numeral) (auto simp: frac_digits_def digits_def)
  then show ?thesis by (simp add: n r numeral_text_def)
qed
lemma parse_nan: "ParseFloat ''NaN'' = Some NaN"
  by code_simp

lemma parse_inf: "ParseFloat ''+Inf'' = Some (Inf False)" "ParseFloat ''-Inf'' = Some (Inf True)"
  by code_simp+

end
