(* ===== verification/GoTime.thy ===== *)
theory GoTime
  imports Float64
begin

text \<open>
  The parts of Go's \<^verbatim>\<open>time\<close> package that the program uses. A UTC time is its civil date and
  time of day (\<open>utc\<close>); an instant is the number of nanoseconds since the start of year 1, Go's
  zero time. Durations are 64-bit nanosecond counts, and a difference saturates as
  \<^verbatim>\<open>Time.Sub\<close> does.
\<close>

record utc =
  year :: int
  month :: int
  day :: int
  sec :: int
  nsec :: int

definition leap :: "int \<Rightarrow> bool" where
  "leap y \<longleftrightarrow> y mod 4 = 0 \<and> (y mod 100 \<noteq> 0 \<or> y mod 400 = 0)"

definition days_in :: "int \<Rightarrow> int \<Rightarrow> int" where
  "days_in y m = (if m = 2 then if leap y then 29 else 28
     else if m = 4 \<or> m = 6 \<or> m = 9 \<or> m = 11 then 30 else 31)"

definition days_before_year :: "int \<Rightarrow> int" where
  "days_before_year y = 365 * (y - 1) + (y - 1) div 4 - (y - 1) div 100 + (y - 1) div 400"

definition days_before_month :: "int \<Rightarrow> int \<Rightarrow> int" where
  "days_before_month y m =
     [0, 31, 59, 90, 120, 151, 181, 212, 243, 273, 304, 334] ! nat (m - 1)
       + (if 2 < m \<and> leap y then 1 else 0)"

definition ns_per_sec :: int where
  "ns_per_sec = 1000000000"

definition ns_per_hour :: int where
  "ns_per_hour = 3600000000000"

definition instant :: "utc \<Rightarrow> int" where
  "instant t = ((days_before_year (year t) + days_before_month (year t) (month t) + day t - 1) * 86400
     + sec t) * ns_per_sec + nsec t"

definition wf_utc :: "utc \<Rightarrow> bool" where
  "wf_utc t \<longleftrightarrow> 1 \<le> month t \<and> month t \<le> 12 \<and> 1 \<le> day t \<and> day t \<le> days_in (year t) (month t)
     \<and> 0 \<le> sec t \<and> sec t < 86400 \<and> 0 \<le> nsec t \<and> nsec t < ns_per_sec"

section \<open>Durations\<close>

definition sat64 :: "int \<Rightarrow> int" where
  "sat64 d = max (- (2 ^ 63)) (min (2 ^ 63 - 1) d)"

definition sub_time :: "int \<Rightarrow> int \<Rightarrow> int" where
  "sub_time a b = sat64 (a - b)"

text \<open>Go's integer division truncates towards zero.\<close>

definition tdiv :: "int \<Rightarrow> int \<Rightarrow> int" where
  "tdiv a b = sgn a * sgn b * (\<bar>a\<bar> div \<bar>b\<bar>)"

definition tmod :: "int \<Rightarrow> int \<Rightarrow> int" where
  "tmod a b = a - b * tdiv a b"

definition Hours :: "int \<Rightarrow> f64" where
  "Hours d = fadd (f64_of_int (tdiv d ns_per_hour))
     (fdiv (f64_of_int (tmod d ns_per_hour)) (f64_of_int ns_per_hour))"

section \<open>Months\<close>

definition first_of_month :: "utc \<Rightarrow> utc" where
  "first_of_month t = \<lparr>year = year t, month = month t, day = 1, sec = 0, nsec = 0\<rparr>"

definition first_of_next_month :: "utc \<Rightarrow> utc" where
  "first_of_next_month t =
     (if month t = 12 then \<lparr>year = year t + 1, month = 1, day = 1, sec = 0, nsec = 0\<rparr>
      else \<lparr>year = year t, month = month t + 1, day = 1, sec = 0, nsec = 0\<rparr>)"

lemma month_cases:
  "1 \<le> m \<Longrightarrow> m \<le> 12 \<Longrightarrow> m = 1 \<or> m = 2 \<or> m = 3 \<or> m = 4 \<or> m = 5 \<or> m = 6 \<or> m = 7 \<or> m = 8
     \<or> m = 9 \<or> m = 10 \<or> m = 11 \<or> m = (12::int)"
  by presburger

lemma days_before_next_month:
  "1 \<le> m \<Longrightarrow> m \<le> 11 \<Longrightarrow> days_before_month y (m + 1) = days_before_month y m + days_in y m"
  using month_cases [of m] by (auto simp: days_before_month_def days_in_def)

lemma div_pred:
  assumes "0 < (k :: int)"
  shows "y div k = (y - 1) div k + (if y mod k = 0 then 1 else 0)"
proof (cases "y mod k = 0")
  case True
  have "y - 1 = k * (y div k - 1) + (k - 1)"
    using div_mult_mod_eq [of y k] True by (simp add: algebra_simps)
  then have "(y - 1) div k = y div k - 1" using assms by (intro int_div_pos_eq [where r = "k - 1"]) auto
  with True show ?thesis by simp
next
  case False
  have "y - 1 = k * (y div k) + (y mod k - 1)"
    using div_mult_mod_eq [of y k] by (simp add: algebra_simps)
  then have "(y - 1) div k = y div k"
  proof (rule int_div_pos_eq [where r = "y mod k - 1"])
    show "0 \<le> y mod k - 1" using pos_mod_sign [OF assms, of y] False by linarith
    show "y mod k - 1 < k" using pos_mod_bound [OF assms, of y] by linarith
  qed
  with False show ?thesis by simp
qed

lemma leap_count:
  assumes "a = a' + (if P then 1 else 0)" and "b = b' + (if Q then 1 else 0)"
    and "c = c' + (if R then 1 else 0)" and "Q \<Longrightarrow> P" and "R \<Longrightarrow> Q"
  shows "a - b + c = a' - b' + c' + (if P \<and> (\<not> Q \<or> R) then 1 else (0 :: int))"
  using assms by (cases P; cases Q; cases R) simp_all

lemma leap_year_days: "days_before_year (y + 1) = days_before_year y + (if leap y then 366 else 365)"
proof -
  have d4: "4 dvd y" if "100 dvd y" using that by (rule dvd_trans [rotated]) simp
  have d100: "100 dvd y" if "400 dvd y" using that by (rule dvd_trans [rotated]) simp
  have "y div 4 - y div 100 + y div 400 = (y - 1) div 4 - (y - 1) div 100 + (y - 1) div 400
      + (if y mod 4 = 0 \<and> (\<not> y mod 100 = 0 \<or> y mod 400 = 0) then 1 else 0)"
    by (rule leap_count; (rule div_pred)?) (simp_all add: mod_eq_0_iff_dvd d4 d100)
  then have "y div 4 - y div 100 + y div 400 = (y - 1) div 4 - (y - 1) div 100 + (y - 1) div 400
      + (if leap y then 1 else 0)" by (simp only: leap_def)
  moreover have "days_before_year (y + 1) = 365 * y + (y div 4 - y div 100 + y div 400)"
    by (simp add: days_before_year_def)
  moreover have "days_before_year y = 365 * y - 365 + ((y - 1) div 4 - (y - 1) div 100 + (y - 1) div 400)"
    by (simp add: days_before_year_def)
  moreover have "(if leap y then 366 else 365) = 365 + (if leap y then 1 else (0 :: int))" by simp
  ultimately show ?thesis by linarith
qed

lemma instant_next_month:
  assumes "1 \<le> month t" and "month t \<le> 12"
  shows "instant (first_of_next_month t) =
    instant (first_of_month t) + days_in (year t) (month t) * 86400 * ns_per_sec"
proof (cases "month t = 12")
  case True
  have "days_before_year (year t + 1) = days_before_year (year t) + days_before_month (year t) 12 + 31"
    by (simp add: leap_year_days days_before_month_def)
  then show ?thesis using True
    by (simp add: instant_def first_of_next_month_def first_of_month_def days_in_def
        days_before_month_def ns_per_sec_def algebra_simps)
next
  case False
  with assms have "days_before_month (year t) (month t + 1)
      = days_before_month (year t) (month t) + days_in (year t) (month t)"
    by (intro days_before_next_month) auto
  with False show ?thesis
    by (simp only: instant_def first_of_next_month_def first_of_month_def utc.simps if_False)
      (simp add: algebra_simps)
qed

lemma instant_in_month:
  "instant t - instant (first_of_month t) = ((day t - 1) * 86400 + sec t) * ns_per_sec + nsec t"
  by (simp add: instant_def first_of_month_def ns_per_sec_def algebra_simps)

lemma month_bracket:
  assumes "wf_utc t"
  shows "instant (first_of_month t) \<le> instant t" and "instant t < instant (first_of_next_month t)"
proof -
  from assms have w: "1 \<le> month t" "month t \<le> 12" "1 \<le> day t" "day t \<le> days_in (year t) (month t)"
    "0 \<le> sec t" "sec t < 86400" "0 \<le> nsec t" "nsec t < ns_per_sec"
    by (simp_all add: wf_utc_def)
  show "instant (first_of_month t) \<le> instant t"
    using instant_in_month [of t] w by (simp add: ns_per_sec_def)
  have "((day t - 1) * 86400 + sec t) * ns_per_sec + nsec t
      < days_in (year t) (month t) * 86400 * ns_per_sec"
    using w by (simp add: ns_per_sec_def)
  then show "instant t < instant (first_of_next_month t)"
    using instant_in_month [of t] instant_next_month [OF w(1,2)] by simp
qed

lemma wf_first_of_next_month: "wf_utc t \<Longrightarrow> wf_utc (first_of_next_month t)"
  by (auto simp: wf_utc_def first_of_next_month_def days_in_def ns_per_sec_def)

section \<open>Text\<close>

definition pad2 :: "int \<Rightarrow> string" where
  "pad2 n = decw 2 (nat n)"

definition pad_year :: "int \<Rightarrow> string" where
  "pad_year y = (if 0 \<le> y \<and> y < 10000 then decw 4 (nat y) else FormatInt y)"

definition date_text :: "utc \<Rightarrow> string" where
  "date_text t = pad_year (year t) @ ''-'' @ pad2 (month t) @ ''-'' @ pad2 (day t)"

definition FormatRFC3339 :: "utc \<Rightarrow> string" where
  "FormatRFC3339 t = date_text t @ ''T'' @ pad2 (sec t div 3600) @ '':'' @ pad2 (sec t div 60 mod 60)
     @ '':'' @ pad2 (sec t mod 60) @ ''Z''"

text \<open>The layout \<^verbatim>\<open>2006-01-02 15:04\<close>.\<close>

definition FormatMinutes :: "utc \<Rightarrow> string" where
  "FormatMinutes t = date_text t @ '' '' @ pad2 (sec t div 3600) @ '':'' @ pad2 (sec t div 60 mod 60)"

text \<open>\<^verbatim>\<open>Time.IsZero\<close>.\<close>

definition IsZero :: "utc \<Rightarrow> bool" where
  "IsZero t \<longleftrightarrow> instant t = 0"

subsection \<open>\<^verbatim>\<open>time.Parse(time.RFC3339, s)\<close>\<close>

text \<open>Fixed-width and one-or-two digit fields, as \<^verbatim>\<open>getnum\<close> reads them.\<close>

definition num2 :: "string \<Rightarrow> (int \<times> string) option" where
  "num2 s = (case s of a # b # r \<Rightarrow>
       if is_digit a \<and> is_digit b then Some (int (digits_val [a, b]), r) else None
   | _ \<Rightarrow> None)"

definition num12 :: "string \<Rightarrow> (int \<times> string) option" where
  "num12 s = (case s of [] \<Rightarrow> None | a # r \<Rightarrow>
     if \<not> is_digit a then None
     else case r of b # r' \<Rightarrow> if is_digit b then Some (int (digits_val [a, b]), r')
                             else Some (int (digit_val a), r)
          | [] \<Rightarrow> Some (int (digit_val a), []))"

definition num4 :: "string \<Rightarrow> (int \<times> string) option" where
  "num4 s = (if 4 \<le> length s \<and> list_all is_digit (take 4 s)
     then Some (int (digits_val (take 4 s)), drop 4 s) else None)"

definition lit :: "char \<Rightarrow> string \<Rightarrow> string option" where
  "lit c s = (case s of [] \<Rightarrow> None | d # r \<Rightarrow> if d = c then Some r else None)"

text \<open>At most nine digits of a fraction count; the rest is dropped.\<close>

definition parse_frac :: "string \<Rightarrow> int \<times> string" where
  "parse_frac s = (case s of c # d # r \<Rightarrow>
       if (c = CHR ''.'' \<or> c = CHR '','') \<and> is_digit d
       then let ds = takeWhile is_digit (d # r); k = take 9 ds
            in (int (digits_val k * 10 ^ (9 - length k)), dropWhile is_digit (d # r))
       else (0, s)
   | _ \<Rightarrow> (0, s))"

definition parse_zone :: "string \<Rightarrow> int option" where
  "parse_zone s = (if s = ''Z'' then Some 0 else case s of [] \<Rightarrow> None | c # r \<Rightarrow>
     if c \<noteq> CHR ''+'' \<and> c \<noteq> CHR ''-'' then None
     else Option.bind (num2 r) (\<lambda>(h, r1).
          Option.bind (lit CHR '':'' r1) (\<lambda>r2.
          Option.bind (num2 r2) (\<lambda>(m, r3).
          if r3 \<noteq> [] \<or> 24 < h \<or> 60 < m then None
          else Some ((if c = CHR ''-'' then - 1 else 1) * (h * 60 + m) * 60)))))"

definition ParseRFC3339 :: "string \<Rightarrow> int option" where
  "ParseRFC3339 s =
     Option.bind (num4 s) (\<lambda>(y, s1). Option.bind (lit CHR ''-'' s1) (\<lambda>s2.
     Option.bind (num2 s2) (\<lambda>(mo, s3). Option.bind (lit CHR ''-'' s3) (\<lambda>s4.
     Option.bind (num2 s4) (\<lambda>(d, s5). Option.bind (lit CHR ''T'' s5) (\<lambda>s6.
     Option.bind (num12 s6) (\<lambda>(h, s7). Option.bind (lit CHR '':'' s7) (\<lambda>s8.
     Option.bind (num2 s8) (\<lambda>(mi, s9). Option.bind (lit CHR '':'' s9) (\<lambda>s10.
     Option.bind (num2 s10) (\<lambda>(se, s11). case parse_frac s11 of (ns, s12) \<Rightarrow>
     Option.bind (parse_zone s12) (\<lambda>off.
       if mo < 1 \<or> 12 < mo \<or> d < 1 \<or> days_in y mo < d \<or> 24 \<le> h \<or> 60 \<le> mi \<or> 60 \<le> se then None
       else Some (instant \<lparr>year = y, month = mo, day = d, sec = h * 3600 + mi * 60 + se, nsec = ns\<rparr>
              - off * ns_per_sec)))))))))))))"

section \<open>Printing and reading back\<close>

lemma list2_iff: "length s = 2 \<longleftrightarrow> (\<exists>a b. s = [a, b])"
  by (auto simp: length_Suc_conv numeral_2_eq_2)

lemma num2_pad2:
  assumes "0 \<le> n" and "n < 100"
  shows "num2 (pad2 n @ r) = Some (n, r)"
proof -
  obtain a b where ab: "decw 2 (nat n) = [a, b]"
    using length_decw [of 2 "nat n"] unfolding list2_iff by blast
  have "is_digit a" "is_digit b"
    using decw_digits [of _ 2 "nat n"] by (simp_all add: ab)
  moreover have "digits_val [a, b] = nat n"
    using digits_val_decw [of 2 "nat n"] assms by (simp add: ab)
  ultimately show ?thesis using assms by (simp add: num2_def pad2_def ab)
qed

lemma num12_pad2:
  assumes "0 \<le> n" and "n < 100"
  shows "num12 (pad2 n @ r) = Some (n, r)"
proof -
  from num2_pad2 [OF assms, of r] show ?thesis
    by (cases "pad2 n @ r"; cases "tl (pad2 n @ r)") (auto simp: num2_def num12_def split: if_splits)
qed

lemma num4_pad_year: "0 \<le> y \<Longrightarrow> y < 10000 \<Longrightarrow> num4 (pad_year y @ r) = Some (y, r)"
  by (auto simp: num4_def pad_year_def list_all_iff decw_digits dest: decw_digits)

lemma lit_Cons [simp]: "lit c (c # s) = Some s"
  by (simp add: lit_def)

lemma parse_frac_Z [simp]: "parse_frac ''Z'' = (0, ''Z'')"
  by (simp add: parse_frac_def)

lemma parse_zone_Z [simp]: "parse_zone ''Z'' = Some 0"
  by (simp add: parse_zone_def)

lemma hms_split: "s div 3600 * 3600 + s div 60 mod 60 * 60 + s mod 60 = (s :: int)"
proof -
  have "s div 3600 = s div 60 div 60" using zdiv_zmult2_eq [of 60 s 60] by simp
  moreover have "s div 60 div 60 * 60 + s div 60 mod 60 = s div 60" "s div 60 * 60 + s mod 60 = s"
    by (rule div_mult_mod_eq)+
  ultimately show ?thesis by linarith
qed

lemma ParseRFC3339_FormatRFC3339:
  assumes "wf_utc t" and "0 \<le> year t" and "year t < 10000"
  shows "ParseRFC3339 (FormatRFC3339 t) = Some (instant t - nsec t)"
proof -
  have w: "1 \<le> month t" "month t \<le> 12" "1 \<le> day t" "day t \<le> days_in (year t) (month t)"
    "0 \<le> sec t" "sec t < 86400"
    using assms(1) by (simp_all add: wf_utc_def)
  moreover have "days_in (year t) (month t) \<le> 31" by (simp add: days_in_def)
  moreover define h where "h = sec t div 3600"
  moreover define mi where "mi = sec t div 60 mod 60"
  moreover define se where "se = sec t mod 60"
  moreover have "h * 3600 + mi * 60 + se = sec t" unfolding h_def mi_def se_def by (rule hms_split)
  moreover have "0 \<le> h" "h < 24" "0 \<le> mi" "mi < 60" "0 \<le> se" "se < 60"
    using w unfolding h_def mi_def se_def by simp_all
  ultimately show ?thesis using assms(2,3)
    by (simp add: ParseRFC3339_def FormatRFC3339_def date_text_def num4_pad_year num2_pad2
        num12_pad2 instant_def flip: h_def mi_def se_def)
qed

lemma Hours_int:
  assumes "0 \<le> h" and "h \<le> 2 ^ 20"
  shows "Hours (h * ns_per_hour) = Fin False (of_int h)"
proof -
  have "tdiv (h * ns_per_hour) ns_per_hour = h"
    using assms(1) by (simp add: tdiv_def ns_per_hour_def sgn_mult abs_mult) (simp add: sgn_if)
  then show ?thesis
    using assms by (simp add: Hours_def tmod_def f64_of_nat_small ns_per_hour_def mk_zero)
      (cases "h = 0"; simp add: mk_int)
qed

end
