(* ===== verification/QuotaPhase.thy ===== *)
theory QuotaPhase
  imports Float64 GoTime
begin

text \<open>
  The TeamInferenceQuota API types (\<^verbatim>\<open>operator/api/v1alpha1\<close>) and the phase computation of
  \<^verbatim>\<open>operator/internal/controller/phase.go\<close>.

  A quota phase is one of the four values of the CRD's enum or the empty string of a status
  never written; phases are ordered by severity. The lemmas say which inputs give which phase,
  that the phase grows with usage and shrinks with the limits, and how the remaining
  percentages shown to users agree with the phase.
\<close>

section \<open>API types\<close>

datatype quota_phase =
  PhaseUnset | QuotaPhaseUnknown | QuotaPhaseActive | QuotaPhaseWarning | QuotaPhaseExceeded

datatype enforcement_mode = ModeUnset | EnforcementModeEnforce | EnforcementModeAudit

definition phase_text :: "quota_phase \<Rightarrow> string" where
  "phase_text p = (case p of PhaseUnset \<Rightarrow> '''' | QuotaPhaseUnknown \<Rightarrow> ''Unknown''
     | QuotaPhaseActive \<Rightarrow> ''Active'' | QuotaPhaseWarning \<Rightarrow> ''Warning''
     | QuotaPhaseExceeded \<Rightarrow> ''Exceeded'')"

definition severity :: "quota_phase \<Rightarrow> nat" where
  "severity p = (case p of PhaseUnset \<Rightarrow> 0 | QuotaPhaseUnknown \<Rightarrow> 1
     | QuotaPhaseActive \<Rightarrow> 2 | QuotaPhaseWarning \<Rightarrow> 3 | QuotaPhaseExceeded \<Rightarrow> 4)"

lemma severity_inj: "severity p = severity q \<Longrightarrow> p = q"
  by (cases p; cases q) (simp_all add: severity_def)

instantiation quota_phase :: linorder
begin

definition less_eq_quota_phase :: "quota_phase \<Rightarrow> quota_phase \<Rightarrow> bool" where
  "less_eq_quota_phase p q \<longleftrightarrow> severity p \<le> severity q"

definition less_quota_phase :: "quota_phase \<Rightarrow> quota_phase \<Rightarrow> bool" where
  "less_quota_phase p q \<longleftrightarrow> severity p < severity q"

instance
  by standard (auto simp: less_eq_quota_phase_def less_quota_phase_def intro: severity_inj)

end

record quota_spec =
  dailyTokenBudget :: int
  monthlyCostLimitUSD :: string
  alertThresholdPct :: "int option"
  enforcementMode :: enforcement_mode

datatype condition_status = ConditionTrue | ConditionFalse | ConditionUnknown

record condition =
  cond_type :: string
  cond_status :: condition_status
  cond_reason :: string
  cond_message :: string
  cond_lastTransitionTime :: utc
  cond_observedGeneration :: int

record quota_status =
  phase :: quota_phase
  tokensUsedToday :: int
  costUsedThisMonth :: string
  tokenBudgetRemainingPct :: int
  costBudgetRemainingPct :: int
  lastEvaluationTime :: "utc option"
  nextResetTime :: "utc option"
  conditions :: "condition list"

record quota =
  q_namespace :: string
  q_name :: string
  q_generation :: int
  spec :: quota_spec
  status :: quota_status

section \<open>Phase\<close>

record phase_inputs =
  PrometheusError :: bool
  TokensUsed :: f64
  CostUsedUSD :: f64
  DailyTokenLimit :: int
  MonthlyLimitUSD :: f64
  AlertThreshold :: int

definition effectiveAlertThreshold :: "int option \<Rightarrow> int" where
  "effectiveAlertThreshold pct = (case pct of None \<Rightarrow> 80
     | Some p \<Rightarrow> if p < 1 \<or> 100 < p then 80 else p)"

definition token_exceeded :: "phase_inputs \<Rightarrow> bool" where
  "token_exceeded i =
     (if DailyTokenLimit i < 0 then False
      else if DailyTokenLimit i = 0 then flt fzero (TokensUsed i)
      else fle (f64_of_int (DailyTokenLimit i)) (TokensUsed i))"

definition cost_exceeded :: "phase_inputs \<Rightarrow> bool" where
  "cost_exceeded i = (flt fzero (MonthlyLimitUSD i) \<and> fle (MonthlyLimitUSD i) (CostUsedUSD i))"

text \<open>The percentage expression \<^verbatim>\<open>100.0 * used / limit\<close> of the code.\<close>

definition used_pct :: "f64 \<Rightarrow> f64 \<Rightarrow> f64" where
  "used_pct used limit = fdiv (fmul (f64_of_int 100) used) limit"

definition tok_util :: "phase_inputs \<Rightarrow> f64" where
  "tok_util i = (if 0 < DailyTokenLimit i
     then used_pct (TokensUsed i) (f64_of_int (DailyTokenLimit i)) else fzero)"

definition cost_util :: "phase_inputs \<Rightarrow> f64" where
  "cost_util i = (if flt fzero (MonthlyLimitUSD i)
     then used_pct (CostUsedUSD i) (MonthlyLimitUSD i) else fzero)"

definition clamp_threshold :: "int \<Rightarrow> int" where
  "clamp_threshold th = (if th < 1 \<or> 100 < th then 80 else th)"

definition computePhase :: "phase_inputs \<Rightarrow> quota_phase" where
  "computePhase i =
     (if PrometheusError i then QuotaPhaseUnknown
      else if token_exceeded i \<or> cost_exceeded i then QuotaPhaseExceeded
      else let th = f64_of_int (clamp_threshold (AlertThreshold i)) in
        if fle th (tok_util i) \<or> fle th (cost_util i) then QuotaPhaseWarning
        else QuotaPhaseActive)"

section \<open>Remaining percentages\<close>

definition clampInt32Round :: "(f64 \<Rightarrow> int) \<Rightarrow> f64 \<Rightarrow> int" where
  "clampInt32Round oor v = (let r = fround v in
     if flt r fzero then 0 else if flt (f64_of_int 100) r then 100 else f64_to_i32 oor r)"

text \<open>Both remaining-percentage functions clamp the used percentage to 0 and 100 first.\<close>

definition clamp_pct :: "f64 \<Rightarrow> f64" where
  "clamp_pct p = (let p1 = (if flt p fzero then fzero else p)
     in if flt (f64_of_int 100) p1 then f64_of_int 100 else p1)"

definition tokenBudgetRemainingPct_of :: "(f64 \<Rightarrow> int) \<Rightarrow> f64 \<Rightarrow> int \<Rightarrow> int" where
  "tokenBudgetRemainingPct_of oor tokensUsed dailyLimit =
     (if dailyLimit \<le> 0 then 0
      else clampInt32Round oor
        (fsub (f64_of_int 100) (clamp_pct (used_pct tokensUsed (f64_of_int dailyLimit)))))"

definition costBudgetRemainingPct_of :: "(f64 \<Rightarrow> int) \<Rightarrow> f64 \<Rightarrow> f64 \<Rightarrow> int" where
  "costBudgetRemainingPct_of oor costUsed monthlyLimit =
     (if fle monthlyLimit fzero then 0
      else clampInt32Round oor
        (fsub (f64_of_int 100) (clamp_pct (used_pct costUsed monthlyLimit))))"

section \<open>Facts about usage percentages\<close>

lemma f64_hundred: "f64_of_int 100 = Fin False 100"
  by (simp add: f64_simps)

text \<open>A usage figure: a machine value that is not negative and not NaN.\<close>

definition usage :: "f64 \<Rightarrow> bool" where
  "usage x \<longleftrightarrow> f64_ok x \<and> fle fzero x"

lemma usage_cases:
  assumes "usage x"
  obtains (inf) "x = Inf False"
    | (pos) q where "x = Fin False q" "0 \<le> q" "representable q" "q < pow2 1024"
    | (negzero) "x = Fin True 0"
  using assms by (cases x) (auto simp: usage_def fzero_def f64_ok_def split: if_splits bool.splits)

lemma positive_cases:
  assumes "flt fzero l" and "f64_ok l" and "l \<noteq> Inf False"
  obtains r where "l = Fin False r" "0 < r" "representable r" "r < pow2 1024"
  using assms by (cases l) (auto simp: fzero_def f64_ok_def split: if_splits)

lemma used_pct_not_NaN:
  assumes "usage u" and "flt fzero l" and "l \<noteq> Inf False" and "f64_ok l"
  shows "used_pct u l \<noteq> NaN \<and> fle fzero (used_pct u l)"
proof -
  from positive_cases [OF assms(2,4,3)] obtain r where l: "l = Fin False r" "0 < r" by metis
  from assms(1) show ?thesis
    by (cases rule: usage_cases)
      (use l in \<open>auto simp: used_pct_def f64_hundred fzero_def mk_def divide_nonneg_pos\<close>)
qed

lemma fle_Fin_pos [simp]: "fle (Fin False p) (Fin False q) \<longleftrightarrow> p \<le> q"
  by simp

lemma used_pct_Fin:
  assumes "0 \<le> q" and "0 < l"
  shows "used_pct (Fin False q) (Fin False l) =
    (if rnd (100 * q) < pow2 1024 then mk False (rnd (100 * q) / l) else Inf False)"
  using assms by (simp add: used_pct_def f64_hundred mk_def)

text \<open>More usage never lowers the percentage, a larger limit never raises it.\<close>

lemma used_pct_mono:
  assumes "0 \<le> p" and "p \<le> q" and "0 < l"
  shows "fle (used_pct (Fin False p) (Fin False l)) (used_pct (Fin False q) (Fin False l))"
proof -
  have "rnd (100 * p) \<le> rnd (100 * q)" using assms(2) by (intro rnd_mono) simp
  moreover from this have "fle (mk False (rnd (100 * p) / l)) (mk False (rnd (100 * q) / l))"
    using assms(3) by (intro mk_mono divide_right_mono) simp_all
  moreover have "fle (mk False (rnd (100 * p) / l)) (Inf False)" by (simp add: mk_def)
  ultimately show ?thesis using assms by (simp add: used_pct_Fin)
qed

lemma used_pct_antimono:
  assumes "0 \<le> p" and "0 < l" and "l \<le> m"
  shows "fle (used_pct (Fin False p) (Fin False m)) (used_pct (Fin False p) (Fin False l))"
proof -
  have "fle (mk False (rnd (100 * p) / m)) (mk False (rnd (100 * p) / l))"
    using assms by (intro mk_mono divide_left_mono) simp_all
  then show ?thesis using assms by (simp add: used_pct_Fin)
qed

text \<open>At or over the limit the percentage is at least 99.75, rounding errors included.\<close>

lemma used_pct_reached:
  assumes "0 < l" and "l \<le> q" and "representable q"
  shows "fle (Fin False (399 / 4)) (used_pct (Fin False q) (Fin False l))"
  using assms f64r.percent_reached [of l q] by (simp add: used_pct_Fin mk_def)

lemma clamp_threshold_range: "1 \<le> clamp_threshold th \<and> clamp_threshold th \<le> 100"
  by (simp add: clamp_threshold_def)

lemma threshold_float: "f64_of_int (clamp_threshold th) = Fin False (of_int (clamp_threshold th))"
  using clamp_threshold_range [of th] by (intro f64_of_nat_small) auto

lemma effective_clamped [simp]: "clamp_threshold (effectiveAlertThreshold p) = effectiveAlertThreshold p"
  by (auto simp: clamp_threshold_def effectiveAlertThreshold_def split: option.splits)

lemma clamp_pct_Fin:
  "0 \<le> q \<Longrightarrow> clamp_pct (Fin False q) = Fin False (min q 100)"
  by (auto simp: clamp_pct_def Let_def f64_hundred fzero_def min_def)

lemma clampInt32Round_Fin:
  assumes "0 \<le> q" and "q \<le> 100"
  shows "clampInt32Round oor (Fin False q) = \<lfloor>q + 1 / 2\<rfloor>"
proof -
  define k where "k = \<lfloor>q + 1 / 2\<rfloor>"
  have "0 \<le> k" "k \<le> 100" using assms unfolding k_def by linarith+
  moreover have "fround (Fin False q) = Fin False (of_int k)" by (simp add: k_def)
  ultimately show ?thesis
    by (simp add: clampInt32Round_def Let_def fzero_def f64_hundred f64_to_i32_int flip: k_def)
qed

lemma fsub_hundred:
  assumes "0 \<le> q" and "q \<le> 100"
  shows "fsub (f64_of_int 100) (Fin False q) = Fin False (rnd (100 - q))"
proof -
  have "rnd (100 - q) \<le> 100"
    using assms(1) by (intro f64r.le_bound) (use representable_int [of 100] in simp_all)
  also have "100 < pow2 1024" using pow2_less [of 7 1024] by (simp add: pow2_nat)
  finally show ?thesis using assms by (auto simp: fsub_def f64_hundred mk_def Let_def)
qed

lemma clamp_pct_cases:
  assumes "p \<noteq> NaN" and "f64_ok p"
  obtains q where "clamp_pct p = Fin False q" "0 \<le> q" "q \<le> 100" | "clamp_pct p = Fin True 0"
proof (cases p)
  case NaN
  with assms show ?thesis by simp
next
  case (Inf s)
  then show ?thesis
    by (cases s) (auto simp: clamp_pct_def Let_def f64_hundred fzero_def intro: that(1))
next
  case (Fin s v)
  show ?thesis
  proof (cases "fval p < 0 \<or> 100 < fval p")
    case True
    with Fin show ?thesis
      by (intro that(1) [of "if fval p < 0 then 0 else 100"])
        (auto simp: clamp_pct_def Let_def f64_hundred fzero_def)
  next
    case False
    with Fin have "clamp_pct p = p" by (auto simp: clamp_pct_def Let_def f64_hundred fzero_def)
    moreover have "s \<Longrightarrow> v = 0" using False Fin assms(2) by (auto simp: f64_ok_def)
    ultimately show ?thesis using False Fin by (cases s) (auto intro: that)
  qed
qed

lemma remaining_range:
  assumes "p \<noteq> NaN" and "f64_ok p"
  shows "0 \<le> clampInt32Round oor (fsub (f64_of_int 100) (clamp_pct p))
    \<and> clampInt32Round oor (fsub (f64_of_int 100) (clamp_pct p)) \<le> 100"
  using assms
proof (cases rule: clamp_pct_cases)
  case (1 q)
  moreover have "0 \<le> rnd (100 - q)" "rnd (100 - q) \<le> 100"
    using 1 f64r.le_bound [of "100 - q" 100] representable_int [of 100] by simp_all
  ultimately show ?thesis by (simp add: fsub_hundred clampInt32Round_Fin le_floor_iff floor_le_iff)
next
  case 2
  have "fsub (f64_of_int 100) (Fin True 0) = Fin False 100"
    by (simp add: fsub_def f64_hundred mk_numeral)
  then show ?thesis by (simp add: 2 clampInt32Round_Fin)
qed


section \<open>Facts about the phase\<close>

lemma fle_th_used_pct_Inf_limit:
  assumes "usage u" and "1 \<le> th"
  shows "\<not> fle (Fin False th) (used_pct u (Inf False))"
  using assms(1) by (cases rule: usage_cases)
    (use assms(2) in \<open>auto simp: used_pct_def f64_hundred mk_def\<close>)

text \<open>A usage value counts through its magnitude: zero has two signs, infinity exceeds all.\<close>

lemma used_pct_negzero:
  assumes "0 < l"
  shows "fval (used_pct (Fin True 0) (Fin False l)) = 0" and "used_pct (Fin True 0) (Fin False l) = Fin True 0"
  using assms by (simp_all add: used_pct_def f64_hundred mk_zero)

lemma used_pct_Inf: "0 < l \<Longrightarrow> used_pct (Inf False) (Fin False l) = Inf False"
  by (simp add: used_pct_def f64_hundred)

lemma warn_mono:
  assumes u: "usage u" "usage u'" "fle u u'" and l: "flt fzero l" "f64_ok l" and th: "1 \<le> th"
    and w: "fle (Fin False th) (used_pct u l)"
  shows "fle (Fin False th) (used_pct u' l)"
proof -
  have "l \<noteq> Inf False" using fle_th_used_pct_Inf_limit [OF u(1) th] w by auto
  from positive_cases [OF l this] obtain r where r: "l = Fin False r" "0 < r" by metis
  from u(1) show ?thesis
  proof (cases rule: usage_cases)
    case inf
    with u(3) have "u' = u" using u(2) by (cases u') (auto simp: usage_def)
    with w show ?thesis by simp
  next
    case (pos q)
    from u(2) show ?thesis
    proof (cases rule: usage_cases)
      case inf
      with r th show ?thesis by (simp add: used_pct_Inf)
    next
      case pos': (pos q')
      with pos u(3) have "q \<le> q'" by simp
      with pos pos' r w show ?thesis using used_pct_mono [of q q' r] fle_trans by blast
    next
      case negzero
      with pos u(3) have "q = 0" by simp
      with pos r w th show ?thesis by (simp add: used_pct_def f64_hundred mk_zero)
    qed
  next
    case negzero
    with r w th show ?thesis by (simp add: used_pct_negzero)
  qed
qed

lemma warn_antimono:
  assumes u: "usage u" and l: "flt fzero l" "f64_ok l" "fle l m" "f64_ok m" and th: "1 \<le> th"
    and w: "fle (Fin False th) (used_pct u m)"
  shows "fle (Fin False th) (used_pct u l)"
proof -
  have m: "flt fzero m" by (rule flt_fle_trans [OF l(1,3)])
  have "m \<noteq> Inf False" using fle_th_used_pct_Inf_limit [OF u th] w by auto
  from positive_cases [OF m l(4) this] obtain b where b: "m = Fin False b" "0 < b" by metis
  then have "l \<noteq> Inf False" using l(3) by auto
  from positive_cases [OF l(1,2) this] obtain a where a: "l = Fin False a" "0 < a" by metis
  with b l(3) have ab: "a \<le> b" by simp
  from u show ?thesis
  proof (cases rule: usage_cases)
    case (pos q)
    then show ?thesis using a ab b w used_pct_antimono [of q a b] fle_trans by blast
  qed (use a b w th in \<open>simp_all add: used_pct_Inf used_pct_negzero\<close>)
qed

lemma f64_of_int_mono:
  assumes "0 \<le> a" and "a \<le> b" and "b < 2 ^ 64"
  shows "fle (f64_of_int a) (f64_of_int b)"
  using assms by (simp add: f64_of_int_nonneg rnd_mono)

lemma f64_of_int_pos: "0 < n \<Longrightarrow> n < 2 ^ 64 \<Longrightarrow> flt fzero (f64_of_int n)"
  using rnd_pos_int [of n] by (simp add: f64_of_int_nonneg fzero_def)

text \<open>The float of a machine integer is a whole number.\<close>

lemma rnd_of_int_whole: "\<exists>m. rnd (of_int n) = of_int m"
proof (cases "n \<le> 0")
  case False
  let ?u = "ulpexp (of_int n)"
  show ?thesis
  proof (cases "0 \<le> ?u")
    case True
    then have "rnd (of_int n) = of_int (rhe (of_int n / pow2 ?u) * 2 ^ nat ?u)"
      using False by (simp add: rnd_def pow2_nat)
    then show ?thesis by metis
  next
    case neg: False
    then have "rnd (of_int n) = of_int n" using False by (intro rnd_multiple [of _ n 0]) (simp_all add: pow2_def)
    then show ?thesis by metis
  qed
qed (auto simp: rnd_def intro: exI [of _ 0])

lemma usage_int: "0 \<le> n \<Longrightarrow> n < 2 ^ 64 \<Longrightarrow> usage (f64_of_int n)"
  using f64_of_int_mono [of 0 n] by (simp add: usage_def f64_small fzero_def)

lemma fle_th_zero: "fle (f64_of_int (clamp_threshold th)) fzero = False"
  using clamp_threshold_range [of th] by (simp add: threshold_float fzero_def)

lemma threshold_ge_one: "(1 :: rat) \<le> of_int (clamp_threshold th)"
  using clamp_threshold_range [of th] by simp

lemma tok_util_mono:
  assumes "DailyTokenLimit j = DailyTokenLimit i" and "in_i64 (DailyTokenLimit i)"
    and "usage (TokensUsed i)" and "usage (TokensUsed j)" and "fle (TokensUsed i) (TokensUsed j)"
    and "fle (f64_of_int (clamp_threshold th)) (tok_util i)"
  shows "fle (f64_of_int (clamp_threshold th)) (tok_util j)"
proof (cases "0 < DailyTokenLimit i")
  case True
  then have "flt fzero (f64_of_int (DailyTokenLimit i))"
    using assms(2) by (intro f64_of_int_pos) (auto simp: in_i64_def)
  from warn_mono [OF assms(3-5) this f64_of_int_ok threshold_ge_one, of th] show ?thesis
    using assms(1,6) True by (simp add: tok_util_def threshold_float)
qed (use assms(6) in \<open>simp add: tok_util_def fle_th_zero\<close>)

lemma cost_util_mono:
  assumes "MonthlyLimitUSD j = MonthlyLimitUSD i" and "f64_ok (MonthlyLimitUSD i)"
    and "usage (CostUsedUSD i)" and "usage (CostUsedUSD j)" and "fle (CostUsedUSD i) (CostUsedUSD j)"
    and "fle (f64_of_int (clamp_threshold th)) (cost_util i)"
  shows "fle (f64_of_int (clamp_threshold th)) (cost_util j)"
proof (cases "flt fzero (MonthlyLimitUSD i)")
  case True
  from warn_mono [OF assms(3-5) this assms(2) threshold_ge_one, of th] show ?thesis
    using assms(1,6) True by (simp add: cost_util_def threshold_float)
qed (use assms(6) in \<open>simp add: cost_util_def fle_th_zero\<close>)

lemma tok_util_antimono:
  assumes "0 < DailyTokenLimit j" and "DailyTokenLimit j \<le> DailyTokenLimit i"
    and "in_i64 (DailyTokenLimit i)" and "TokensUsed j = TokensUsed i" and "usage (TokensUsed i)"
    and "fle (f64_of_int (clamp_threshold th)) (tok_util i)"
  shows "fle (f64_of_int (clamp_threshold th)) (tok_util j)"
proof -
  have "flt fzero (f64_of_int (DailyTokenLimit j))"
    and "fle (f64_of_int (DailyTokenLimit j)) (f64_of_int (DailyTokenLimit i))"
    using assms(1-3) by (auto intro!: f64_of_int_pos f64_of_int_mono simp: in_i64_def)
  from warn_antimono [OF assms(5) this(1) f64_of_int_ok this(2) f64_of_int_ok threshold_ge_one, of th]
  show ?thesis using assms by (simp add: tok_util_def threshold_float)
qed

lemma cost_util_antimono:
  assumes "flt fzero (MonthlyLimitUSD j)" and "fle (MonthlyLimitUSD j) (MonthlyLimitUSD i)"
    and "f64_ok (MonthlyLimitUSD i)" and "f64_ok (MonthlyLimitUSD j)"
    and "CostUsedUSD j = CostUsedUSD i" and "usage (CostUsedUSD i)"
    and "fle (f64_of_int (clamp_threshold th)) (cost_util i)"
  shows "fle (f64_of_int (clamp_threshold th)) (cost_util j)"
proof -
  have "flt fzero (MonthlyLimitUSD i)" by (rule flt_fle_trans [OF assms(1,2)])
  then show ?thesis
    using warn_antimono [OF assms(6,1,4,2,3) threshold_ge_one, of th] assms
    by (simp add: cost_util_def threshold_float)
qed

lemma computePhase_le:
  assumes "PrometheusError i = PrometheusError j" and "AlertThreshold i = AlertThreshold j"
    and "token_exceeded i \<Longrightarrow> token_exceeded j" and "cost_exceeded i \<Longrightarrow> cost_exceeded j"
    and "\<And>th. fle (f64_of_int (clamp_threshold th)) (tok_util i)
      \<Longrightarrow> fle (f64_of_int (clamp_threshold th)) (tok_util j)"
    and "\<And>th. fle (f64_of_int (clamp_threshold th)) (cost_util i)
      \<Longrightarrow> fle (f64_of_int (clamp_threshold th)) (cost_util j)"
  shows "computePhase i \<le> computePhase j"
  using assms by (auto simp: computePhase_def Let_def less_eq_quota_phase_def severity_def)

text \<open>C9 Phases are monotone in usage: with the budgets fixed, a scrape that reports more tokens
  and more cost never yields a less severe phase, whatever the rounding of the float64
  percentages does.\<close>

theorem computePhase_mono_usage:
  assumes "usage t" and "usage t'" and "fle t t'" and "usage c" and "usage c'" and "fle c c'"
    and "f64_ok (MonthlyLimitUSD i)" and "in_i64 (DailyTokenLimit i)"
  shows "computePhase (i\<lparr>TokensUsed := t, CostUsedUSD := c\<rparr>)
    \<le> computePhase (i\<lparr>TokensUsed := t', CostUsedUSD := c'\<rparr>)"
proof (rule computePhase_le)
  let ?i = "i\<lparr>TokensUsed := t, CostUsedUSD := c\<rparr>" and ?j = "i\<lparr>TokensUsed := t', CostUsedUSD := c'\<rparr>"
  show "token_exceeded ?i \<Longrightarrow> token_exceeded ?j"
    using assms(3) by (auto simp: token_exceeded_def intro: fle_trans flt_fle_trans split: if_splits)
  show "cost_exceeded ?i \<Longrightarrow> cost_exceeded ?j"
    using assms(6) by (auto simp: cost_exceeded_def intro: fle_trans)
qed (use assms in \<open>auto intro: tok_util_mono [rotated 5] cost_util_mono [rotated 5]\<close>)

theorem computePhase_mono_usage_witness:
  "computePhase \<lparr>PrometheusError = False, TokensUsed = f64_of_int 50, CostUsedUSD = f64_of_int 100,
      DailyTokenLimit = 100, MonthlyLimitUSD = f64_of_int 500, AlertThreshold = 80\<rparr>
   \<le> computePhase \<lparr>PrometheusError = False, TokensUsed = f64_of_int 90, CostUsedUSD = f64_of_int 600,
      DailyTokenLimit = 100, MonthlyLimitUSD = f64_of_int 500, AlertThreshold = 80\<rparr>"
  using computePhase_mono_usage [of "f64_of_int 50" "f64_of_int 90" "f64_of_int 100" "f64_of_int 600"
      "\<lparr>PrometheusError = False, TokensUsed = fzero, CostUsedUSD = fzero,
        DailyTokenLimit = 100, MonthlyLimitUSD = f64_of_int 500, AlertThreshold = 80\<rparr>"]
  by (simp add: usage_int f64_of_int_mono f64_of_int_pos in_i64_def)

text \<open>Raising a budget never makes the phase more severe: with the usage fixed, a larger
  positive token budget and a larger positive cost limit give a phase at most as severe.\<close>

theorem computePhase_antimono_limits:
  assumes "usage (TokensUsed i)" and "usage (CostUsedUSD i)"
    and "0 < L" and "L \<le> L'" and "in_i64 L'"
    and "flt fzero M" and "fle M M'" and "f64_ok M" and "f64_ok M'"
  shows "computePhase (i\<lparr>DailyTokenLimit := L', MonthlyLimitUSD := M'\<rparr>)
    \<le> computePhase (i\<lparr>DailyTokenLimit := L, MonthlyLimitUSD := M\<rparr>)"
proof (rule computePhase_le)
  let ?i = "i\<lparr>DailyTokenLimit := L', MonthlyLimitUSD := M'\<rparr>"
    and ?j = "i\<lparr>DailyTokenLimit := L, MonthlyLimitUSD := M\<rparr>"
  have "fle (f64_of_int L) (f64_of_int L')"
    using assms(3-5) by (intro f64_of_int_mono) (auto simp: in_i64_def)
  then show "token_exceeded ?i \<Longrightarrow> token_exceeded ?j"
    using assms(3,4) by (auto simp: token_exceeded_def intro: fle_trans)
  show "cost_exceeded ?i \<Longrightarrow> cost_exceeded ?j"
    using assms(6,7) by (auto simp: cost_exceeded_def intro: fle_trans)
  show "fle (f64_of_int (clamp_threshold th)) (tok_util ?j)"
    if "fle (f64_of_int (clamp_threshold th)) (tok_util ?i)" for th
    using that assms by (intro tok_util_antimono [of ?j ?i]) auto
  show "fle (f64_of_int (clamp_threshold th)) (cost_util ?j)"
    if "fle (f64_of_int (clamp_threshold th)) (cost_util ?i)" for th
    using that assms by (intro cost_util_antimono [of ?j ?i]) auto
qed simp_all

theorem computePhase_antimono_limits_witness:
  "computePhase \<lparr>PrometheusError = False, TokensUsed = f64_of_int 90, CostUsedUSD = f64_of_int 100,
      DailyTokenLimit = 200, MonthlyLimitUSD = f64_of_int 900, AlertThreshold = 80\<rparr>
   \<le> computePhase \<lparr>PrometheusError = False, TokensUsed = f64_of_int 90, CostUsedUSD = f64_of_int 100,
      DailyTokenLimit = 100, MonthlyLimitUSD = f64_of_int 500, AlertThreshold = 80\<rparr>"
  using computePhase_antimono_limits [of "\<lparr>PrometheusError = False, TokensUsed = f64_of_int 90,
      CostUsedUSD = f64_of_int 100, DailyTokenLimit = 1, MonthlyLimitUSD = fzero, AlertThreshold = 80\<rparr>"
      100 200 "f64_of_int 500" "f64_of_int 900"]
  by (simp add: usage_int f64_of_int_mono f64_of_int_pos in_i64_def)

section \<open>Exact phase of a token budget\<close>

lemma used_pct_int:
  assumes "0 \<le> t" and "t \<le> 2 ^ 46" and "0 < L" and "L \<le> 2 ^ 46"
  shows "used_pct (f64_of_int t) (f64_of_int L) = Fin False (rnd (of_int (100 * t) / of_int L))"
proof -
  have "100 * t \<le> 100 * 2 ^ 46" using assms(2) by simp
  also have "(100 :: int) * 2 ^ 46 \<le> 2 ^ 53" by simp
  finally have small: "100 * t \<le> 2 ^ 53" .
  with assms have exact: "rnd (of_int (100 * t)) = of_int (100 * t)" by (intro rnd_int) auto
  have le: "rnd (of_int (100 * t)) / of_int L \<le> pow2 53"
  proof -
    have "(of_int (100 * t) :: rat) / of_int L \<le> of_int (100 * t) / 1"
      using assms by (intro divide_left_mono) auto
    moreover have "(of_int (100 * t) :: rat) \<le> of_int (2 ^ 53)"
      using small by (simp only: of_int_le_iff)
    ultimately show ?thesis using exact by (simp add: pow2_nat)
  qed
  have "rnd (rnd (of_int (100 * t)) / of_int L) \<le> pow2 53"
    by (rule f64r.le_bound [OF le representable_pow2]) simp
  also have "pow2 53 < pow2 1024" by simp
  finally have "rnd (rnd (of_int (100 * t)) / of_int L) < pow2 1024" .
  moreover have "(of_int (100 * t) :: rat) \<le> of_int (2 ^ 53)" using small by (simp only: of_int_le_iff)
  then have "100 * (of_int t :: rat) < pow2 1024"
    using pow2_less [of 53 1024] by (simp add: pow2_nat del: pow2_less_iff)
  ultimately show ?thesis using assms exact by (simp add: used_pct_def f64_of_nat_small mk_def)
qed

text \<open>Rounding does not move the comparison of a ratio with an integer threshold.\<close>

lemma threshold_exact:
  assumes "1 \<le> k" and "k \<le> 127" and "0 < L" and "L \<le> 2 ^ 46"
  shows "of_int k \<le> rnd (of_int n / of_int L) \<longleftrightarrow> k * L \<le> n"
proof
  assume "k * L \<le> n"
  then have "(of_int (k * L) :: rat) \<le> of_int n" by (simp only: of_int_le_iff)
  then have "(of_int k :: rat) \<le> of_int n / of_int L" using assms(3) by (simp add: field_simps)
  then show "of_int k \<le> rnd (of_int n / of_int L)"
    using assms by (intro f64r.ge_bound representable_int) auto
next
  assume le: "of_int k \<le> rnd (of_int n / of_int L)"
  show "k * L \<le> n"
  proof (rule ccontr)
    assume "\<not> k * L \<le> n"
    then have "n \<le> k * L - 1" by simp
    then have "(of_int n :: rat) \<le> of_int (k * L - 1)" by (simp only: of_int_le_iff)
    then have "of_int n / of_int L \<le> (of_int k :: rat) - 1 / of_int L"
      using assms(3) by (simp add: field_simps)
    also have "\<dots> \<le> of_int k - 1 / of_int (2 ^ 46)"
      using assms(3,4) by (intro diff_left_mono divide_left_mono) (simp_all only: of_int_le_iff, simp_all)
    also have "\<dots> = of_int (k * 2 ^ 46 - 1) * pow2 (- 46)" by (simp add: pow2_def field_simps)
    finally have q: "of_int n / of_int L \<le> of_int (k * 2 ^ 46 - 1) * pow2 (- 46)" .
    from assms(1,2) have "representable (of_int (k * 2 ^ 46 - 1) * pow2 (- 46))"
      unfolding representable_def by (intro exI [of _ "k * 2 ^ 46 - 1"] exI [of _ "- 46"]) auto
    from f64r.le_bound [OF q this] le have "of_int k \<le> of_int (k * 2 ^ 46 - 1) * pow2 (- 46)" by linarith
    then show False by (simp add: pow2_def field_simps)
  qed
qed

text \<open>C10 A token budget is decided exactly: with no cost limit, for whole token counts and budgets
  up to 2^46, the float64 computation gives Exceeded exactly when the budget is used up, Warning
  exactly when the integer percentage reaches the threshold, and Active otherwise.\<close>

theorem computePhase_tokens_exact:
  assumes "0 \<le> t" and "t \<le> 2 ^ 46" and "1 \<le> L" and "L \<le> 2 ^ 46" and "1 \<le> th" and "th \<le> 100"
  shows "computePhase \<lparr>PrometheusError = False, TokensUsed = f64_of_int t, CostUsedUSD = c,
      DailyTokenLimit = L, MonthlyLimitUSD = fzero, AlertThreshold = th\<rparr> =
    (if L \<le> t then QuotaPhaseExceeded else if th * L \<le> 100 * t then QuotaPhaseWarning
     else QuotaPhaseActive)"
proof -
  have "fle (f64_of_int L) (f64_of_int t) \<longleftrightarrow> L \<le> t"
    using assms by (simp add: f64_of_nat_small)
  moreover have "(of_int th \<le> rnd (of_int (100 * t) / of_int L)) \<longleftrightarrow> th * L \<le> 100 * t"
    using assms by (intro threshold_exact) auto
  moreover have "used_pct (f64_of_int t) (f64_of_int L) = Fin False (rnd (of_int (100 * t) / of_int L))"
    using assms by (intro used_pct_int) auto
  moreover have "clamp_threshold th = th" using assms by (simp add: clamp_threshold_def)
  ultimately show ?thesis
    using assms(3) threshold_float [of th] threshold_ge_one [of th]
    by (simp add: computePhase_def token_exceeded_def cost_exceeded_def tok_util_def cost_util_def
        Let_def fzero_def)
qed

theorem computePhase_tokens_exact_witness:
  "computePhase \<lparr>PrometheusError = False, TokensUsed = f64_of_int 799999, CostUsedUSD = fzero,
      DailyTokenLimit = 1000000, MonthlyLimitUSD = fzero, AlertThreshold = 80\<rparr> = QuotaPhaseActive
   \<and> computePhase \<lparr>PrometheusError = False, TokensUsed = f64_of_int 800000, CostUsedUSD = fzero,
      DailyTokenLimit = 1000000, MonthlyLimitUSD = fzero, AlertThreshold = 80\<rparr> = QuotaPhaseWarning
   \<and> computePhase \<lparr>PrometheusError = False, TokensUsed = f64_of_int 1000000, CostUsedUSD = fzero,
      DailyTokenLimit = 1000000, MonthlyLimitUSD = fzero, AlertThreshold = 80\<rparr> = QuotaPhaseExceeded"
  using computePhase_tokens_exact [of 799999 1000000 80 fzero]
    computePhase_tokens_exact [of 800000 1000000 80 fzero]
    computePhase_tokens_exact [of 1000000 1000000 80 fzero]
  by simp

section \<open>Remaining percentages and the phase\<close>

lemma remaining_of_ge:
  assumes "0 \<le> k" and "k \<le> 100" and "p \<noteq> NaN" and "f64_ok p" and "\<not> fle (Fin False (of_int k)) p"
  shows "100 - k \<le> clampInt32Round oor (fsub (f64_of_int 100) (clamp_pct p))"
  using assms(3,4)
proof (cases rule: clamp_pct_cases)
  case (1 q)
  have "q \<le> of_int k"
    using 1 assms by (cases p)
      (auto simp: clamp_pct_def Let_def f64_hundred fzero_def split: if_splits)
  then have "of_int (100 - k) \<le> rnd (100 - q)"
    using assms(1,2) by (intro f64r.ge_bound representable_int) auto
  moreover have "rnd (100 - q) \<le> 100"
    using 1 f64r.le_bound [of "100 - q" 100] representable_int [of 100] by simp
  ultimately show ?thesis
    using 1 by (simp add: fsub_hundred clampInt32Round_Fin le_floor_iff)
next
  case 2
  have "fsub (f64_of_int 100) (Fin True 0) = Fin False 100"
    by (simp add: fsub_def f64_hundred mk_numeral)
  then show ?thesis using assms(1) by (simp add: 2 clampInt32Round_Fin le_floor_iff)
qed

lemma remaining_zero:
  assumes "f64_ok p" and "fle (Fin False (399 / 4)) p"
  shows "clampInt32Round oor (fsub (f64_of_int 100) (clamp_pct p)) = 0"
proof -
  obtain q where q: "clamp_pct p = Fin False q" "399 / 4 \<le> q" "q \<le> 100"
  proof (cases p)
    case (Inf s)
    with assms that [of 100] show ?thesis
      by (auto simp: clamp_pct_def Let_def f64_hundred fzero_def)
  next
    case (Fin s v)
    with assms that [of "min v 100"] show ?thesis
      by (cases s) (auto simp: f64_ok_def clamp_pct_def Let_def f64_hundred fzero_def min_def split: if_splits)
  qed (use assms(2) in simp)
  have "rnd (100 - q) \<le> 1 / 4"
  proof (rule f64r.le_bound)
    show "representable (1 / 4)" using representable_pow2 [of "- 2"] by (simp add: pow2_def)
  qed (use q in simp)
  moreover have "0 \<le> rnd (100 - q)" by simp
  ultimately have "\<lfloor>rnd (100 - q) + 1 / 2\<rfloor> = 0" by linarith
  with \<open>rnd (100 - q) \<le> 1 / 4\<close> q show ?thesis
    by (simp add: fsub_hundred clampInt32Round_Fin)
qed

text \<open>What a remaining percentage says, for either budget.\<close>

lemma remaining_agrees:
  fixes oor :: "f64 \<Rightarrow> int"
  assumes "usage u" and "flt fzero l" and "f64_ok l" and "l \<noteq> Inf False"
  defines "r \<equiv> clampInt32Round oor (fsub (f64_of_int 100) (clamp_pct (used_pct u l)))"
  shows "0 \<le> r" and "r \<le> 100" and "fle l u \<Longrightarrow> r = 0"
    and "1 \<le> th \<Longrightarrow> th \<le> 100 \<Longrightarrow> \<not> fle (Fin False (of_int th)) (used_pct u l) \<Longrightarrow> 100 - th \<le> r"
proof -
  have p: "used_pct u l \<noteq> NaN" "f64_ok (used_pct u l)"
    using used_pct_not_NaN [OF assms(1,2,4,3)] by (simp_all add: used_pct_def)
  then show "0 \<le> r" "r \<le> 100" using remaining_range by (simp_all add: r_def)
  show "100 - th \<le> r" if "1 \<le> th" "th \<le> 100" "\<not> fle (Fin False (of_int th)) (used_pct u l)"
    unfolding r_def using that p by (intro remaining_of_ge) auto
  show "r = 0" if "fle l u"
    unfolding r_def
  proof (rule remaining_zero [OF p(2)])
    from positive_cases [OF assms(2-4)] obtain b where b: "l = Fin False b" "0 < b" by metis
    from assms(1) show "fle (Fin False (399 / 4)) (used_pct u l)"
      by (cases rule: usage_cases) (use b that used_pct_reached in \<open>auto simp: used_pct_Inf\<close>)
  qed
qed

text \<open>A cost that Prometheus reports as NaN switches the cost budget off: the phase is the one
  of a quota with no cost limit, and the remaining percentage is whatever the platform makes of
  converting NaN to an integer.\<close>

theorem nan_cost_not_enforced:
  "computePhase (i\<lparr>CostUsedUSD := NaN\<rparr>) = computePhase (i\<lparr>MonthlyLimitUSD := fzero\<rparr>)
   \<and> costBudgetRemainingPct_of oor NaN (f64_of_int 500) = oor NaN"
proof
  have "cost_exceeded (i\<lparr>CostUsedUSD := NaN\<rparr>) = False" "cost_exceeded (i\<lparr>MonthlyLimitUSD := fzero\<rparr>) = False"
    by (simp_all add: cost_exceeded_def fzero_def)
  moreover have "fle (f64_of_int (clamp_threshold th)) (cost_util (i\<lparr>CostUsedUSD := NaN\<rparr>)) = False"
    "fle (f64_of_int (clamp_threshold th)) (cost_util (i\<lparr>MonthlyLimitUSD := fzero\<rparr>)) = False" for th
    using fle_th_zero [of th] by (simp_all add: cost_util_def used_pct_def f64_hundred fzero_def threshold_float)
  ultimately show "computePhase (i\<lparr>CostUsedUSD := NaN\<rparr>) = computePhase (i\<lparr>MonthlyLimitUSD := fzero\<rparr>)"
    by (simp add: computePhase_def token_exceeded_def tok_util_def Let_def)
  show "costBudgetRemainingPct_of oor NaN (f64_of_int 500) = oor NaN"
    by (simp add: costBudgetRemainingPct_of_def used_pct_def f64_simps fzero_def clamp_pct_def
        clampInt32Round_def fsub_def f64_to_i32_def ftrunc_def Let_def)
qed

end
