(* ===== verification/Promclient.thy ===== *)
theory Promclient
  imports Float64
begin

text \<open>
  The Prometheus client \<^verbatim>\<open>pkg/promclient/client.go\<close>. The query API is a parameter that maps a
  query to an error or to a value of one of the kinds the API has; the client reduces that to a
  number, to no sample, or to an error. The controller and the cost patcher share it.
\<close>

text \<open>A query is the format string of the code and the arguments of its verbs.\<close>

datatype query_arg = QStr string | QFloat f64

record prom_query =
  pq_format :: string
  pq_args :: "query_arg list"

datatype prom_value = PVector "f64 list" | PScalar f64 | POther string

type_synonym prom_api = "prom_query \<Rightarrow> string + prom_value"

definition QueryInstant :: "prom_api \<Rightarrow> prom_query \<Rightarrow> string + f64 option" where
  "QueryInstant api query = (case api query of
     Inl err \<Rightarrow> Inl (''prometheus query: '' @ err)
   | Inr (PVector v) \<Rightarrow> (case v of [] \<Rightarrow> Inr None | f # _ \<Rightarrow> Inr (Some f))
   | Inr (PScalar f) \<Rightarrow> Inr (Some f)
   | Inr (POther ty) \<Rightarrow> Inl (''prometheus query: unexpected value type '' @ ty))"

text \<open>A failed query is an error, an empty vector is no sample, and only the first sample counts.\<close>

lemma QueryInstant_cases:
  "QueryInstant api q = Inr (Some f) \<longleftrightarrow> api q = Inr (PScalar f) \<or> (\<exists>fs. api q = Inr (PVector (f # fs)))"
  "QueryInstant api q = Inr None \<longleftrightarrow> api q = Inr (PVector [])"
  by (auto simp: QueryInstant_def split: sum.splits prom_value.splits list.splits)

end
