(* ===== verification/QuotaReconciler.thy ===== *)
theory QuotaReconciler
  imports FloatText QuotaPhase Promclient
begin

text \<open>
  The quota controller: \<^verbatim>\<open>operator/internal/controller/teaminferencequota_controller.go\<close>
  and \<^verbatim>\<open>metrics.go\<close>.

  The Kubernetes API server, Prometheus, the wall clock and two apimachinery helpers are the
  fields of \<open>env\<close>; what a reconcile changes (the cluster behind the API, the events sent,
  the four gauge vectors) is the record \<open>world\<close>. A reconcile is a function from the world to
  its result and the next world. The lemmas say which outcome each branch has, when events are
  sent, and that the gauges keep a joint invariant along every run.
\<close>

section \<open>Queries\<close>

definition token_query :: "string \<Rightarrow> prom_query" where
  "token_query ns = \<lparr>pq_format = ''sum(increase(vllm:generation_tokens_total{namespace=%q}[24h])) or sum(increase(vllm:num_generation_tokens_total{namespace=%q}[24h]))'',
     pq_args = [QStr ns, QStr ns]\<rparr>"

definition cost_query :: "string \<Rightarrow> f64 \<Rightarrow> prom_query" where
  "cost_query ns hours = \<lparr>pq_format = ''sum(kubefisher:cost_per_hour{namespace=%q}) / 3600 * %g'',
     pq_args = [QStr ns, QFloat hours]\<rparr>"

section \<open>Spec and time\<close>

datatype limit_error = LimitEmpty | LimitSyntax string num_error | LimitNegative

definition limit_error_text :: "(string \<Rightarrow> string) \<Rightarrow> limit_error \<Rightarrow> string" where
  "limit_error_text quote e = (case e of
     LimitEmpty \<Rightarrow> ''monthlyCostLimitUSD is empty''
   | LimitSyntax s ne \<Rightarrow> ''parse monthlyCostLimitUSD: '' @ num_error_text quote ''ParseFloat'' s ne
   | LimitNegative \<Rightarrow> ''monthlyCostLimitUSD must be non-negative'')"

definition parseMonthlyCostLimitUSD :: "string \<Rightarrow> limit_error + f64" where
  "parseMonthlyCostLimitUSD s0 = (let s = TrimSpace s0 in
     if s = '''' then Inl LimitEmpty
     else case ParseFloat s of
       None \<Rightarrow> Inl (LimitSyntax s (ParseFloat_failure s))
     | Some v \<Rightarrow> if flt v fzero then Inl LimitNegative else Inr v)"

definition hoursSinceMonthStartUTC :: "utc \<Rightarrow> f64" where
  "hoursSinceMonthStartUTC now = Hours (sub_time (instant now) (instant (first_of_month now)))"

definition firstOfNextMonthUTC :: "utc \<Rightarrow> utc" where
  "firstOfNextMonthUTC now = first_of_next_month now"

definition formatUSD :: "f64 \<Rightarrow> string" where
  "formatUSD v = ''$'' @ FormatFixed 2 v"

section \<open>Gauges\<close>

type_synonym gauge = "(string \<times> string, f64) fmap"

record tiq_gauges =
  tiqMonthlyLimitUSD :: gauge
  tiqCostUsedUSD :: gauge
  tiqCostBudgetUsedPct :: gauge
  tiqPhase :: gauge

definition parseCostUsedUSD :: "string \<Rightarrow> f64" where
  "parseCostUsedUSD s0 = (let s = TrimPrefix (TrimSpace s0) ''$'' in
     if s = '''' then fzero else case ParseFloat s of None \<Rightarrow> fzero | Some v \<Rightarrow> v)"

definition phaseToFloat :: "quota_phase \<Rightarrow> f64" where
  "phaseToFloat p = (case p of QuotaPhaseActive \<Rightarrow> f64_of_int 1 | QuotaPhaseWarning \<Rightarrow> f64_of_int 2
     | QuotaPhaseExceeded \<Rightarrow> f64_of_int 3 | _ \<Rightarrow> f64_of_int 0)"

definition updateTIQMetrics :: "quota \<Rightarrow> tiq_gauges \<Rightarrow> tiq_gauges" where
  "updateTIQMetrics tiq g =
    (let key = (q_namespace tiq, q_name tiq);
         g1 = (case parseMonthlyCostLimitUSD (monthlyCostLimitUSD (spec tiq)) of
           Inl _ \<Rightarrow> g
         | Inr limit \<Rightarrow> g\<lparr>tiqMonthlyLimitUSD := fmupd key limit (tiqMonthlyLimitUSD g)\<rparr>);
         g2 = g1\<lparr>tiqCostUsedUSD := fmupd key (parseCostUsedUSD (costUsedThisMonth (status tiq)))
           (tiqCostUsedUSD g1)\<rparr>;
         pct0 = f64_of_int (i32 (100 - costBudgetRemainingPct (status tiq)));
         pct = (if flt pct0 fzero then fzero else pct0);
         g3 = g2\<lparr>tiqCostBudgetUsedPct := fmupd key pct (tiqCostBudgetUsedPct g2)\<rparr>
     in g3\<lparr>tiqPhase := fmupd key (phaseToFloat (phase (status tiq))) (tiqPhase g3)\<rparr>)"

definition deleteTIQMetrics :: "string \<Rightarrow> string \<Rightarrow> tiq_gauges \<Rightarrow> tiq_gauges" where
  "deleteTIQMetrics ns name g =
     \<lparr>tiqMonthlyLimitUSD = fmdrop (ns, name) (tiqMonthlyLimitUSD g),
      tiqCostUsedUSD = fmdrop (ns, name) (tiqCostUsedUSD g),
      tiqCostBudgetUsedPct = fmdrop (ns, name) (tiqCostBudgetUsedPct g),
      tiqPhase = fmdrop (ns, name) (tiqPhase g)\<rparr>"

section \<open>Environment and world\<close>

record event =
  ev_object :: "string \<times> string"
  ev_type :: string
  ev_reason :: string
  ev_message :: string

datatype get_result = Found quota | NotFound | GetError string

record 'c env =
  api_get :: "'c \<Rightarrow> string \<Rightarrow> string \<Rightarrow> get_result"
  api_patch_status :: "'c \<Rightarrow> quota \<Rightarrow> quota \<Rightarrow> (string + quota) \<times> 'c"
  prom :: "prom_api option"
  has_recorder :: bool
  now_utc :: utc
  spec_now :: utc
  prom_now :: utc
  SetStatusCondition :: "condition list \<Rightarrow> condition \<Rightarrow> condition list"
  status_equal :: "quota_status \<Rightarrow> quota_status \<Rightarrow> bool"
  quote :: "string \<Rightarrow> string"
  oor32 :: "f64 \<Rightarrow> int"
  oor64 :: "f64 \<Rightarrow> int"

record 'c world =
  cluster :: 'c
  events :: "event list"
  gauges :: tiq_gauges

record reconcile_result =
  requeue_after :: int
  rec_error :: "string option"

definition requeueInterval :: int where
  "requeueInterval = 60 * ns_per_sec"

section \<open>Status and conditions\<close>

definition applyUnknownStatus :: "utc \<Rightarrow> string \<Rightarrow> quota \<Rightarrow> quota" where
  "applyUnknownStatus now costDisplay q = q\<lparr>status := (status q)
     \<lparr>phase := QuotaPhaseUnknown, tokensUsedToday := 0, costUsedThisMonth := costDisplay,
      tokenBudgetRemainingPct := 0, costBudgetRemainingPct := 0, lastEvaluationTime := Some now\<rparr>\<rparr>"

definition setCondition ::
  "'c env \<Rightarrow> string \<Rightarrow> utc \<Rightarrow> condition_status \<Rightarrow> string \<Rightarrow> string \<Rightarrow> quota \<Rightarrow> quota" where
  "setCondition e ty t st reason message q =
    (let c = \<lparr>cond_type = ty, cond_status = st, cond_reason = reason, cond_message = message,
              cond_lastTransitionTime = t, cond_observedGeneration = q_generation q\<rparr>
     in q\<lparr>status := (status q)\<lparr>conditions := SetStatusCondition e (conditions (status q)) c\<rparr>\<rparr>)"

definition setSpecCondition ::
  "'c env \<Rightarrow> condition_status \<Rightarrow> string \<Rightarrow> string \<Rightarrow> quota \<Rightarrow> quota" where
  "setSpecCondition e = setCondition e ''SpecValid'' (spec_now e)"

definition setPrometheusCondition ::
  "'c env \<Rightarrow> condition_status \<Rightarrow> string \<Rightarrow> string \<Rightarrow> quota \<Rightarrow> quota" where
  "setPrometheusCondition e = setCondition e ''PrometheusReachable'' (prom_now e)"

section \<open>Events\<close>

definition reset_text :: "utc option \<Rightarrow> string" where
  "reset_text t = (case t of None \<Rightarrow> ''unknown'' | Some u \<Rightarrow> FormatRFC3339 u)"

definition emitPhaseEventIfNeeded ::
  "bool \<Rightarrow> quota \<Rightarrow> quota_phase \<Rightarrow> quota_phase \<Rightarrow> string \<Rightarrow> utc option \<Rightarrow> event list \<Rightarrow> event list" where
  "emitPhaseEventIfNeeded recorder q prev cur costUsed nextReset evs =
    (if \<not> recorder then evs
     else if prev = cur then evs
     else if prev = PhaseUnset \<and> cur = QuotaPhaseActive then evs
     else let msg = ''phase '' @ phase_text prev @ '' -> '' @ phase_text cur @ ''; costUsedThisMonth='' @ costUsed
            @ ''; tokensUsedToday='' @ FormatInt (tokensUsedToday (status q))
            @ ''; nextMonthlyReset='' @ reset_text nextReset
       in evs @ [\<lparr>ev_object = (q_namespace q, q_name q),
           ev_type = (if cur = QuotaPhaseExceeded \<or> cur = QuotaPhaseUnknown then ''Warning'' else ''Normal''),
           ev_reason = phase_text cur, ev_message = msg\<rparr>])"

definition emitAuditEventIfNeeded ::
  "bool \<Rightarrow> quota \<Rightarrow> quota_phase \<Rightarrow> quota_phase \<Rightarrow> string \<Rightarrow> utc option \<Rightarrow> event list \<Rightarrow> event list" where
  "emitAuditEventIfNeeded recorder q prev cur monthlyLimit nextReset evs =
    (if \<not> recorder then evs
     else if enforcementMode (spec q) \<noteq> EnforcementModeAudit then evs
     else if prev = cur then evs
     else if cur \<noteq> QuotaPhaseWarning \<and> cur \<noteq> QuotaPhaseExceeded then evs
     else let msg = ''[Audit] Quota limit reached; pod allowed (not blocked); phase='' @ phase_text cur
            @ ''; costUsedThisMonth='' @ costUsedThisMonth (status q)
            @ ''; monthlyCostLimitUSD='' @ monthlyLimit
            @ ''; tokensUsedToday='' @ FormatInt (tokensUsedToday (status q))
            @ ''; dailyTokenBudget='' @ FormatInt (dailyTokenBudget (spec q))
            @ ''; nextMonthlyReset='' @ reset_text nextReset
       in evs @ [\<lparr>ev_object = (q_namespace q, q_name q), ev_type = ''Normal'',
           ev_reason = (if cur = QuotaPhaseExceeded then ''AuditExceeded'' else ''AuditWarning''),
           ev_message = msg\<rparr>])"

section \<open>Reconcile\<close>

definition patchStatus :: "'c env \<Rightarrow> quota \<Rightarrow> quota \<Rightarrow> 'c \<Rightarrow> (string + quota) \<times> 'c" where
  "patchStatus e base q c =
     (if status_equal e (status base) (status q) then (Inr q, c) else api_patch_status e c base q)"

text \<open>The end of every reconcile that found its object: patch, then gauges, then requeue.\<close>

definition finish :: "'c env \<Rightarrow> quota \<Rightarrow> quota \<Rightarrow> 'c world \<Rightarrow> reconcile_result \<times> 'c world" where
  "finish e base q w = (case patchStatus e base q (cluster w) of
     (Inl err, c) \<Rightarrow>
       (\<lparr>requeue_after = requeueInterval,
         rec_error = Some (''patch teaminferencequota status: '' @ err)\<rparr>, w\<lparr>cluster := c\<rparr>)
   | (Inr q', c) \<Rightarrow>
       (\<lparr>requeue_after = requeueInterval, rec_error = None\<rparr>,
        w\<lparr>cluster := c, gauges := updateTIQMetrics q' (gauges w)\<rparr>))"

text \<open>The two queries: \<open>None\<close> when one of them failed, else tokens and cost (0 without a sample).\<close>

definition run_queries :: "prom_api \<Rightarrow> string \<Rightarrow> utc \<Rightarrow> (f64 \<times> f64) option" where
  "run_queries api ns now =
    (let tok = QueryInstant api (token_query ns);
         cost = QueryInstant api (cost_query ns (hoursSinceMonthStartUTC now));
         val = (\<lambda>r. case r of Inr (Some v) \<Rightarrow> v | _ \<Rightarrow> fzero)
     in if isl tok \<or> isl cost then None else Some (val tok, val cost))"

definition evaluated_status :: "'c env \<Rightarrow> f64 \<Rightarrow> f64 \<Rightarrow> f64 \<Rightarrow> quota \<Rightarrow> quota" where
  "evaluated_status e tokenVal cost monthlyLimit q =
    (let tokensUsed = f64_to_i64 (oor64 e) (fround tokenVal) in
     q\<lparr>status := (status q)
       \<lparr>tokensUsedToday := tokensUsed,
        costUsedThisMonth := formatUSD cost,
        tokenBudgetRemainingPct :=
          tokenBudgetRemainingPct_of (oor32 e) (f64_of_int tokensUsed) (dailyTokenBudget (spec q)),
        costBudgetRemainingPct := costBudgetRemainingPct_of (oor32 e) cost monthlyLimit,
        lastEvaluationTime := Some (now_utc e),
        phase := computePhase \<lparr>PrometheusError = False, TokensUsed = tokenVal, CostUsedUSD = cost,
          DailyTokenLimit = dailyTokenBudget (spec q), MonthlyLimitUSD = monthlyLimit,
          AlertThreshold = effectiveAlertThreshold (alertThresholdPct (spec q))\<rparr>\<rparr>\<rparr>)"

text \<open>The object a reconcile sends to the API server, and whether the audit event is considered.\<close>

definition evaluate :: "'c env \<Rightarrow> quota \<Rightarrow> quota \<times> bool" where
  "evaluate e quota0 =
    (let q0 = quota0\<lparr>status := (status quota0)\<lparr>nextResetTime := Some (firstOfNextMonthUTC (now_utc e))\<rparr>\<rparr>
     in case parseMonthlyCostLimitUSD (monthlyCostLimitUSD (spec q0)) of
       Inl specErr \<Rightarrow>
         (applyUnknownStatus (now_utc e) ''0.00''
           (setPrometheusCondition e ConditionUnknown ''PrometheusQueryFailed'' ''Skipped Prometheus: invalid spec.''
             (setSpecCondition e ConditionFalse ''InvalidMonthlyCostLimitUSD''
               (limit_error_text (quote e) specErr) q0)), False)
     | Inr monthlyLimit \<Rightarrow>
         let q1 = setSpecCondition e ConditionTrue ''SpecValid'' ''MonthlyCostLimitUSD is parseable.'' q0 in
         case prom e of
           None \<Rightarrow>
             (applyUnknownStatus (now_utc e) ''0.00''
               (setPrometheusCondition e ConditionFalse ''PrometheusQueryFailed''
                 ''Prometheus client is not configured'' q1), False)
         | Some api \<Rightarrow>
             (case run_queries api (q_namespace q1) (now_utc e) of
                None \<Rightarrow>
                  (applyUnknownStatus (now_utc e) ''$0.00''
                    (setPrometheusCondition e ConditionFalse ''PrometheusQueryFailed''
                      ''One or more Prometheus instant queries failed.'' q1), True)
              | Some (tokenVal, cost) \<Rightarrow>
                  (evaluated_status e tokenVal cost monthlyLimit
                    (setPrometheusCondition e ConditionTrue ''PrometheusReachable''
                      ''Prometheus queries succeeded.'' q1), True)))"

definition emit_events :: "'c env \<Rightarrow> quota_phase \<Rightarrow> bool \<Rightarrow> quota \<Rightarrow> event list \<Rightarrow> event list" where
  "emit_events e prev audit q evs =
    (let evs1 = emitPhaseEventIfNeeded (has_recorder e) q prev (phase (status q))
           (costUsedThisMonth (status q)) (nextResetTime (status q)) evs
     in if audit then emitAuditEventIfNeeded (has_recorder e) q prev (phase (status q))
           (monthlyCostLimitUSD (spec q)) (nextResetTime (status q)) evs1
        else evs1)"

definition Reconcile :: "'c env \<Rightarrow> string \<Rightarrow> string \<Rightarrow> 'c world \<Rightarrow> reconcile_result \<times> 'c world" where
  "Reconcile e ns name w = (case api_get e (cluster w) ns name of
     NotFound \<Rightarrow> (\<lparr>requeue_after = 0, rec_error = None\<rparr>, w\<lparr>gauges := deleteTIQMetrics ns name (gauges w)\<rparr>)
   | GetError err \<Rightarrow> (\<lparr>requeue_after = 0, rec_error = Some err\<rparr>, w)
   | Found base \<Rightarrow> (case evaluate e base of (q, audit) \<Rightarrow>
       finish e base q (w\<lparr>events := emit_events e (phase (status base)) audit q (events w)\<rparr>)))"

section \<open>What an evaluation computes\<close>

named_theorems quota_frame \<open>fields that the status helpers leave alone\<close>

lemma setCondition_frame [quota_frame]:
  "spec (setCondition e ty t st r m q) = spec q"
  "q_namespace (setCondition e ty t st r m q) = q_namespace q"
  "q_name (setCondition e ty t st r m q) = q_name q"
  "q_generation (setCondition e ty t st r m q) = q_generation q"
  "phase (status (setCondition e ty t st r m q)) = phase (status q)"
  "tokensUsedToday (status (setCondition e ty t st r m q)) = tokensUsedToday (status q)"
  "costUsedThisMonth (status (setCondition e ty t st r m q)) = costUsedThisMonth (status q)"
  "nextResetTime (status (setCondition e ty t st r m q)) = nextResetTime (status q)"
  by (simp_all add: setCondition_def Let_def)

lemmas cond_defs = setSpecCondition_def setPrometheusCondition_def

lemma applyUnknownStatus_frame [quota_frame]:
  "spec (applyUnknownStatus t d q) = spec q"
  "q_namespace (applyUnknownStatus t d q) = q_namespace q"
  "q_name (applyUnknownStatus t d q) = q_name q"
  "phase (status (applyUnknownStatus t d q)) = QuotaPhaseUnknown"
  "tokensUsedToday (status (applyUnknownStatus t d q)) = 0"
  "costUsedThisMonth (status (applyUnknownStatus t d q)) = d"
  "tokenBudgetRemainingPct (status (applyUnknownStatus t d q)) = 0"
  "costBudgetRemainingPct (status (applyUnknownStatus t d q)) = 0"
  "lastEvaluationTime (status (applyUnknownStatus t d q)) = Some t"
  "nextResetTime (status (applyUnknownStatus t d q)) = nextResetTime (status q)"
  by (simp_all add: applyUnknownStatus_def)

lemma evaluated_status_frame [quota_frame]:
  "spec (evaluated_status e t c l q) = spec q"
  "q_namespace (evaluated_status e t c l q) = q_namespace q"
  "q_name (evaluated_status e t c l q) = q_name q"
  "costUsedThisMonth (status (evaluated_status e t c l q)) = formatUSD c"
  "lastEvaluationTime (status (evaluated_status e t c l q)) = Some (now_utc e)"
  "nextResetTime (status (evaluated_status e t c l q)) = nextResetTime (status q)"
  "phase (status (evaluated_status e t c l q)) = computePhase \<lparr>PrometheusError = False, TokensUsed = t,
     CostUsedUSD = c, DailyTokenLimit = dailyTokenBudget (spec q), MonthlyLimitUSD = l,
     AlertThreshold = effectiveAlertThreshold (alertThresholdPct (spec q))\<rparr>"
  by (simp_all add: evaluated_status_def Let_def)

lemma computePhase_known: "\<not> PrometheusError i \<Longrightarrow> computePhase i \<notin> {QuotaPhaseUnknown, PhaseUnset}"
  by (auto simp: computePhase_def Let_def)

text \<open>The three ways an evaluation ends.\<close>

lemma evaluate_cases:
  obtains (unknown) d where
      "phase (status (fst (evaluate e q))) = QuotaPhaseUnknown"
      "tokensUsedToday (status (fst (evaluate e q))) = 0"
      "costUsedThisMonth (status (fst (evaluate e q))) = d" "d \<in> {''0.00'', ''$0.00''}"
      "tokenBudgetRemainingPct (status (fst (evaluate e q))) = 0"
      "costBudgetRemainingPct (status (fst (evaluate e q))) = 0"
      "isl (parseMonthlyCostLimitUSD (monthlyCostLimitUSD (spec q))) \<or> prom e = None
        \<or> (\<exists>api. prom e = Some api \<and> run_queries api (q_namespace q) (now_utc e) = None)"
  | (known) l api t c q1 where
      "parseMonthlyCostLimitUSD (monthlyCostLimitUSD (spec q)) = Inr l" "prom e = Some api"
      "run_queries api (q_namespace q) (now_utc e) = Some (t, c)"
      "evaluate e q = (evaluated_status e t c l q1, True)" "spec q1 = spec q"
      "nextResetTime (status q1) = Some (firstOfNextMonthUTC (now_utc e))"
proof (cases "parseMonthlyCostLimitUSD (monthlyCostLimitUSD (spec q))")
  case (Inl a)
  then show ?thesis by (intro unknown) (auto simp: evaluate_def Let_def quota_frame)
next
  case lim: (Inr l)
  show ?thesis
  proof (cases "prom e")
    case None
    with lim show ?thesis by (intro unknown) (auto simp: evaluate_def Let_def quota_frame)
  next
    case (Some api)
    show ?thesis
    proof (cases "run_queries api (q_namespace q) (now_utc e)")
      case None
      with lim Some show ?thesis
        by (intro unknown) (auto simp: evaluate_def Let_def quota_frame cond_defs)
    next
      case (Some tc)
      obtain t c where tc: "tc = (t, c)" by (cases tc)
      let ?q1 = "setPrometheusCondition e ConditionTrue ''PrometheusReachable'' ''Prometheus queries succeeded.''
        (setSpecCondition e ConditionTrue ''SpecValid'' ''MonthlyCostLimitUSD is parseable.''
          (q\<lparr>status := (status q)\<lparr>nextResetTime := Some (firstOfNextMonthUTC (now_utc e))\<rparr>\<rparr>))"
      have "evaluate e q = (evaluated_status e t c l ?q1, True)"
        using lim \<open>prom e = Some api\<close> Some tc
        by (simp add: evaluate_def Let_def setSpecCondition_def setCondition_frame)
      then show ?thesis
        using lim \<open>prom e = Some api\<close> Some tc
        by (intro known [where ?q1.0 = ?q1]) (simp_all add: cond_defs setCondition_frame)
    qed
  qed
qed

lemma evaluate_frame [quota_frame]:
  "spec (fst (evaluate e q)) = spec q"
  "q_namespace (fst (evaluate e q)) = q_namespace q"
  "q_name (fst (evaluate e q)) = q_name q"
  "lastEvaluationTime (status (fst (evaluate e q))) = Some (now_utc e)"
  "nextResetTime (status (fst (evaluate e q))) = Some (firstOfNextMonthUTC (now_utc e))"
  by (auto simp: evaluate_def Let_def quota_frame cond_defs split: sum.splits option.splits)

lemma evaluate_ignores_api [simp]: "evaluate (e\<lparr>api_patch_status := f\<rparr>) q = evaluate e q"
  by (simp add: evaluate_def cond_defs setCondition_def evaluated_status_def Let_def
      split: sum.split option.split)

section \<open>An instance: an API server that stores quotas in a map\<close>

type_synonym store = "(string \<times> string, quota) fmap"

definition store_get :: "store \<Rightarrow> string \<Rightarrow> string \<Rightarrow> get_result" where
  "store_get c ns name = (case fmlookup c (ns, name) of None \<Rightarrow> NotFound | Some q \<Rightarrow> Found q)"

definition store_patch :: "store \<Rightarrow> quota \<Rightarrow> quota \<Rightarrow> (string + quota) \<times> store" where
  "store_patch c base q = (Inr q, fmupd (q_namespace q, q_name q) q c)"

definition failing_patch :: "store \<Rightarrow> quota \<Rightarrow> quota \<Rightarrow> (string + quota) \<times> store" where
  "failing_patch c base q = (Inl ''conflict'', c)"

definition demo_prom :: prom_api where
  "demo_prom pq = (case pq_args pq of [QStr _, QFloat _] \<Rightarrow> Inr (PVector [f64_of_int 600])
     | _ \<Rightarrow> Inr (PScalar (f64_of_int 90)))"

definition demo_now :: utc where
  "demo_now = \<lparr>year = 2026, month = 3, day = 10, sec = 7200, nsec = 0\<rparr>"

definition demo_env :: "store env" where
  "demo_env = \<lparr>api_get = store_get, api_patch_status = store_patch, prom = Some demo_prom,
     has_recorder = True, now_utc = demo_now, spec_now = demo_now, prom_now = demo_now,
     SetStatusCondition = (\<lambda>cs c. c # filter (\<lambda>d. cond_type d \<noteq> cond_type c) cs),
     status_equal = (=), quote = (\<lambda>s. s), oor32 = (\<lambda>_. 0), oor64 = (\<lambda>_. 0)\<rparr>"

definition demo_quota :: quota where
  "demo_quota = \<lparr>q_namespace = ''ml'', q_name = ''team'', q_generation = 1,
     spec = \<lparr>dailyTokenBudget = 100, monthlyCostLimitUSD = ''500'', alertThresholdPct = None,
       enforcementMode = EnforcementModeAudit\<rparr>,
     status = \<lparr>phase = QuotaPhaseActive, tokensUsedToday = 0, costUsedThisMonth = ''$0.00'',
       tokenBudgetRemainingPct = 100, costBudgetRemainingPct = 100, lastEvaluationTime = None,
       nextResetTime = None, conditions = []\<rparr>\<rparr>"

definition demo_world :: "store world" where
  "demo_world = \<lparr>cluster = fmupd (''ml'', ''team'') demo_quota fmempty, events = [],
     gauges = \<lparr>tiqMonthlyLimitUSD = fmempty, tiqCostUsedUSD = fmempty,
       tiqCostBudgetUsedPct = fmempty, tiqPhase = fmempty\<rparr>\<rparr>"

lemma demo_parse: "ParseFloat ''500'' = Some (f64_of_int 500)"
  using ParseFloat_digits [of "''500''"]
  by (simp add: digits_def is_digit_def less_eq_char_def digits_val_def digit_val_def)

lemma demo_trim: "TrimSpace ''500'' = ''500''"
  by (rule TrimSpace_graphic) (simp_all add: graphic_def less_eq_char_def)

lemma demo_env_sel [simp]:
  "api_get demo_env = store_get" "api_patch_status demo_env = store_patch"
  "status_equal demo_env = (=)" "has_recorder demo_env" "now_utc demo_env = demo_now"
  by (simp_all add: demo_env_def)

lemma demo_quota_sel [simp]:
  "q_namespace demo_quota = ''ml''" "q_name demo_quota = ''team''"
  "monthlyCostLimitUSD (spec demo_quota) = ''500''"
  "enforcementMode (spec demo_quota) = EnforcementModeAudit"
  "phase (status demo_quota) = QuotaPhaseActive"
  by (simp_all add: demo_quota_def)

lemma demo_limit: "parseMonthlyCostLimitUSD ''500'' = Inr (f64_of_int 500)"
  by (simp add: parseMonthlyCostLimitUSD_def demo_trim demo_parse Let_def fzero_def f64_numeral)

lemma demo_queries: "run_queries demo_prom ns t = Some (f64_of_int 90, f64_of_int 600)"
  by (simp add: run_queries_def QueryInstant_def demo_prom_def token_query_def cost_query_def Let_def)

lemma demo_evaluate: "phase (status (fst (evaluate demo_env demo_quota))) = QuotaPhaseExceeded"
  by (simp add: evaluate_def Let_def demo_env_def demo_quota_def demo_limit demo_queries quota_frame
      cond_defs computePhase_def cost_exceeded_def f64_of_int_pos f64_of_int_mono)

lemma phase_differs: "phase s \<noteq> phase t \<Longrightarrow> s \<noteq> t"
  by auto

lemma demo_changed: "status demo_quota \<noteq> status (fst (evaluate demo_env demo_quota))"
  by (rule phase_differs) (simp add: demo_evaluate)

lemma demo_eval_pct: "costBudgetRemainingPct (status (fst (evaluate demo_env demo_quota))) = 0"
proof -
  have "costBudgetRemainingPct_of oor (f64_of_int 600) (f64_of_int 500) = 0" for oor
    using remaining_agrees(3) [of "f64_of_int 600" "f64_of_int 500" oor]
    by (simp add: costBudgetRemainingPct_of_def usage_int f64_of_int_pos f64_of_int_mono)
      (simp add: f64_simps fzero_def)
  then show ?thesis
    by (simp add: evaluate_def Let_def demo_env_def demo_quota_def demo_limit demo_queries quota_frame
        cond_defs evaluated_status_def)
qed

lemma demo_get: "api_get demo_env (cluster demo_world) ''ml'' ''team'' = Found demo_quota"
  by (simp add: demo_env_def demo_world_def store_get_def)

section \<open>Outcome of an evaluation\<close>

text \<open>C11 A status is Unknown exactly when the spec, the client or a query is broken: the monthly
  limit does not parse, no Prometheus client is configured, or one of the two queries fails. In
  that case both usage figures and both percentages are reset in the status it computes. A known status is Active,
  Warning or Exceeded, and every status carries the time of its evaluation and of the next reset.\<close>

theorem evaluate_unknown_iff:
  "let q' = status (fst (evaluate e q));
       broken = (isl (parseMonthlyCostLimitUSD (monthlyCostLimitUSD (spec q))) \<or> prom e = None
         \<or> (\<exists>api. prom e = Some api \<and> run_queries api (q_namespace q) (now_utc e) = None))
   in (phase q' = QuotaPhaseUnknown \<longleftrightarrow> broken)
    \<and> (if broken then tokensUsedToday q' = 0 \<and> costUsedThisMonth q' \<in> {''0.00'', ''$0.00''}
         \<and> tokenBudgetRemainingPct q' = 0 \<and> costBudgetRemainingPct q' = 0
       else phase q' \<in> {QuotaPhaseActive, QuotaPhaseWarning, QuotaPhaseExceeded})
    \<and> lastEvaluationTime q' = Some (now_utc e)
    \<and> nextResetTime q' = Some (firstOfNextMonthUTC (now_utc e))"
proof (cases rule: evaluate_cases [of e q])
  case (unknown d)
  then show ?thesis by (auto simp: Let_def quota_frame)
next
  case (known l api t c q1)
  have "phase (status (fst (evaluate e q))) \<notin> {QuotaPhaseUnknown, PhaseUnset}"
    unfolding known(4) by (simp add: quota_frame computePhase_known [simplified])
  then have "phase (status (fst (evaluate e q))) \<in> {QuotaPhaseActive, QuotaPhaseWarning, QuotaPhaseExceeded}"
    by (cases "phase (status (fst (evaluate e q)))") simp_all
  with known show ?thesis by (auto simp: Let_def quota_frame)
qed

section \<open>Events\<close>

lemma emit_phase_append:
  "emitPhaseEventIfNeeded r q p c u n evs = evs @ emitPhaseEventIfNeeded r q p c u n []"
  by (simp add: emitPhaseEventIfNeeded_def Let_def)

lemma emit_audit_append:
  "emitAuditEventIfNeeded r q p c u n evs = evs @ emitAuditEventIfNeeded r q p c u n []"
  by (simp add: emitAuditEventIfNeeded_def Let_def)

lemma emit_events_append: "emit_events e p a q evs = evs @ emit_events e p a q []"
  using emit_phase_append [of "has_recorder e" q p "phase (status q)" "costUsedThisMonth (status q)"
      "nextResetTime (status q)" evs]
  by (auto simp: emit_events_def Let_def emit_audit_append [of _ _ _ _ _ _ "_ @ _"]
      emit_audit_append [of _ _ _ _ _ _ "emitPhaseEventIfNeeded _ _ _ _ _ _ _"])

lemma evaluate_audit_flag:
  "snd (evaluate e q) \<or> phase (status (fst (evaluate e q))) = QuotaPhaseUnknown"
  by (auto simp: evaluate_def Let_def quota_frame split: sum.splits option.splits)

text \<open>C12 Events report transitions only: a reconcile of an existing quota appends one event named
  after the new phase when the phase changed (a first Active status excepted), and, in Audit mode,
  one audit event when the new phase is Warning or Exceeded; nothing else.\<close>

theorem Reconcile_events:
  assumes "api_get e (cluster w) ns name = Found base"
  defines "cur \<equiv> phase (status (fst (evaluate e base)))"
    and "changed \<equiv> has_recorder e \<and> phase (status base) \<noteq> phase (status (fst (evaluate e base)))"
  shows "map ev_reason (events (snd (Reconcile e ns name w))) = map ev_reason (events w)
    @ (if changed \<and> \<not> (phase (status base) = PhaseUnset \<and> cur = QuotaPhaseActive)
       then [phase_text cur] else [])
    @ (if changed \<and> enforcementMode (spec base) = EnforcementModeAudit \<and> cur = QuotaPhaseExceeded
       then [''AuditExceeded''] else [])
    @ (if changed \<and> enforcementMode (spec base) = EnforcementModeAudit \<and> cur = QuotaPhaseWarning
       then [''AuditWarning''] else [])"
proof -
  obtain q a where qa: "evaluate e base = (q, a)" by (cases "evaluate e base")
  have ev: "events (snd (Reconcile e ns name w)) = events w @ emit_events e (phase (status base)) a q []"
    using assms(1) emit_events_append [of e "phase (status base)" a q "events w"]
    by (simp add: Reconcile_def qa finish_def split: prod.splits sum.splits)
  have "a \<or> cur = QuotaPhaseUnknown" using evaluate_audit_flag [of e base] by (simp add: qa cur_def)
  moreover have "spec q = spec base" using evaluate_frame(1) [of e base] by (simp add: qa)
  ultimately show ?thesis
    unfolding ev changed_def cur_def
    by (auto simp: qa emit_events_def emitPhaseEventIfNeeded_def emitAuditEventIfNeeded_def Let_def)
qed

theorem Reconcile_events_witness:
  "map ev_reason (events (snd (Reconcile demo_env ''ml'' ''team'' demo_world)))
    = [''Exceeded'', ''AuditExceeded'']"
  using Reconcile_events [OF demo_get] demo_evaluate
  by (simp add: demo_world_def  phase_text_def)

section \<open>Gauges\<close>

text \<open>The labels under which the four gauge vectors have a series.\<close>

definition gauge_keys :: "tiq_gauges \<Rightarrow> ((string \<times> string) fset \<times> (string \<times> string) fset \<times> (string \<times> string) fset \<times> (string \<times> string) fset)" where
  "gauge_keys g = (fmdom (tiqMonthlyLimitUSD g), fmdom (tiqCostUsedUSD g),
     fmdom (tiqCostBudgetUsedPct g), fmdom (tiqPhase g))"

lemma updateTIQMetrics_lookup:
  "fmlookup (tiqPhase (updateTIQMetrics q g)) k =
     (if k = (q_namespace q, q_name q) then Some (phaseToFloat (phase (status q))) else fmlookup (tiqPhase g) k)"
  "fmlookup (tiqCostUsedUSD (updateTIQMetrics q g)) k =
     (if k = (q_namespace q, q_name q) then Some (parseCostUsedUSD (costUsedThisMonth (status q)))
      else fmlookup (tiqCostUsedUSD g) k)"
  "fmlookup (tiqMonthlyLimitUSD (updateTIQMetrics q g)) k =
     (if k = (q_namespace q, q_name q)
      then (case parseMonthlyCostLimitUSD (monthlyCostLimitUSD (spec q)) of
              Inl _ \<Rightarrow> fmlookup (tiqMonthlyLimitUSD g) k | Inr l \<Rightarrow> Some l)
      else fmlookup (tiqMonthlyLimitUSD g) k)"
  by (auto simp: updateTIQMetrics_def Let_def split: sum.splits)

lemmas updateTIQMetrics_key =
  updateTIQMetrics_lookup [where k = "(q_namespace q, q_name q)" and q = q, simplified] for q

lemma used_pct_gauge:
  assumes "0 \<le> costBudgetRemainingPct (status q)" and "costBudgetRemainingPct (status q) \<le> 100"
  shows "fmlookup (tiqCostBudgetUsedPct (updateTIQMetrics q g)) (q_namespace q, q_name q)
    = Some (f64_of_int (100 - costBudgetRemainingPct (status q)))"
proof -
  have "i32 (100 - costBudgetRemainingPct (status q)) = 100 - costBudgetRemainingPct (status q)"
    using assms by (intro i32_id) (simp add: in_i32_def)
  moreover have "\<not> flt (f64_of_int (100 - costBudgetRemainingPct (status q))) fzero"
    using assms by (simp add: f64_of_nat_small fzero_def)
  ultimately show ?thesis
    by (simp add: updateTIQMetrics_def Let_def split: sum.splits)
qed

lemma updateTIQMetrics_other:
  assumes "k \<noteq> (q_namespace q, q_name q)"
  shows "fmlookup (tiqCostBudgetUsedPct (updateTIQMetrics q g)) k = fmlookup (tiqCostBudgetUsedPct g) k"
  using assms by (auto simp: updateTIQMetrics_def Let_def split: sum.splits)

text \<open>C13 After a reconcile whose status write succeeded, the gauges of the object returned by the
  API server show its phase code, its parsed cost and 100 minus its remaining percentage, every
  other series is untouched, and the object comes back in 60 seconds with no error.\<close>

theorem Reconcile_gauges:
  assumes "api_get e (cluster w) ns name = Found base"
    and "patchStatus e base (fst (evaluate e base)) (cluster w) = (Inr q, c)"
    and "0 \<le> costBudgetRemainingPct (status q)" and "costBudgetRemainingPct (status q) \<le> 100"
  shows "let (res, w') = Reconcile e ns name w; key = (q_namespace q, q_name q); g = gauges w' in
    cluster w' = c \<and> requeue_after res = requeueInterval \<and> rec_error res = None
    \<and> fmlookup (tiqPhase g) key = Some (phaseToFloat (phase (status q)))
    \<and> fmlookup (tiqCostUsedUSD g) key = Some (parseCostUsedUSD (costUsedThisMonth (status q)))
    \<and> fmlookup (tiqCostBudgetUsedPct g) key = Some (f64_of_int (100 - costBudgetRemainingPct (status q)))
    \<and> (\<forall>k. k = key \<or> fmlookup (tiqPhase g) k = fmlookup (tiqPhase (gauges w)) k
          \<and> fmlookup (tiqCostUsedUSD g) k = fmlookup (tiqCostUsedUSD (gauges w)) k
          \<and> fmlookup (tiqCostBudgetUsedPct g) k = fmlookup (tiqCostBudgetUsedPct (gauges w)) k
          \<and> fmlookup (tiqMonthlyLimitUSD g) k = fmlookup (tiqMonthlyLimitUSD (gauges w)) k)"
proof (cases "evaluate e base")
  case (Pair q0 a)
  have "\<exists>evs. Reconcile e ns name w = (\<lparr>requeue_after = requeueInterval, rec_error = None\<rparr>,
      w\<lparr>events := evs, cluster := c, gauges := updateTIQMetrics q (gauges w)\<rparr>)"
    using assms(1,2) by (simp add: Reconcile_def finish_def Pair) blast
  moreover have "k = (q_namespace q, q_name q)
      \<or> fmlookup (tiqPhase (updateTIQMetrics q g)) k = fmlookup (tiqPhase g) k
        \<and> fmlookup (tiqCostUsedUSD (updateTIQMetrics q g)) k = fmlookup (tiqCostUsedUSD g) k
        \<and> fmlookup (tiqCostBudgetUsedPct (updateTIQMetrics q g)) k = fmlookup (tiqCostBudgetUsedPct g) k
        \<and> fmlookup (tiqMonthlyLimitUSD (updateTIQMetrics q g)) k = fmlookup (tiqMonthlyLimitUSD g) k" for k g
    using updateTIQMetrics_other [of k q g] by (simp add: updateTIQMetrics_lookup)
  ultimately show ?thesis
    using used_pct_gauge [OF assms(3,4), of "gauges w"]
    by (elim exE) (simp add: Let_def updateTIQMetrics_key del: split_paired_All)
qed

theorem Reconcile_gauges_witness:
  "fmlookup (tiqPhase (gauges (snd (Reconcile demo_env ''ml'' ''team'' demo_world)))) (''ml'', ''team'')
    = Some (f64_of_int 3)"
proof -
  let ?q = "fst (evaluate demo_env demo_quota)"
  have p: "patchStatus demo_env demo_quota ?q (cluster demo_world)
      = (Inr ?q, fmupd (q_namespace ?q, q_name ?q) ?q (cluster demo_world))"
    using demo_changed by (simp add: patchStatus_def store_patch_def)
  have "costBudgetRemainingPct (status ?q) = 0"
    by (simp add: demo_eval_pct)
  then show ?thesis
    using Reconcile_gauges [OF demo_get p] demo_evaluate
    by (simp add: Let_def quota_frame phaseToFloat_def split: prod.splits)
qed

text \<open>A failed status write keeps the gauges, reports the error and retries in 60 seconds, but
  the events were already sent: while the write keeps failing, every retry sends them again.\<close>

theorem Reconcile_patch_failure_repeats_events:
  assumes "api_get e (cluster w) ns name = Found base"
    and "patchStatus e base (fst (evaluate e base)) (cluster w) = (Inl err, cluster w)"
  shows "let sent = emit_events e (phase (status base)) (snd (evaluate e base)) (fst (evaluate e base)) [];
             (r1, w1) = Reconcile e ns name w; (r2, w2) = Reconcile e ns name w1
         in rec_error r1 = Some (''patch teaminferencequota status: '' @ err) \<and> r2 = r1
          \<and> requeue_after r1 = requeueInterval \<and> gauges w2 = gauges w
          \<and> events w2 = events w @ sent @ sent"
proof -
  have one: "Reconcile e ns name v = (\<lparr>requeue_after = requeueInterval,
      rec_error = Some (''patch teaminferencequota status: '' @ err)\<rparr>,
      v\<lparr>events := events v @ emit_events e (phase (status base)) (snd (evaluate e base)) (fst (evaluate e base)) []\<rparr>)"
    if "cluster v = cluster w" for v
  proof (cases "evaluate e base")
    case (Pair q a)
    with assms that emit_events_append [of e "phase (status base)" a q "events v"] show ?thesis
      by (cases v) (simp add: Reconcile_def finish_def)
  qed
  show ?thesis by (simp add: one Let_def)
qed

theorem Reconcile_patch_failure_repeats_events_witness:
  "length (events (snd (Reconcile (demo_env\<lparr>api_patch_status := failing_patch\<rparr>) ''ml'' ''team''
     (snd (Reconcile (demo_env\<lparr>api_patch_status := failing_patch\<rparr>) ''ml'' ''team'' demo_world))))) = 4"
proof -
  let ?e = "demo_env\<lparr>api_patch_status := failing_patch\<rparr>"
  have ev: "evaluate ?e demo_quota = evaluate demo_env demo_quota"
    by (rule evaluate_ignores_api)
  let ?q = "fst (evaluate demo_env demo_quota)"
  have p: "patchStatus ?e demo_quota (fst (evaluate ?e demo_quota)) (cluster demo_world)
      = (Inl ''conflict'', cluster demo_world)"
    using demo_changed by (simp add: patchStatus_def failing_patch_def ev)
  have g: "api_get ?e (cluster demo_world) ''ml'' ''team'' = Found demo_quota"
    using demo_get by simp
  have "length (emit_events ?e (phase (status demo_quota)) (snd (evaluate ?e demo_quota)) ?q []) = 2"
    using demo_evaluate evaluate_audit_flag [of demo_env demo_quota]
    by (auto simp: ev emit_events_def emitPhaseEventIfNeeded_def emitAuditEventIfNeeded_def Let_def
        quota_frame)
  then show ?thesis
    using Reconcile_patch_failure_repeats_events [OF g p]
    by (simp add: Let_def ev demo_world_def split: prod.splits)
qed

text \<open>Deleting a quota removes its four series and nothing else: when the object is gone, the
  reconcile drops the series of that namespace and name, keeps every other series, sends no event,
  writes nothing to the cluster and does not requeue.\<close>

theorem Reconcile_deleted:
  assumes "api_get e (cluster w) ns name = NotFound"
  shows "let (res, w') = Reconcile e ns name w in
    requeue_after res = 0 \<and> rec_error res = None \<and> events w' = events w \<and> cluster w' = cluster w
    \<and> fmlookup (tiqPhase (gauges w')) k = (if k = (ns, name) then None else fmlookup (tiqPhase (gauges w)) k)
    \<and> fmlookup (tiqCostUsedUSD (gauges w')) k = (if k = (ns, name) then None else fmlookup (tiqCostUsedUSD (gauges w)) k)
    \<and> fmlookup (tiqCostBudgetUsedPct (gauges w')) k
        = (if k = (ns, name) then None else fmlookup (tiqCostBudgetUsedPct (gauges w)) k)
    \<and> fmlookup (tiqMonthlyLimitUSD (gauges w')) k
        = (if k = (ns, name) then None else fmlookup (tiqMonthlyLimitUSD (gauges w)) k)"
  using assms by (simp add: Reconcile_def deleteTIQMetrics_def)

theorem Reconcile_deleted_witness:
  "fmlookup (tiqPhase (gauges (snd (Reconcile demo_env ''ml'' ''gone''
     (demo_world\<lparr>gauges := updateTIQMetrics (demo_quota\<lparr>q_name := ''gone''\<rparr>) (gauges demo_world)\<rparr>)))))
     (''ml'', ''gone'') = None"
  using Reconcile_deleted [of demo_env "demo_world\<lparr>gauges := updateTIQMetrics (demo_quota\<lparr>q_name := ''gone''\<rparr>)
      (gauges demo_world)\<rparr>" "''ml''" "''gone''" "(''ml'', ''gone'')"]
  by (simp add: demo_world_def store_get_def split: prod.splits)

text \<open>A quota whose monthly limit stops parsing keeps showing its old limit: the reconcile that
  finds the broken spec leaves the limit series as it was, while the phase series drops to 0.\<close>

theorem invalid_spec_keeps_limit_gauge:
  assumes "api_get e (cluster w) ns name = Found base"
    and "parseMonthlyCostLimitUSD (monthlyCostLimitUSD (spec base)) = Inl err"
    and "patchStatus e base (fst (evaluate e base)) (cluster w) = (Inr q, c)"
    and "spec q = spec base" and "phase (status q) = phase (status (fst (evaluate e base)))"
  shows "let g = gauges (snd (Reconcile e ns name w)) in
    tiqMonthlyLimitUSD g = tiqMonthlyLimitUSD (gauges w)
    \<and> fmlookup (tiqPhase g) (q_namespace q, q_name q) = Some (f64_of_int 0)"
proof (cases "evaluate e base")
  case (Pair q0 a)
  have "phase (status q0) = QuotaPhaseUnknown"
    using assms(2) Pair by (simp add: evaluate_def Let_def) (metis applyUnknownStatus_frame(4) fst_conv)
  with assms Pair show ?thesis
    by (simp add: Reconcile_def finish_def Let_def updateTIQMetrics_def phaseToFloat_def)
qed

theorem invalid_spec_keeps_limit_gauge_witness:
  "tiqMonthlyLimitUSD (gauges (snd (Reconcile demo_env ''ml'' ''team'' (demo_world
     \<lparr>cluster := fmupd (''ml'', ''team'') (demo_quota\<lparr>spec := (spec demo_quota)\<lparr>monthlyCostLimitUSD := ''''\<rparr>\<rparr>) fmempty,
      gauges := updateTIQMetrics demo_quota (gauges demo_world)\<rparr>))))
   = fmupd (''ml'', ''team'') (f64_of_int 500) fmempty"
proof -
  let ?q = "demo_quota\<lparr>spec := (spec demo_quota)\<lparr>monthlyCostLimitUSD := ''''\<rparr>\<rparr>"
  let ?w = "demo_world\<lparr>cluster := fmupd (''ml'', ''team'') ?q fmempty,
    gauges := updateTIQMetrics demo_quota (gauges demo_world)\<rparr>"
  have get: "api_get demo_env (cluster ?w) ''ml'' ''team'' = Found ?q" by (simp add: store_get_def)
  have p: "parseMonthlyCostLimitUSD (monthlyCostLimitUSD (spec ?q)) = Inl LimitEmpty"
    by (simp add: parseMonthlyCostLimitUSD_def)
  have "phase (status (fst (evaluate demo_env ?q))) = QuotaPhaseUnknown"
    by (simp add: evaluate_def Let_def parseMonthlyCostLimitUSD_def quota_frame)
  then have "status ?q \<noteq> status (fst (evaluate demo_env ?q))" by (intro phase_differs) simp
  then have "patchStatus demo_env ?q (fst (evaluate demo_env ?q)) (cluster ?w)
      = (Inr (fst (evaluate demo_env ?q)), snd (store_patch (cluster ?w) ?q (fst (evaluate demo_env ?q))))"
    by (simp add: patchStatus_def store_patch_def)
  from invalid_spec_keeps_limit_gauge [OF get p this] show ?thesis
    by (simp add: Let_def quota_frame updateTIQMetrics_def demo_limit demo_world_def split: sum.splits)
qed

section \<open>Cost text\<close>

lemma decw_nonempty: "w \<noteq> 0 \<Longrightarrow> decw w n \<noteq> []"
  by (cases w) simp_all

lemma last_decw: "w \<noteq> 0 \<Longrightarrow> is_digit (last (decw w n))"
  by (cases w) simp_all

lemma TrimPrefix_Cons [simp]: "TrimPrefix (c # s) [c] = s"
  by (simp add: TrimPrefix_def)

text \<open>The cost written to the status reads back as the cost to the cent: for a finite cost the
  gauge shows the float64 nearest the printed decimal, which differs from the cost by at most half
  a cent; NaN and the infinities read back as themselves.\<close>

theorem cost_text_roundtrip:
  assumes "f64_ok (Fin s q)"
  shows "parseCostUsedUSD (formatUSD (Fin s q)) = Fin s (rnd (of_nat (scaled 2 q) / 100))
    \<and> \<bar>of_nat (scaled 2 q) / 100 - q\<bar> \<le> 1 / 200
    \<and> parseCostUsedUSD (formatUSD NaN) = NaN
    \<and> parseCostUsedUSD (formatUSD (Inf n)) = Inf n"
proof (intro conjI)
  have "formatUSD (Fin s q) \<noteq> []" "graphic (hd (formatUSD (Fin s q)))"
    by (simp_all add: formatUSD_def graphic_def less_eq_char_def)
  moreover have "is_digit (last (formatUSD (Fin s q)))"
    using last_decw [of 2] decw_nonempty [of 2] by (auto simp: formatUSD_def FormatFixed_def frac_part_def)
  then have "graphic (last (formatUSD (Fin s q)))" by simp
  ultimately have "TrimSpace (formatUSD (Fin s q)) = formatUSD (Fin s q)" by (rule TrimSpace_graphic)
  moreover have "FormatFixed 2 (Fin s q) \<noteq> []" by (simp add: FormatFixed_def)
  ultimately show "parseCostUsedUSD (formatUSD (Fin s q)) = Fin s (rnd (of_nat (scaled 2 q) / 100))"
    using ParseFloat_FormatFixed [OF assms, of 2] by (simp add: parseCostUsedUSD_def formatUSD_def)
  show "\<bar>of_nat (scaled 2 q) / 100 - q\<bar> \<le> 1 / 200"
    using scaled_error [of q 2] assms by (simp add: f64_ok_def)
  have "TrimSpace (formatUSD NaN) = ''$NaN''"
    by (simp add: formatUSD_def FormatFixed_def) (rule TrimSpace_graphic; simp add: graphic_def less_eq_char_def)
  then show "parseCostUsedUSD (formatUSD NaN) = NaN" by (simp add: parseCostUsedUSD_def parse_nan)
  have "TrimSpace (formatUSD (Inf n)) = formatUSD (Inf n)"
    by (rule TrimSpace_graphic) (simp_all add: formatUSD_def FormatFixed_def graphic_def less_eq_char_def)
  then show "parseCostUsedUSD (formatUSD (Inf n)) = Inf n"
    by (cases n) (simp_all add: parseCostUsedUSD_def formatUSD_def FormatFixed_def parse_inf)
qed

theorem cost_text_roundtrip_witness:
  "parseCostUsedUSD (formatUSD (f64_of_int 600)) = f64_of_int 600"
proof -
  have q: "f64_of_int 600 = Fin False 600" by (simp add: f64_simps)
  have "f64_ok (Fin False 600)" using f64_of_int_ok [of 600] by (simp only: q)
  from cost_text_roundtrip [OF this] show ?thesis
    using scaled_int [of 2 600] rnd_int [of 600] by (simp add: q)
qed

section \<open>Month window\<close>

text \<open>The cost query covers the current month only: the hours factor lies between 0 and the
  length of the month, the subtraction never saturates, and the next reset is a well-formed instant
  strictly in the future.\<close>

theorem month_window:
  assumes "wf_utc now"
  shows "fle fzero (hoursSinceMonthStartUTC now)
    \<and> fle (hoursSinceMonthStartUTC now) (f64_of_int (24 * days_in (year now) (month now)))
    \<and> sub_time (instant now) (instant (first_of_month now)) = instant now - instant (first_of_month now)
    \<and> instant now < instant (firstOfNextMonthUTC now) \<and> wf_utc (firstOfNextMonthUTC now)"
proof -
  define d where "d = instant now - instant (first_of_month now)"
  define D where "D = days_in (year now) (month now)"
  define n where "n = ns_per_hour"
  have n: "n = 3600 * ns_per_sec" "n = 3600000000000" by (simp_all add: n_def ns_per_hour_def ns_per_sec_def)
  have D: "1 \<le> D" "D \<le> 31" by (simp_all add: D_def days_in_def)
  have bracket: "0 \<le> d" "instant now < instant (firstOfNextMonthUTC now)"
    using month_bracket [OF assms] by (simp_all add: d_def firstOfNextMonthUTC_def)
  moreover have "instant (firstOfNextMonthUTC now) = instant (first_of_month now) + D * 24 * n"
    using instant_next_month [of now] assms n(1)
    by (simp add: firstOfNextMonthUTC_def wf_utc_def D_def)
  ultimately have dn: "d < D * 24 * n" by (simp add: d_def)
  then have sat: "sub_time (instant now) (instant (first_of_month now)) = d"
    using \<open>0 \<le> d\<close> D n(2) by (simp add: sub_time_def sat64_def d_def)
  define a where "a = d div n"
  define b where "b = d mod n"
  have b: "0 \<le> b" "b < n" using n(2) by (simp_all add: b_def)
  have "a * n + b = d" by (simp add: a_def b_def)
  then have "a * n < D * 24 * n" using b(1) dn by linarith
  then have "a < D * 24" using n(2) by (simp add: mult_less_cancel_right)
  then have a: "0 \<le> a" "a \<le> D * 24 - 1"
    using \<open>0 \<le> d\<close> n(2) by (simp_all add: a_def pos_imp_zdiv_nonneg_iff)
  have "tdiv d n = a" using \<open>0 \<le> d\<close> n(2) by (cases "d = 0") (simp_all add: tdiv_def a_def)
  moreover from this have "tmod d n = b" by (simp add: tmod_def a_def b_def minus_mult_div_eq_mod)
  moreover define f where "f = rnd (of_int b / of_int n)"
  have f: "0 \<le> f" "f \<le> 1"
    using f64r.le_bound [of "of_int b / of_int n" 1] representable_int [of 1] b n(2)
    by (simp_all add: f_def field_simps)
  have "fdiv (f64_of_int b) (f64_of_int n) = Fin False f"
    using b n(2) f(2) less_le_trans [of 1 "pow2 1" "pow2 1024"]
    by (simp add: f64_of_nat_small mk_def f_def pow2_def)
  ultimately have h: "hoursSinceMonthStartUTC now = fadd (Fin False (of_int a)) (Fin False f)"
    using a D by (simp add: hoursSinceMonthStartUTC_def sat Hours_def f64_of_nat_small flip: n_def)
  have "of_int a \<le> (of_int (D * 24 - 1) :: rat)" using a(2) by (simp only: of_int_le_iff)
  then have "of_int a + f \<le> of_int (24 * D)" using f by simp
  moreover have lim: "f64_of_int (24 * D) = mk False (of_int (24 * D))" using D by (simp add: f64_of_int_def)
  ultimately have "fle (mk False (of_int a + f)) (f64_of_int (24 * D))" by (simp add: mk_mono)
  moreover have "fle fzero (mk False (of_int a + f))"
    using mk_mono [of 0 "of_int a + f"] a f by (simp add: fzero_def mk_zero)
  moreover have "fle fzero (f64_of_int (24 * D))"
    using f64_of_int_mono [of 0 "24 * D"] D by (simp add: fzero_def f64_small)
  ultimately have "fle fzero (hoursSinceMonthStartUTC now) \<and> fle (hoursSinceMonthStartUTC now) (f64_of_int (24 * D))"
    using a f by (simp add: h Let_def fzero_def)
  then show ?thesis
    using bracket sat wf_first_of_next_month [OF assms] by (simp add: D_def d_def firstOfNextMonthUTC_def)
qed

theorem month_window_witness:
  "fle (hoursSinceMonthStartUTC demo_now) (f64_of_int 744)
   \<and> instant demo_now < instant (firstOfNextMonthUTC demo_now)"
  using month_window [of demo_now] by (simp add: demo_now_def wf_utc_def days_in_def ns_per_sec_def)

section \<open>Display and decision\<close>

text \<open>The displayed token figures are rounded, the decision is not: at 999999.5 of 1000000
  tokens the status shows the whole budget used and 0 percent remaining, but the phase is Warning.\<close>

theorem token_rounding_divergence:
  "let q' = status (evaluated_status e (Fin False (1999999 / 2)) fzero fzero
       (demo_quota\<lparr>spec := (spec demo_quota)\<lparr>dailyTokenBudget := 1000000, alertThresholdPct := None\<rparr>\<rparr>))
   in tokensUsedToday q' = 1000000 \<and> tokenBudgetRemainingPct q' = 0 \<and> phase q' = QuotaPhaseWarning"
proof -
  have t: "fround (Fin False (1999999 / 2)) = Fin False 1000000"
    "f64_to_i64 oor (Fin False 1000000) = 1000000" for oor
    by (simp_all add: f64_to_i64_def ftrunc_def)
  have "f64_of_int 1000000 = Fin False 1000000" by (simp add: f64_simps)
  moreover have "used_pct (Fin False 1000000) (Fin False 1000000) = Fin False 100"
    by (simp add: used_pct_def f64_simps)
  moreover have "fsub (f64_of_int 100) (Fin False 100) = Fin False 0"
    by (simp add: fsub_def f64_simps)
  ultimately have pct: "tokenBudgetRemainingPct_of oor (f64_of_int 1000000) 1000000 = 0" for oor
    by (simp add: tokenBudgetRemainingPct_of_def clamp_pct_Fin clampInt32Round_Fin)
  have "80 \<le> rnd (9999995 / 100000)"
    using f64r.ge_bound [of 80 "9999995 / 100000"] representable_int [of 80] by simp
  moreover have "rnd (99999950 / 1000000) = rnd (9999995 / 100000)" by (rule arg_cong [where f = rnd]) simp
  ultimately have "fle (Fin False 80) (used_pct (Fin False (1999999 / 2)) (f64_of_int 1000000))"
    by (simp add: used_pct_def f64_simps) (simp add: mk_def)
  then have "computePhase \<lparr>PrometheusError = False, TokensUsed = Fin False (1999999 / 2), CostUsedUSD = fzero,
      DailyTokenLimit = 1000000, MonthlyLimitUSD = fzero, AlertThreshold = 80\<rparr> = QuotaPhaseWarning"
    by (simp add: computePhase_def token_exceeded_def cost_exceeded_def tok_util_def cost_util_def
        clamp_threshold_def f64_numeral fzero_def)
  then show ?thesis
    by (simp add: evaluated_status_def Let_def t pct effectiveAlertThreshold_def)
qed

section \<open>Runs\<close>

text \<open>
  Reconciles, with whatever the environment answers, interleaved with changes of the cluster by
  others.
\<close>

inductive tiq_step :: "'c world \<Rightarrow> 'c world \<Rightarrow> bool" where
  reconciled: "tiq_step w (snd (Reconcile e ns name w))"
| cluster_changed: "tiq_step w (w\<lparr>cluster := c\<rparr>)"

inductive_cases tiq_stepE: "tiq_step w w'"

definition controller_start :: "'c \<Rightarrow> 'c world" where
  "controller_start c = \<lparr>cluster = c, events = [], gauges = \<lparr>tiqMonthlyLimitUSD = fmempty,
     tiqCostUsedUSD = fmempty, tiqCostBudgetUsedPct = fmempty, tiqPhase = fmempty\<rparr>\<rparr>"

definition gauges_ok :: "tiq_gauges \<Rightarrow> bool" where
  "gauges_ok g \<longleftrightarrow> fmdom (tiqCostUsedUSD g) = fmdom (tiqPhase g)
     \<and> fmdom (tiqCostBudgetUsedPct g) = fmdom (tiqPhase g)
     \<and> fmdom (tiqMonthlyLimitUSD g) |\<subseteq>| fmdom (tiqPhase g)
     \<and> fmpred (\<lambda>k v. v \<in> {f64_of_int 0, f64_of_int 1, f64_of_int 2, f64_of_int 3}) (tiqPhase g)
     \<and> fmpred (\<lambda>k v. fle fzero v) (tiqCostBudgetUsedPct g)
     \<and> fmpred (\<lambda>k v. v = NaN \<or> fle fzero v) (tiqMonthlyLimitUSD g)"

lemma parse_limit_nonneg:
  "parseMonthlyCostLimitUSD s = Inr l \<Longrightarrow> l = NaN \<or> fle fzero l"
  using not_flt [of l fzero]
  by (auto simp: parseMonthlyCostLimitUSD_def Let_def fzero_def split: if_splits option.splits)

lemma phaseToFloat_codes: "phaseToFloat p \<in> {f64_of_int 0, f64_of_int 1, f64_of_int 2, f64_of_int 3}"
  by (simp add: phaseToFloat_def split: quota_phase.splits)

lemma updateTIQMetrics_fields:
  "tiqPhase (updateTIQMetrics q g) = fmupd (q_namespace q, q_name q) (phaseToFloat (phase (status q))) (tiqPhase g)"
  "tiqCostUsedUSD (updateTIQMetrics q g) =
     fmupd (q_namespace q, q_name q) (parseCostUsedUSD (costUsedThisMonth (status q))) (tiqCostUsedUSD g)"
  "\<exists>v. fle fzero v \<and>
     tiqCostBudgetUsedPct (updateTIQMetrics q g) = fmupd (q_namespace q, q_name q) v (tiqCostBudgetUsedPct g)"
  "tiqMonthlyLimitUSD (updateTIQMetrics q g) = tiqMonthlyLimitUSD g \<or>
     (\<exists>l. (l = NaN \<or> fle fzero l) \<and>
       tiqMonthlyLimitUSD (updateTIQMetrics q g) = fmupd (q_namespace q, q_name q) l (tiqMonthlyLimitUSD g))"
proof -
  let ?p = "f64_of_int (i32 (100 - costBudgetRemainingPct (status q)))"
  have "fle fzero (if flt ?p fzero then fzero else ?p)"
    using not_flt [of ?p fzero] by (simp add: fzero_def)
  then show "\<exists>v. fle fzero v \<and>
     tiqCostBudgetUsedPct (updateTIQMetrics q g) = fmupd (q_namespace q, q_name q) v (tiqCostBudgetUsedPct g)"
    by (intro exI conjI) (assumption, simp add: updateTIQMetrics_def Let_def split: sum.splits)
qed (auto simp: updateTIQMetrics_def Let_def dest: parse_limit_nonneg split: sum.splits)

lemma update_gauges_ok:
  assumes "gauges_ok g"
  shows "gauges_ok (updateTIQMetrics q g)"
proof -
  obtain v where "fle fzero v"
    "tiqCostBudgetUsedPct (updateTIQMetrics q g) = fmupd (q_namespace q, q_name q) v (tiqCostBudgetUsedPct g)"
    using updateTIQMetrics_fields(3) by blast
  with assms phaseToFloat_codes [of "phase (status q)"] updateTIQMetrics_fields(4) [of q g] show ?thesis
    unfolding gauges_ok_def updateTIQMetrics_fields(1,2)
    by (elim disjE exE conjE) (auto intro!: fmpred_upd)
qed

lemma delete_gauges_ok: "gauges_ok g \<Longrightarrow> gauges_ok (deleteTIQMetrics ns name g)"
  by (auto simp: gauges_ok_def deleteTIQMetrics_def intro!: fmpred_drop)

lemma Reconcile_gauges_ok:
  "gauges_ok (gauges w) \<Longrightarrow> gauges_ok (gauges (snd (Reconcile e ns name w)))"
  by (auto simp: Reconcile_def finish_def update_gauges_ok delete_gauges_ok
      split: get_result.splits prod.splits sum.splits)

text \<open>C14 Along every run of the controller, whatever the API server and Prometheus answer, the
  four gauge vectors stay consistent: the same objects have a phase, a cost and a percentage
  series, only those have a limit series, the phase series holds one of the codes 0 to 3, and
  percentages and limits are never negative.\<close>

theorem gauges_invariant:
  assumes "tiq_step\<^sup>*\<^sup>* (controller_start c) w"
  shows "gauges_ok (gauges w)"
  using assms
proof (induction rule: rtranclp_induct)
  case base
  show ?case by (simp add: controller_start_def gauges_ok_def)
next
  case (step v w)
  from step.hyps(2) step.IH show ?case
    by (auto elim!: tiq_stepE intro: Reconcile_gauges_ok)
qed

theorem gauges_invariant_witness:
  "gauges_ok (gauges (snd (Reconcile demo_env ''ml'' ''team''
     (controller_start (fmupd (''ml'', ''team'') demo_quota fmempty)))))"
  by (rule gauges_invariant) (rule r_into_rtranclp, rule tiq_step.reconciled)

section \<open>The schema of the status\<close>

text \<open>What the CRD demands of a status: a phase of the enumeration, an \<^verbatim>\<open>int64\<close> count, and percentages
  between 0 and 100 (the validation markers of \<^verbatim>\<open>teaminferencequota_types.go\<close>).\<close>

definition status_schema :: "quota_status \<Rightarrow> bool" where
  "status_schema st \<longleftrightarrow> phase st \<in> {QuotaPhaseActive, QuotaPhaseWarning, QuotaPhaseExceeded, QuotaPhaseUnknown}
     \<and> in_i64 (tokensUsedToday st)
     \<and> 0 \<le> tokenBudgetRemainingPct st \<and> tokenBudgetRemainingPct st \<le> 100
     \<and> 0 \<le> costBudgetRemainingPct st \<and> costBudgetRemainingPct st \<le> 100"

lemma computePhase_enum:
  "\<not> PrometheusError i \<Longrightarrow> computePhase i = QuotaPhaseActive \<or> computePhase i = QuotaPhaseWarning
     \<or> computePhase i = QuotaPhaseExceeded"
  by (auto simp: computePhase_def Let_def)

lemma used_pct_number:
  assumes "u \<noteq> NaN" and "flt fzero l" and "l \<noteq> Inf False" and "f64_ok l"
  shows "used_pct u l \<noteq> NaN \<and> f64_ok (used_pct u l)"
proof -
  from positive_cases [OF assms(2,4,3)] obtain r where r: "l = Fin False r" "0 < r" by metis
  then have "used_pct u l \<noteq> NaN"
    using assms(1) by (cases u) (auto simp: used_pct_def f64_hundred mk_def)
  then show ?thesis by (simp add: used_pct_def)
qed

lemma token_pct_range:
  assumes "in_i64 limit" and "in_i64 t"
  shows "0 \<le> tokenBudgetRemainingPct_of oor (f64_of_int t) limit
    \<and> tokenBudgetRemainingPct_of oor (f64_of_int t) limit \<le> 100"
proof (cases "limit \<le> 0")
  case False
  have "flt fzero (f64_of_int limit)"
    using False assms(1) by (intro f64_of_int_pos) (simp_all add: in_i64_def)
  moreover have "f64_of_int limit \<noteq> Inf False"
    using False assms(1) f64_of_int_nonneg [of limit] by (simp add: in_i64_def)
  ultimately show ?thesis
    using False used_pct_number [of "f64_of_int t" "f64_of_int limit"] remaining_range
    by (simp add: tokenBudgetRemainingPct_of_def)
qed (simp add: tokenBudgetRemainingPct_of_def)

lemma cost_pct_range:
  assumes "c \<noteq> NaN" and "f64_ok l" and "l \<noteq> NaN" and "l \<noteq> Inf False"
  shows "0 \<le> costBudgetRemainingPct_of oor c l \<and> costBudgetRemainingPct_of oor c l \<le> 100"
proof (cases "fle l fzero")
  case False
  then have "flt fzero l" using assms(3) not_flt [of fzero l] by (auto simp: fzero_def)
  then show ?thesis
    using False assms used_pct_number remaining_range by (simp add: costBudgetRemainingPct_of_def)
qed (simp add: costBudgetRemainingPct_of_def)

text \<open>The pattern the CRD sets for the monthly limit: digits, with or without a fraction.\<close>

definition schema_limit :: "string \<Rightarrow> bool" where
  "schema_limit s \<longleftrightarrow> (\<exists>ds fs. s = numeral_text False ds fs \<and> digits ds \<and> ds \<noteq> []
     \<and> (\<forall>t. fs = Some t \<longrightarrow> digits t \<and> t \<noteq> []))"

lemma schema_limit_finite:
  assumes "schema_limit s" and "parseMonthlyCostLimitUSD s = Inr l"
  shows "f64_ok l \<and> l \<noteq> NaN \<and> l \<noteq> Inf False"
proof -
  obtain ds fs where s: "s = numeral_text False ds fs" and ds: "digits ds" "ds \<noteq> []"
    and fs: "\<And>t. fs = Some t \<Longrightarrow> digits t \<and> t \<noteq> []"
    using assms(1) by (auto simp: schema_limit_def)
  have g: "graphic c" if "is_digit c" for c
    using that by (auto simp: is_digit_def graphic_def less_eq_char_def)
  have "graphic (hd s)" "graphic (last s)"
    using ds fs by (auto simp: s numeral_text_def digits_def intro!: g split: option.splits)
  then have "TrimSpace s = s" using ds by (intro TrimSpace_graphic) (auto simp: s numeral_text_def)
  moreover have f: "digits (frac_digits fs)" using fs by (cases fs) (auto simp: frac_digits_def)
  ultimately have l: "ParseFloat s = Some l"
    using assms(2) by (auto simp: parseMonthlyCostLimitUSD_def Let_def split: if_splits option.splits)
  define v where "v = (of_nat (digits_val (ds @ frac_digits fs)) / 10 ^ length (frac_digits fs) :: rat)"
  have "l = mk False v \<and> l \<noteq> Inf False"
  proof -
    have "filter (\<lambda>c. c \<noteq> CHR ''_'') s = s"
      using numeral_no_underscore [OF ds(1) f] by (auto simp: s filter_id_conv)
    then show ?thesis
      using l ds f numeral_no_underscore [OF ds(1) f]
      by (auto simp: s v_def ParseFloat_def numeral_not_special read_float_numeral split: f64.splits)
  qed
  moreover have "f64_ok (mk False v)" "mk False v \<noteq> NaN"
    by (simp, simp add: mk_def)
  ultimately show ?thesis by metis
qed

text \<open>A status the controller writes always fits the schema of its CRD, so the API server accepts it:
  for a spec that passed validation, on every path of the evaluation, unless Prometheus reports the cost as NaN.\<close>

theorem evaluate_status_schema:
  assumes "\<And>x. in_i64 (oor64 e x)" and "in_i64 (dailyTokenBudget (spec q))"
    and "schema_limit (monthlyCostLimitUSD (spec q))"
    and "\<And>api t. prom e = Some api \<Longrightarrow> run_queries api (q_namespace q) (now_utc e) \<noteq> Some (t, NaN)"
  shows "status_schema (status (fst (evaluate e q)))"
proof (cases rule: evaluate_cases [of e q])
  case (unknown d)
  then show ?thesis by (simp add: status_schema_def in_i64_def)
next
  case (known l api t c q1)
  have "c \<noteq> NaN" using assms(4) known(2,3) by auto
  with schema_limit_finite [OF assms(3) known(1)] cost_pct_range [of c l "oor32 e"]
  have "0 \<le> costBudgetRemainingPct_of (oor32 e) c l \<and> costBudgetRemainingPct_of (oor32 e) c l \<le> 100" by simp
  moreover have "in_i64 (f64_to_i64 (oor64 e) x)" for x using assms(1) by (rule f64_to_i64_range)
  moreover note computePhase_enum [of "\<lparr>PrometheusError = False, TokensUsed = t, CostUsedUSD = c,
    DailyTokenLimit = dailyTokenBudget (spec q), MonthlyLimitUSD = l,
    AlertThreshold = effectiveAlertThreshold (alertThresholdPct (spec q))\<rparr>"]
  ultimately show ?thesis
    using known(5) token_pct_range [OF assms(2)]
    by (auto simp: known(4) status_schema_def evaluated_status_def Let_def)
qed

lemma demo_schema: "schema_limit ''500''"
  unfolding schema_limit_def
  by (intro exI [of _ "''500''"] exI [of _ None])
    (simp add: numeral_text_def digits_def is_digit_def less_eq_char_def)

theorem evaluate_status_schema_witness: "status_schema (status (fst (evaluate demo_env demo_quota)))"
proof (rule evaluate_status_schema)
  show "run_queries api (q_namespace demo_quota) (now_utc demo_env) \<noteq> Some (t, NaN)"
    if "prom demo_env = Some api" for api t
    using that by (auto simp: demo_env_def demo_queries)
qed (simp_all add: demo_schema demo_env_def demo_quota_def in_i64_def)

section \<open>Percentages and phase of one status\<close>

text \<open>The token count a status shows: the sample rounded to the nearest whole number.\<close>

lemma f64_to_i64_int: "0 \<le> n \<Longrightarrow> n < 2 ^ 63 \<Longrightarrow> f64_to_i64 oor (Fin False (of_int n)) = n"
  by (simp add: f64_to_i64_def ftrunc_def)

lemma token_count:
  assumes "usage t" and "flt t (Fin False (2 ^ 62))"
  obtains n where "f64_to_i64 oor (fround t) = n" and "0 \<le> n" and "n < 2 ^ 63"
    and "\<And>L. 0 \<le> L \<Longrightarrow> L < 2 ^ 64 \<Longrightarrow> fle (f64_of_int L) t \<Longrightarrow> fle (f64_of_int L) (f64_of_int n)"
  using assms(1)
proof (cases rule: usage_cases)
  case inf
  with assms(2) show ?thesis by simp
next
  case negzero
  have "fround t = Fin True 0" by (simp add: negzero)
  then have n: "f64_to_i64 oor (fround t) = 0" by (simp add: f64_to_i64_def ftrunc_def)
  have "fle (f64_of_int L) (f64_of_int 0)" if "fle (f64_of_int L) t" for L
    using that fle_trans [of "f64_of_int L" t "f64_of_int 0"] by (simp add: negzero f64_simps)
  with n show ?thesis by (intro that [of 0]) auto
next
  case (pos v)
  let ?n = "\<lfloor>v + 1 / 2\<rfloor>"
  have v: "v < 2 ^ 62" using assms(2) pos by simp
  then have n: "0 \<le> ?n" "?n < 2 ^ 63" using pos(2) by (simp_all add: floor_less_iff)
  have "f64_to_i64 oor (fround t) = ?n" unfolding pos fround.simps by (rule f64_to_i64_int [OF n])
  moreover have "fle (f64_of_int L) (f64_of_int ?n)" if L: "0 \<le> L" "L < 2 ^ 64" "fle (f64_of_int L) t" for L
  proof -
    obtain m where m: "rnd (of_int L) = of_int m" using rnd_of_int_whole by blast
    then have "of_int m \<le> v" using L pos by (simp add: f64_of_int_nonneg)
    then have "m \<le> ?n" by (simp add: le_floor_iff)
    then have "rnd (of_int m) \<le> rnd (of_int ?n)" by (intro rnd_mono) simp
    then show ?thesis using L n m by (simp add: f64_of_int_nonneg) (metis rnd_rnd)
  qed
  ultimately show ?thesis using n by (intro that [of ?n])
qed


text \<open>C32 The percentages a status shows agree with its phase. For a spec that passed validation and usage figures that are
  numbers, not negative, with fewer than 2^62 tokens: both percentages lie between 0 and 100, and 0 is shown for a
  budget or a limit that is not positive. In phase Exceeded a positive budget shows 0 percent remaining, or a positive limit
  does, or the budget is 0 and something was used. In phase Active every positive limit shows at least 100 minus the alert
  threshold, and so does a positive budget, unless the token count was rounded up for display: the percentage is computed from the
  rounded count and the phase from the sample.\<close>

theorem shown_percentages_agree:
  assumes "in_i64 (dailyTokenBudget (spec q))" and "schema_limit (monthlyCostLimitUSD (spec q))"
    and "parseMonthlyCostLimitUSD (monthlyCostLimitUSD (spec q)) = Inr l"
    and "prom e = Some api" and "run_queries api (q_namespace q) (now_utc e) = Some (t, c)"
    and "usage t" and "flt t (Fin False (2 ^ 62))" and "usage c"
  shows "let st = status (fst (evaluate e q)); L = dailyTokenBudget (spec q);
      rt = tokenBudgetRemainingPct st; rc = costBudgetRemainingPct st;
      th = effectiveAlertThreshold (alertThresholdPct (spec q))
    in 0 \<le> rt \<and> rt \<le> 100 \<and> 0 \<le> rc \<and> rc \<le> 100
     \<and> (L \<le> 0 \<longrightarrow> rt = 0) \<and> (\<not> flt fzero l \<longrightarrow> rc = 0)
     \<and> (phase st = QuotaPhaseExceeded \<longrightarrow>
          0 < L \<and> rt = 0 \<or> flt fzero l \<and> rc = 0 \<or> L = 0 \<and> flt fzero t)
     \<and> (phase st = QuotaPhaseActive \<longrightarrow> (flt fzero l \<longrightarrow> 100 - th \<le> rc)
          \<and> (0 < L \<and> fle (f64_of_int (tokensUsedToday st)) t \<longrightarrow> 100 - th \<le> rt))"
proof -
  let ?L = "dailyTokenBudget (spec q)" and ?fL = "f64_of_int (dailyTokenBudget (spec q))"
  let ?th = "effectiveAlertThreshold (alertThresholdPct (spec q))"
  let ?r = "\<lambda>u l. clampInt32Round (oor32 e) (fsub (f64_of_int 100) (clamp_pct (used_pct u l)))"
  obtain n where n: "f64_to_i64 (oor64 e) (fround t) = n" "0 \<le> n" "n < 2 ^ 63"
    and reach: "\<And>L. 0 \<le> L \<Longrightarrow> L < 2 ^ 64 \<Longrightarrow> fle (f64_of_int L) t \<Longrightarrow> fle (f64_of_int L) (f64_of_int n)"
    using token_count [OF assms(6,7), of "oor64 e"] by metis
  let ?i = "\<lparr>PrometheusError = False, TokensUsed = t, CostUsedUSD = c, DailyTokenLimit = ?L, MonthlyLimitUSD = l,
    AlertThreshold = ?th\<rparr>"
  obtain q1 where "evaluate e q = (evaluated_status e t c l q1, True)" "spec q1 = spec q"
    using assms(3-5) by (cases rule: evaluate_cases [of e q]) auto
  then have st: "tokensUsedToday (status (fst (evaluate e q))) = n"
    "tokenBudgetRemainingPct (status (fst (evaluate e q))) = (if ?L \<le> 0 then 0 else ?r (f64_of_int n) ?fL)"
    "costBudgetRemainingPct (status (fst (evaluate e q))) = (if fle l fzero then 0 else ?r c l)"
    "phase (status (fst (evaluate e q))) = computePhase ?i"
    by (simp_all add: evaluated_status_def Let_def n(1) tokenBudgetRemainingPct_of_def costBudgetRemainingPct_of_def)
  have l: "f64_ok l" "l \<noteq> NaN" "l \<noteq> Inf False" using schema_limit_finite [OF assms(2,3)] by auto
  then have nle: "fle l fzero \<longleftrightarrow> \<not> flt fzero l" using not_flt [of fzero l] by (simp add: fzero_def)
  have th: "1 \<le> ?th" "?th \<le> 100" using clamp_threshold_range [of ?th] by simp_all
  have un: "usage (f64_of_int n)" using n by (intro usage_int) simp_all
  have L: "flt fzero ?fL" "?fL \<noteq> Inf False" if "0 < ?L"
    using that assms(1) f64_of_int_pos [of ?L] f64_of_int_nonneg [of ?L] by (simp_all add: in_i64_def)
  note T = remaining_agrees [OF un L(1) f64_of_int_ok L(2), where oor = "oor32 e"]
  note C = remaining_agrees [OF assms(8) _ l(1,3), where oor = "oor32 e"]
  have over: "0 < ?L \<Longrightarrow> fle ?fL t \<Longrightarrow> ?r (f64_of_int n) ?fL = 0"
    using reach [of ?L] assms(1) T(3) by (simp add: in_i64_def)
  have under: "100 - ?th \<le> ?r (f64_of_int n) ?fL"
    if "0 < ?L" "fle (f64_of_int n) t" "\<not> fle (Fin False (of_int ?th)) (used_pct t ?fL)"
  proof -
    have "(1 :: rat) \<le> of_int ?th" using th(1) by simp
    from warn_mono [OF un assms(6) that(2) L(1) [OF that(1)] f64_of_int_ok this] that(3)
    have "\<not> fle (Fin False (of_int ?th)) (used_pct (f64_of_int n) ?fL)" by blast
    then show ?thesis using T(4) [OF that(1) that(1) th] by blast
  qed
  have ranges: "0 < ?L \<Longrightarrow> 0 \<le> ?r (f64_of_int n) ?fL \<and> ?r (f64_of_int n) ?fL \<le> 100"
    "flt fzero l \<Longrightarrow> 0 \<le> ?r c l \<and> ?r c l \<le> 100"
    using T(1,2) C(1,2) by simp_all
  have exceeded: "0 < ?L \<and> ?r (f64_of_int n) ?fL = 0 \<or> flt fzero l \<and> ?r c l = 0 \<or> ?L = 0 \<and> flt fzero t"
    if "computePhase ?i = QuotaPhaseExceeded"
    using that over C(3)
    by (auto simp: computePhase_def token_exceeded_def cost_exceeded_def Let_def split: if_splits)
  have active: "(flt fzero l \<longrightarrow> 100 - ?th \<le> ?r c l) \<and> (0 < ?L \<and> fle (f64_of_int n) t \<longrightarrow> 100 - ?th \<le> ?r (f64_of_int n) ?fL)"
    if "computePhase ?i = QuotaPhaseActive"
    using that under C(4) [OF _ th] threshold_float [of ?th]
    by (auto simp: computePhase_def tok_util_def cost_util_def Let_def split: if_splits)
  show ?thesis
    unfolding st Let_def nle using ranges exceeded active by auto
qed

theorem shown_percentages_agree_witness:
  "let st = status (fst (evaluate demo_env demo_quota))
   in phase st = QuotaPhaseExceeded \<and> tokenBudgetRemainingPct st \<le> 100
     \<and> (tokenBudgetRemainingPct st = 0 \<or> costBudgetRemainingPct st = 0)"
proof -
  have "in_i64 (dailyTokenBudget (spec demo_quota))" by (simp add: demo_quota_def in_i64_def)
  moreover have "prom demo_env = Some demo_prom" by (simp add: demo_env_def)
  moreover have "flt (f64_of_int 90) (Fin False (2 ^ 62))" by (simp add: f64_simps)
  ultimately show ?thesis
    using shown_percentages_agree [of demo_quota "f64_of_int 500" demo_env demo_prom "f64_of_int 90" "f64_of_int 600"]
    by (auto simp: demo_schema demo_limit demo_queries usage_int demo_evaluate Let_def)
qed


end
