(* ===== verification/Kube.thy ===== *)
theory Kube
  imports Float64
begin

text \<open>
  The parts of the Kubernetes API objects that the program reads: containers and their
  resource lists, pods, owner references, typed workloads (Deployment, StatefulSet) and
  unstructured objects. The field names follow \<^verbatim>\<open>k8s.io/api\<close>; a field the program never
  looks at is left out.

  A \<^verbatim>\<open>resource.Quantity\<close> is library code: what the program sees of one is the result of
  \<^verbatim>\<open>Value()\<close> and the sign of its comparison with zero.
\<close>

record quantity =
  quantity_value :: int
  quantity_sign :: int

type_synonym resource_list = "(string, quantity) fmap"

record container =
  c_limits :: resource_list
  c_requests :: resource_list

definition gpuResourceName :: string where
  "gpuResourceName = ''nvidia.com/gpu''"

record owner_ref =
  or_kind :: string
  or_name :: string

record pod =
  p_namespace :: string
  p_name :: string
  p_labels :: smap
  p_controller :: "owner_ref option"
  p_containers :: "container list"
  p_initContainers :: "container list"
  p_phase :: string
  p_waiting :: "string option list"
  p_deleted :: bool

text \<open>A value of an unstructured object, as the JSON decoder or the code builds it.\<close>

datatype aval = ANull | ABool bool | AInt64 int | AInt int | AFloat f64 | AString string
  | AList "aval list" | AMap "(string, aval) fmap"

type_synonym amap = "(string, aval) fmap"

record gvk =
  gvk_group :: string
  gvk_version :: string
  gvk_kind :: string

record unstr =
  u_gvk :: gvk
  u_namespace :: string
  u_name :: string
  u_annotations :: smap
  u_object :: amap

record replicated =
  r_namespace :: string
  r_name :: string
  r_annotations :: smap
  r_readyReplicas :: int
  r_specReplicas :: "int option"

text \<open>A \<^verbatim>\<open>client.Object\<close>: the kinds the program patches, and any other.\<close>

datatype kobject = KDeployment replicated | KStatefulSet replicated | KUnstructured unstr | KOther string smap

definition as_string :: "aval option \<Rightarrow> string" where
  "as_string v = (case v of Some (AString s) \<Rightarrow> s | _ \<Rightarrow> '''')"

definition as_map :: "aval option \<Rightarrow> amap option" where
  "as_map v = (case v of Some (AMap m) \<Rightarrow> Some m | _ \<Rightarrow> None)"

definition as_list :: "aval option \<Rightarrow> aval list option" where
  "as_list v = (case v of Some (AList l) \<Rightarrow> Some l | _ \<Rightarrow> None)"

definition has_quantity :: "resource_list \<Rightarrow> (quantity \<Rightarrow> bool) \<Rightarrow> bool" where
  "has_quantity rl P = (case fmlookup rl gpuResourceName of None \<Rightarrow> False | Some q \<Rightarrow> P q)"

end
