(* ===== verification/Webhook.thy ===== *)
theory Webhook
  imports QuotaReconciler Kube
begin

text \<open>
  The admission webhook \<^verbatim>\<open>operator/internal/webhook/pod_webhook.go\<close>: GPU pods are denied while a
  quota of their namespace is Exceeded in Enforce mode.

  Listing quotas is the API server's: its answer (an error or a list, in the order the server
  returns it) is an argument. The loop over that list is a recursion whose result is the
  error returned to the API server, if any, and the events sent so far.
\<close>

section \<open>GPU requests\<close>

definition quantityGreaterThanZero :: "quantity \<Rightarrow> bool" where
  "quantityGreaterThanZero q \<longleftrightarrow> 0 < quantity_sign q"

definition containerRequestsGPU :: "container \<Rightarrow> bool" where
  "containerRequestsGPU c \<longleftrightarrow>
     has_quantity (c_requests c) quantityGreaterThanZero \<or> has_quantity (c_limits c) quantityGreaterThanZero"

definition podRequestsGPU :: "pod \<Rightarrow> bool" where
  "podRequestsGPU p \<longleftrightarrow>
     list_ex containerRequestsGPU (p_initContainers p) \<or> list_ex containerRequestsGPU (p_containers p)"

section \<open>Messages\<close>

definition formatCount :: "int \<Rightarrow> string" where
  "formatCount n0 = (let n = (if n0 < 0 then 0 else n0); s = FormatInt n
     in if length s \<le> 3 then s else write_groups (length s) 0 s)"

definition normalizeUSD :: "string \<Rightarrow> string" where
  "normalizeUSD amount0 = (let amount = TrimSpace amount0 in
     if amount = '''' then ''$0.00''
     else if HasPrefix amount ''$'' then amount else ''$'' @ amount)"

definition formatNextReset :: "utc option \<Rightarrow> string" where
  "formatNextReset t = (case t of None \<Rightarrow> ''unknown (controller has not computed next reset yet)''
     | Some u \<Rightarrow> if IsZero u then ''unknown (controller has not computed next reset yet)''
         else FormatMinutes u @ '' ('' @ FormatRFC3339 u @ '' UTC)'')"

definition spendSummary :: "quota \<Rightarrow> string" where
  "spendSummary q = ''Tokens (rolling 24h): '' @ formatCount (tokensUsedToday (status q))
     @ '' of '' @ formatCount (dailyTokenBudget (spec q)) @ '' daily budget. Cost (month-to-date, UTC): ''
     @ normalizeUSD (costUsedThisMonth (status q)) @ '' of '' @ normalizeUSD (monthlyCostLimitUSD (spec q))
     @ '' monthly limit. Next reset: '' @ formatNextReset (nextResetTime (status q)) @ ''.''"

definition denyMessage :: "(string \<Rightarrow> string) \<Rightarrow> quota \<Rightarrow> string" where
  "denyMessage qt q = ''GPU pod admission denied: namespace '' @ qt (q_namespace q)
     @ '' exceeded TeamInferenceQuota '' @ qt (q_name q) @ '' (phase '' @ phase_text (phase (status q))
     @ ''). '' @ spendSummary q @ '' To adjust limits, run: kubectl edit teaminferencequota ''
     @ q_name q @ '' -n '' @ q_namespace q"

definition emitAuditGPUAllowedEvent ::
  "(string \<Rightarrow> string) \<Rightarrow> bool \<Rightarrow> quota \<Rightarrow> string \<Rightarrow> event list \<Rightarrow> event list" where
  "emitAuditGPUAllowedEvent qt recorder q podName evs =
     (if \<not> recorder then evs
      else evs @ [\<lparr>ev_object = (q_namespace q, q_name q), ev_type = ''Normal'', ev_reason = ''AuditGPUAllowed'',
        ev_message = ''[Audit] GPU pod '' @ qt podName
          @ '' allowed; quota would be exceeded in Enforce mode (namespace '' @ qt (q_namespace q)
          @ '', TeamInferenceQuota '' @ qt (q_name q) @ ''). '' @ spendSummary q\<rparr>])"

section \<open>Validation\<close>

fun validate_quotas ::
  "(string \<Rightarrow> string) \<Rightarrow> bool \<Rightarrow> string \<Rightarrow> quota list \<Rightarrow> event list \<Rightarrow> string option \<times> event list" where
  "validate_quotas qt recorder podName [] evs = (None, evs)"
| "validate_quotas qt recorder podName (q # qs) evs = (case phase (status q) of
     QuotaPhaseUnknown \<Rightarrow> (None, evs)
   | QuotaPhaseExceeded \<Rightarrow>
       let mode = (if enforcementMode (spec q) = ModeUnset then EnforcementModeEnforce
                   else enforcementMode (spec q))
       in if mode = EnforcementModeAudit
          then validate_quotas qt recorder podName qs (emitAuditGPUAllowedEvent qt recorder q podName evs)
          else (Some (denyMessage qt q), evs)
   | _ \<Rightarrow> validate_quotas qt recorder podName qs evs)"

definition ValidateCreate ::
  "(string \<Rightarrow> string) \<Rightarrow> bool \<Rightarrow> (string \<Rightarrow> string + quota list) \<Rightarrow> pod \<Rightarrow> event list \<Rightarrow> string option \<times> event list" where
  "ValidateCreate qt recorder list_quotas p evs =
     (if \<not> podRequestsGPU p then (None, evs)
      else case list_quotas (p_namespace p) of
        Inl _ \<Rightarrow> (None, evs)
      | Inr quotas \<Rightarrow> if quotas = [] then (None, evs)
          else validate_quotas qt recorder (p_name p) quotas evs)"

definition ValidateUpdate :: "pod \<Rightarrow> pod \<Rightarrow> string option" where
  "ValidateUpdate old new = None"

definition ValidateDelete :: "pod \<Rightarrow> string option" where
  "ValidateDelete p = None"

section \<open>The rule the webhook implements\<close>

text \<open>
  A quota decides when it is Unknown (enforcement is suspended) or Exceeded outside Audit mode.
  The first deciding quota of the list settles the request.
\<close>

definition suspends :: "quota \<Rightarrow> bool" where
  "suspends q \<longleftrightarrow> phase (status q) = QuotaPhaseUnknown"

definition audits :: "quota \<Rightarrow> bool" where
  "audits q \<longleftrightarrow> phase (status q) = QuotaPhaseExceeded \<and> enforcementMode (spec q) = EnforcementModeAudit"

definition blocks :: "quota \<Rightarrow> bool" where
  "blocks q \<longleftrightarrow> phase (status q) = QuotaPhaseExceeded \<and> enforcementMode (spec q) \<noteq> EnforcementModeAudit"

definition decides :: "quota \<Rightarrow> bool" where
  "decides q \<longleftrightarrow> suspends q \<or> blocks q"

lemma validate_quotas_rule:
  "validate_quotas qt r pn qs evs =
    ((case List.find decides qs of Some q \<Rightarrow> if blocks q then Some (denyMessage qt q) else None | None \<Rightarrow> None),
     fold (\<lambda>q. emitAuditGPUAllowedEvent qt r q pn) (filter audits (takeWhile (\<lambda>q. \<not> decides q) qs)) evs)"
  by (induction qt r pn qs evs rule: validate_quotas.induct)
    (auto simp: decides_def suspends_def blocks_def audits_def Let_def split: quota_phase.splits)

lemma fold_audit_events:
  "fold (\<lambda>q. emitAuditGPUAllowedEvent qt r q pn) qs evs =
     evs @ (if r then concat (map (\<lambda>q. emitAuditGPUAllowedEvent qt True q pn []) qs) else [])"
  by (induction qs arbitrary: evs) (simp_all add: emitAuditGPUAllowedEvent_def)

text \<open>C17 The admission decision follows one rule: the first quota of the list that is Unknown, or
  Exceeded outside Audit mode, settles it, with a denial exactly when that quota is Exceeded; and
  one audit event is sent for each Exceeded quota in Audit mode that stands before it.\<close>

theorem ValidateCreate_rule:
  assumes "podRequestsGPU p" and "list_quotas (p_namespace p) = Inr qs"
  shows "ValidateCreate qt r list_quotas p evs =
    ((case List.find decides qs of Some q \<Rightarrow> if blocks q then Some (denyMessage qt q) else None | None \<Rightarrow> None),
     evs @ (if r then concat (map (\<lambda>q. emitAuditGPUAllowedEvent qt True q (p_name p) [])
       (filter audits (takeWhile (\<lambda>q. \<not> decides q) qs))) else []))"
  using assms by (simp add: ValidateCreate_def validate_quotas_rule fold_audit_events)

definition demo_gpu_pod :: pod where
  "demo_gpu_pod = \<lparr>p_namespace = ''ml'', p_name = ''train-0'', p_labels = fmempty, p_controller = None,
     p_containers = [\<lparr>c_limits = fmupd ''nvidia.com/gpu'' \<lparr>quantity_value = 1, quantity_sign = 1\<rparr> fmempty,
       c_requests = fmempty\<rparr>],
     p_initContainers = [], p_phase = ''Pending'', p_waiting = [], p_deleted = False\<rparr>"

lemma demo_gpu_pod_requests: "podRequestsGPU demo_gpu_pod" "p_namespace demo_gpu_pod = ''ml''"
  by (simp_all add: podRequestsGPU_def demo_gpu_pod_def containerRequestsGPU_def has_quantity_def
      gpuResourceName_def quantityGreaterThanZero_def)

definition with_phase :: "quota_phase \<Rightarrow> enforcement_mode \<Rightarrow> quota \<Rightarrow> quota" where
  "with_phase ph m q = q\<lparr>status := (status q)\<lparr>phase := ph\<rparr>, spec := (spec q)\<lparr>enforcementMode := m\<rparr>\<rparr>"

lemma with_phase_decides [simp]:
  "decides (with_phase ph m q) \<longleftrightarrow>
     ph = QuotaPhaseUnknown \<or> ph = QuotaPhaseExceeded \<and> m \<noteq> EnforcementModeAudit"
  "blocks (with_phase ph m q) \<longleftrightarrow> ph = QuotaPhaseExceeded \<and> m \<noteq> EnforcementModeAudit"
  "audits (with_phase ph m q) \<longleftrightarrow> ph = QuotaPhaseExceeded \<and> m = EnforcementModeAudit"
  by (auto simp: decides_def suspends_def blocks_def audits_def with_phase_def)

theorem ValidateCreate_rule_witness:
  "fst (ValidateCreate (\<lambda>s. s) True (\<lambda>_. Inr [with_phase QuotaPhaseExceeded EnforcementModeAudit demo_quota,
      with_phase QuotaPhaseExceeded EnforcementModeEnforce demo_quota]) demo_gpu_pod [])
    = Some (denyMessage (\<lambda>s. s) (with_phase QuotaPhaseExceeded EnforcementModeEnforce demo_quota))
   \<and> length (snd (ValidateCreate (\<lambda>s. s) True (\<lambda>_. Inr [with_phase QuotaPhaseExceeded EnforcementModeAudit demo_quota,
      with_phase QuotaPhaseExceeded EnforcementModeEnforce demo_quota]) demo_gpu_pod [])) = 1"
  using ValidateCreate_rule [OF demo_gpu_pod_requests(1), of "\<lambda>_. Inr [with_phase QuotaPhaseExceeded
      EnforcementModeAudit demo_quota, with_phase QuotaPhaseExceeded EnforcementModeEnforce demo_quota]" _
      "\<lambda>s. s" True "[]"]
  by (simp add: emitAuditGPUAllowedEvent_def)

text \<open>Admission fails open: a pod is denied only if it requests a GPU, the quotas could be listed,
  and one of them is Exceeded outside Audit mode; the message is that quota's. Updates and
  deletions are never denied.\<close>

theorem denied_only_by_exceeded_quota:
  assumes "fst (ValidateCreate qt r list_quotas p evs) = Some msg"
  shows "podRequestsGPU p \<and> ValidateUpdate p p' = None \<and> ValidateDelete p = None
    \<and> (\<exists>qs q. list_quotas (p_namespace p) = Inr qs \<and> q \<in> set qs \<and> blocks q \<and> msg = denyMessage qt q)"
proof -
  obtain qs where gpu: "podRequestsGPU p" and qs: "list_quotas (p_namespace p) = Inr qs"
    using assms by (auto simp: ValidateCreate_def split: if_splits sum.splits)
  from assms gpu qs obtain q where q: "List.find decides qs = Some q" "blocks q" "msg = denyMessage qt q"
    by (auto simp: ValidateCreate_def validate_quotas_rule split: option.splits if_splits)
  then have "q \<in> set qs" by (auto elim: find_first_split)
  with gpu qs q show ?thesis by (auto simp: ValidateUpdate_def ValidateDelete_def)
qed

theorem denied_only_by_exceeded_quota_witness:
  "\<exists>q. blocks q \<and> fst (ValidateCreate (\<lambda>s. s) True (\<lambda>_. Inr [with_phase QuotaPhaseExceeded ModeUnset demo_quota])
     demo_gpu_pod []) = Some (denyMessage (\<lambda>s. s) q)"
proof -
  have d: "fst (ValidateCreate (\<lambda>s. s) True (\<lambda>_. Inr [with_phase QuotaPhaseExceeded ModeUnset demo_quota])
     demo_gpu_pod []) = Some (denyMessage (\<lambda>s. s) (with_phase QuotaPhaseExceeded ModeUnset demo_quota))"
    by (simp add: ValidateCreate_def demo_gpu_pod_requests validate_quotas_rule)
  from denied_only_by_exceeded_quota [OF d, of demo_gpu_pod]
  have "\<exists>q. blocks q \<and> denyMessage (\<lambda>s. s) (with_phase QuotaPhaseExceeded ModeUnset demo_quota)
      = denyMessage (\<lambda>s. s) q" by (elim conjE exE) (rule exI, rule conjI)
  then show ?thesis by (simp only: d option.inject)
qed

text \<open>With two quotas in a namespace the decision depends on their order in the list: an Unknown
  quota before an exceeded one lets the pod in, the same quotas in the other order deny it.\<close>

theorem admission_depends_on_order:
  "let unknown = with_phase QuotaPhaseUnknown EnforcementModeEnforce demo_quota;
       exceeded = with_phase QuotaPhaseExceeded EnforcementModeEnforce demo_quota
   in fst (ValidateCreate qt r (\<lambda>_. Inr [unknown, exceeded]) demo_gpu_pod evs) = None
    \<and> fst (ValidateCreate qt r (\<lambda>_. Inr [exceeded, unknown]) demo_gpu_pod evs) = Some (denyMessage qt exceeded)"
  by (simp add: Let_def ValidateCreate_def demo_gpu_pod_requests validate_quotas_rule)

section \<open>Counts in messages\<close>

lemma dec_no_comma: "CHR '','' \<notin> set (dec n)"
  using dec_digits by (force simp: is_digit_def less_eq_char_def)

lemma write_groups_short:
  assumes "length cs \<le> 3"
  shows "write_groups (length cs) 0 cs = cs"
proof -
  consider "cs = []" | a where "cs = [a]" | a b where "cs = [a, b]" | a b c where "cs = [a, b, c]"
    using assms by (cases cs; cases "tl cs"; cases "tl (tl cs)"; cases "tl (tl (tl cs))") simp_all
  then show ?thesis by cases simp_all
qed

text \<open>Counts in messages are the decimal numeral with separators every three digits: without its
  commas the text is the numeral of the count (0 for a negative one), and, counted from the
  right, exactly every fourth position is a comma.\<close>

theorem formatCount_grouped:
  "filter (\<lambda>c. c \<noteq> CHR '','') (formatCount n) = FormatInt (max n 0)
   \<and> list_all (\<lambda>k. rev (formatCount n) ! k = CHR '','' \<longleftrightarrow> k mod 4 = 3) [0..<length (formatCount n)]"
proof -
  define s where "s = FormatInt (if n < 0 then 0 else n)"
  have s: "s = dec (nat (max n 0))" "FormatInt (max n 0) = s" by (simp_all add: s_def FormatInt_def max_def)
  have nc: "CHR '','' \<notin> set s" by (simp add: s(1) dec_no_comma)
  have "formatCount n = write_groups (length s) 0 s"
    using write_groups_short [of s] by (simp add: formatCount_def Let_def flip: s_def)
  then show ?thesis
    using write_groups_filter [OF nc] write_groups_commas [OF nc, of "length s" 0]
    by (auto simp: s(2) list_all_iff)
qed

end
