(* ===== verification/Patch.thy ===== *)
theory Patch
  imports Kube GoTime FloatText
begin

text \<open>
  Cost annotations: \<^verbatim>\<open>internal/costpatcher/contract\<close> (the keys) and
  \<^verbatim>\<open>internal/costpatcher/platform/patch.go\<close> (formatting, the decision to patch, the patches).

  A patch is a call of the API server: it is given the object before and after the change and
  answers with an error or the stored object, which the Go client copies back into the caller's
  object. The server's state is the type variable \<open>'c\<close>.
\<close>

section \<open>Keys\<close>

definition AnnCostPerHourPerReplica :: string where
  "AnnCostPerHourPerReplica = ''kubefisher.io/cost-per-hour-per-replica''"

definition AnnCostPerHourTotal :: string where
  "AnnCostPerHourTotal = ''kubefisher.io/cost-per-hour-total''"

definition AnnCostPerHour :: string where
  "AnnCostPerHour = ''kubefisher.io/cost-per-hour''"

definition AnnCostPerToken :: string where
  "AnnCostPerToken = ''kubefisher.io/cost-per-token''"

definition AnnLastUpdated :: string where
  "AnnLastUpdated = ''kubefisher.io/last-updated-at''"

definition AnnGPUCount :: string where
  "AnnGPUCount = ''kubefisher.io/gpu-count''"

definition AnnTotalJobCostUSD :: string where
  "AnnTotalJobCostUSD = ''kubefisher.io/total-job-cost-usd''"

definition AnnPlatform :: string where
  "AnnPlatform = ''kubefisher.io/platform''"

lemmas ann_defs = AnnCostPerHourPerReplica_def AnnCostPerHourTotal_def AnnCostPerHour_def
  AnnCostPerToken_def AnnLastUpdated_def AnnGPUCount_def AnnTotalJobCostUSD_def

lemma ann_distinct [simp]:
  "AnnCostPerHourPerReplica \<noteq> AnnCostPerHourTotal" "AnnCostPerHourPerReplica \<noteq> AnnCostPerHour"
  "AnnCostPerHourPerReplica \<noteq> AnnCostPerToken" "AnnCostPerHourPerReplica \<noteq> AnnLastUpdated"
  "AnnCostPerHourPerReplica \<noteq> AnnGPUCount" "AnnCostPerHourTotal \<noteq> AnnCostPerHour"
  "AnnCostPerHourTotal \<noteq> AnnCostPerToken" "AnnCostPerHourTotal \<noteq> AnnLastUpdated"
  "AnnCostPerHourTotal \<noteq> AnnGPUCount" "AnnCostPerHour \<noteq> AnnCostPerToken"
  "AnnCostPerHour \<noteq> AnnLastUpdated" "AnnCostPerHour \<noteq> AnnGPUCount"
  "AnnCostPerToken \<noteq> AnnLastUpdated" "AnnCostPerToken \<noteq> AnnGPUCount" "AnnLastUpdated \<noteq> AnnGPUCount"
  by (simp_all add: ann_defs)

lemmas ann_neq [simp] = ann_distinct [symmetric]

section \<open>Values\<close>

record cost_result =
  CostPerHour :: "f64 option"
  CostPerToken :: "f64 option"
  GPUCount :: "int option"
  ReplicaCount :: "int option"
  LastUpdatedAt :: utc

definition formatCost :: "f64 \<Rightarrow> string" where
  "formatCost v = (let s = trim_right CHR ''.'' (trim_right CHR ''0'' (FormatFixed 12 v))
     in if s = '''' \<or> s = ''-'' then ''0'' else s)"

definition fleet_total :: "cost_result \<Rightarrow> f64 option" where
  "fleet_total res = (case (CostPerHour res, ReplicaCount res) of
     (Some c, Some n) \<Rightarrow> if 0 < n then Some (fmul c (f64_of_int n)) else None | _ \<Rightarrow> None)"

definition put_opt :: "string \<Rightarrow> string option \<Rightarrow> smap \<Rightarrow> smap" where
  "put_opt k v m = (case v of None \<Rightarrow> m | Some s \<Rightarrow> fmupd k s m)"

lemma put_opt_get [simp]:
  "mget (put_opt k v m) k' = (if k' = k \<and> v \<noteq> None then the v else mget m k')"
  "mhas (put_opt k v m) k' = (k' = k \<and> v \<noteq> None \<or> mhas m k')"
  by (auto simp: put_opt_def split: option.splits)

definition buildAnnotations :: "cost_result \<Rightarrow> smap" where
  "buildAnnotations res =
    (let perReplica = map_option formatCost (CostPerHour res);
         out1 = put_opt AnnCostPerHourPerReplica perReplica fmempty;
         out2 = put_opt AnnCostPerHour perReplica out1;
         out3 = put_opt AnnCostPerHourTotal (map_option formatCost (fleet_total res)) out2;
         out4 = put_opt AnnCostPerToken (map_option formatCost (CostPerToken res)) out3;
         out5 = put_opt AnnGPUCount (map_option FormatInt (GPUCount res)) out4
     in fmupd AnnLastUpdated (FormatRFC3339 (LastUpdatedAt res)) out5)"

definition differs :: "smap \<Rightarrow> string \<Rightarrow> string option \<Rightarrow> bool" where
  "differs existing k want = (case want of None \<Rightarrow> False | Some v \<Rightarrow> mget existing k \<noteq> v)"

definition shouldPatchCostAnnotations :: "smap \<Rightarrow> cost_result \<Rightarrow> bool" where
  "shouldPatchCostAnnotations existing res \<longleftrightarrow>
     differs existing AnnCostPerHourPerReplica (map_option formatCost (CostPerHour res))
   \<or> differs existing AnnCostPerHour (map_option formatCost (CostPerHour res))
   \<or> differs existing AnnCostPerHourTotal (map_option formatCost (fleet_total res))
   \<or> (case CostPerToken res of
        Some v \<Rightarrow> mget existing AnnCostPerToken \<noteq> formatCost v
      | None \<Rightarrow> mhas existing AnnCostPerToken)
   \<or> differs existing AnnGPUCount (map_option FormatInt (GPUCount res))"

section \<open>Patches\<close>

type_synonym 'c patch_api = "'c \<Rightarrow> kobject \<Rightarrow> kobject \<Rightarrow> (string + kobject) \<times> 'c"

definition GetAnnotations :: "kobject \<Rightarrow> smap" where
  "GetAnnotations t = (case t of KDeployment r \<Rightarrow> r_annotations r | KStatefulSet r \<Rightarrow> r_annotations r
     | KUnstructured u \<Rightarrow> u_annotations u | KOther ty anns \<Rightarrow> anns)"

definition SetAnnotations :: "smap \<Rightarrow> kobject \<Rightarrow> kobject" where
  "SetAnnotations anns t = (case t of
     KDeployment r \<Rightarrow> KDeployment (r\<lparr>r_annotations := anns\<rparr>)
   | KStatefulSet r \<Rightarrow> KStatefulSet (r\<lparr>r_annotations := anns\<rparr>)
   | KUnstructured u \<Rightarrow> KUnstructured (u\<lparr>u_annotations := anns\<rparr>)
   | KOther ty _ \<Rightarrow> KOther ty anns)"

definition patch_supported :: "'c patch_api \<Rightarrow> kobject \<Rightarrow> kobject \<Rightarrow> 'c \<Rightarrow> (string + kobject) \<times> 'c" where
  "patch_supported api orig target c = (case target of
     KOther ty _ \<Rightarrow> (Inl (''unsupported patch target type '' @ ty), c)
   | _ \<Rightarrow> api c orig target)"

definition RemoveCostAnnotations ::
  "'c patch_api \<Rightarrow> kobject \<Rightarrow> string list \<Rightarrow> 'c \<Rightarrow> (string + kobject) \<times> 'c" where
  "RemoveCostAnnotations api target keys c = (let anns = GetAnnotations target in
     if \<not> list_ex (mhas anns) keys then (Inr target, c)
     else patch_supported api target (SetAnnotations (mdrop_keys keys anns) target) c)"

definition updated_annotations :: "smap \<Rightarrow> cost_result \<Rightarrow> smap" where
  "updated_annotations anns res = (let m = anns ++\<^sub>f buildAnnotations res
     in if CostPerToken res = None then fmdrop AnnCostPerToken m else m)"

definition PatchTargetAnnotations ::
  "'c patch_api \<Rightarrow> kobject \<Rightarrow> cost_result \<Rightarrow> 'c \<Rightarrow> (string + kobject) \<times> 'c" where
  "PatchTargetAnnotations api target res c =
    (if \<not> shouldPatchCostAnnotations (GetAnnotations target) res then (Inr target, c)
     else patch_supported api target
       (SetAnnotations (updated_annotations (GetAnnotations target) res) target) c)"

section \<open>Facts about annotations\<close>

lemma Get_SetAnnotations [simp]: "GetAnnotations (SetAnnotations m t) = m"
  by (simp add: GetAnnotations_def SetAnnotations_def split: kobject.split)

lemma build_has:
  "mhas (buildAnnotations res) k \<longleftrightarrow>
     (k = AnnCostPerHourPerReplica \<or> k = AnnCostPerHour) \<and> CostPerHour res \<noteq> None
   \<or> k = AnnCostPerHourTotal \<and> fleet_total res \<noteq> None
   \<or> k = AnnCostPerToken \<and> CostPerToken res \<noteq> None
   \<or> k = AnnGPUCount \<and> GPUCount res \<noteq> None \<or> k = AnnLastUpdated"
  by (auto simp: buildAnnotations_def Let_def)

lemma build_get:
  "mget (buildAnnotations res) k =
    (if k = AnnLastUpdated then FormatRFC3339 (LastUpdatedAt res)
     else if k = AnnGPUCount \<and> GPUCount res \<noteq> None then FormatInt (the (GPUCount res))
     else if k = AnnCostPerToken \<and> CostPerToken res \<noteq> None then formatCost (the (CostPerToken res))
     else if k = AnnCostPerHourTotal \<and> fleet_total res \<noteq> None then formatCost (the (fleet_total res))
     else if (k = AnnCostPerHour \<or> k = AnnCostPerHourPerReplica) \<and> CostPerHour res \<noteq> None
       then formatCost (the (CostPerHour res))
     else '''')"
  by (auto simp: buildAnnotations_def Let_def option.map_sel)

lemma updated_get:
  "mget (updated_annotations anns res) k =
    (if k = AnnCostPerToken \<and> CostPerToken res = None then ''''
     else if mhas (buildAnnotations res) k then mget (buildAnnotations res) k else mget anns k)"
  by (simp add: updated_annotations_def Let_def mget_add)

lemma updated_has:
  "mhas (updated_annotations anns res) k \<longleftrightarrow>
     \<not> (k = AnnCostPerToken \<and> CostPerToken res = None) \<and> (mhas anns k \<or> mhas (buildAnnotations res) k)"
  by (auto simp: updated_annotations_def Let_def)

lemma updated_current: "\<not> shouldPatchCostAnnotations (updated_annotations anns res) (res\<lparr>LastUpdatedAt := t\<rparr>)"
  by (auto simp: shouldPatchCostAnnotations_def differs_def updated_get updated_has build_has build_get
      fleet_total_def split: option.splits)

lemma formatCost_nonempty [simp]: "formatCost v \<noteq> ''''"
  by (simp add: formatCost_def Let_def)

text \<open>What the API server promises about annotations: a successful patch stores what was sent.\<close>

definition stores_annotations :: "'c patch_api \<Rightarrow> bool" where
  "stores_annotations api \<longleftrightarrow> (\<forall>c orig t t' c'. api c orig t = (Inr t', c')
     \<longrightarrow> GetAnnotations t' = GetAnnotations t)"

definition demo_patch :: "nat patch_api" where
  "demo_patch c orig t = (Inr t, Suc c)"

lemma demo_stores: "stores_annotations demo_patch"
  by (simp add: stores_annotations_def demo_patch_def)

definition demo_result :: cost_result where
  "demo_result = \<lparr>CostPerHour = Some (f64_of_int 2), CostPerToken = None, GPUCount = Some 1,
     ReplicaCount = Some 3, LastUpdatedAt = \<lparr>year = 2026, month = 3, day = 1, sec = 0, nsec = 0\<rparr>\<rparr>"

definition demo_target :: kobject where
  "demo_target = KDeployment \<lparr>r_namespace = ''ml'', r_name = ''llm'',
     r_annotations = fmupd AnnCostPerToken ''0.5'' (fmupd ''owner'' ''me'' fmempty),
     r_readyReplicas = 3, r_specReplicas = Some 3\<rparr>"

lemma demo_should: "shouldPatchCostAnnotations (GetAnnotations demo_target) demo_result"
  by (simp add: shouldPatchCostAnnotations_def demo_target_def demo_result_def GetAnnotations_def mhas_def)

lemma demo_patched: "PatchTargetAnnotations demo_patch demo_target demo_result 0 =
    (Inr (SetAnnotations (updated_annotations (GetAnnotations demo_target) demo_result) demo_target), 1)"
  by (simp add: PatchTargetAnnotations_def demo_should)
    (simp add: patch_supported_def demo_target_def SetAnnotations_def demo_patch_def)

text \<open>C21 Patching is idempotent: once a target has been patched with a result, the same result at any
  later time changes nothing and makes no call, so the last-updated time moves only when a value does.\<close>

theorem PatchTargetAnnotations_idempotent:
  assumes "stores_annotations api" and "PatchTargetAnnotations api target res c = (Inr target', c')"
  shows "PatchTargetAnnotations api target' (res\<lparr>LastUpdatedAt := later\<rparr>) c'' = (Inr target', c'')"
proof (cases "shouldPatchCostAnnotations (GetAnnotations target) res")
  case True
  then have "GetAnnotations target' = updated_annotations (GetAnnotations target) res"
    using assms unfolding PatchTargetAnnotations_def patch_supported_def stores_annotations_def
    by (auto split: kobject.splits) (metis Get_SetAnnotations)+
  then show ?thesis by (simp add: PatchTargetAnnotations_def updated_current)
next
  case False
  then have "\<not> shouldPatchCostAnnotations (GetAnnotations target) (res\<lparr>LastUpdatedAt := later\<rparr>)"
    by (simp add: shouldPatchCostAnnotations_def fleet_total_def)
  then show ?thesis using assms(2) False by (simp add: PatchTargetAnnotations_def)
qed

theorem PatchTargetAnnotations_idempotent_witness:
  "snd (PatchTargetAnnotations demo_patch
     (SetAnnotations (updated_annotations (GetAnnotations demo_target) demo_result) demo_target)
     (demo_result\<lparr>LastUpdatedAt := \<lparr>year = 2026, month = 4, day = 1, sec = 0, nsec = 0\<rparr>\<rparr>) 1) = 1"
  using PatchTargetAnnotations_idempotent [OF demo_stores demo_patched] by simp

text \<open>C22 Patching makes the target carry the result, whether or not a patch is needed: afterwards both hourly keys hold
  the formatted cost per replica, the fleet total is that cost times a positive replica count, the GPU count is the
  decimal numeral, the token cost is there exactly when the result has one; a value the result does not have keeps
  what was there, and so does every annotation that is no cost key. Without a patch nothing at all changes; with one
  the update time is the result's.\<close>

theorem PatchTargetAnnotations_effect:
  fixes target' :: kobject
  assumes "stores_annotations api" and "PatchTargetAnnotations api target res c = (Inr target', c')"
  defines "old \<equiv> GetAnnotations target" and "new \<equiv> GetAnnotations target'"
  shows "(case CostPerHour res of
       None \<Rightarrow> mget new AnnCostPerHour = mget old AnnCostPerHour
         \<and> mget new AnnCostPerHourPerReplica = mget old AnnCostPerHourPerReplica
         \<and> mget new AnnCostPerHourTotal = mget old AnnCostPerHourTotal
     | Some x \<Rightarrow> mget new AnnCostPerHour = formatCost x \<and> mget new AnnCostPerHourPerReplica = formatCost x
         \<and> mget new AnnCostPerHourTotal = (case ReplicaCount res of
             Some n \<Rightarrow> if 0 < n then formatCost (fmul x (f64_of_int n)) else mget old AnnCostPerHourTotal
           | None \<Rightarrow> mget old AnnCostPerHourTotal))
    \<and> (case CostPerToken res of None \<Rightarrow> \<not> mhas new AnnCostPerToken | Some x \<Rightarrow> mget new AnnCostPerToken = formatCost x)
    \<and> mget new AnnGPUCount = (case GPUCount res of Some n \<Rightarrow> FormatInt n | None \<Rightarrow> mget old AnnGPUCount)
    \<and> (k \<notin> {AnnCostPerHour, AnnCostPerHourPerReplica, AnnCostPerHourTotal, AnnCostPerToken, AnnGPUCount, AnnLastUpdated}
        \<longrightarrow> fmlookup new k = fmlookup old k)
    \<and> (target' = target \<and> c' = c \<or> mget new AnnLastUpdated = FormatRFC3339 (LastUpdatedAt res))"
proof (cases "shouldPatchCostAnnotations old res")
  case True
  then have new: "new = updated_annotations old res"
    using assms(1,2) unfolding old_def new_def PatchTargetAnnotations_def patch_supported_def stores_annotations_def
    by (auto split: kobject.splits) (metis Get_SetAnnotations)+
  have "fmlookup new k = fmlookup old k"
    if "k \<notin> {AnnCostPerHour, AnnCostPerHourPerReplica, AnnCostPerHourTotal, AnnCostPerToken, AnnGPUCount, AnnLastUpdated}"
    using that unfolding new updated_annotations_def Let_def
    by (auto simp: fmlookup_dom_iff buildAnnotations_def put_opt_def split: option.splits)
  moreover have "mget new AnnLastUpdated = FormatRFC3339 (LastUpdatedAt res)"
    by (simp add: new updated_get build_has build_get)
  ultimately show ?thesis
    by (simp add: new updated_get updated_has build_has build_get fleet_total_def split: option.split)
next
  case False
  then have "target' = target" "c' = c" using assms(2) by (simp_all add: PatchTargetAnnotations_def old_def)
  with False show ?thesis
    by (auto simp: new_def old_def shouldPatchCostAnnotations_def differs_def fleet_total_def split: option.splits if_splits)
qed

theorem PatchTargetAnnotations_effect_witness:
  "mget (updated_annotations (GetAnnotations demo_target) demo_result) AnnCostPerHour = formatCost (f64_of_int 2)
   \<and> mget (updated_annotations (GetAnnotations demo_target) demo_result) AnnCostPerHourTotal
     = formatCost (fmul (f64_of_int 2) (f64_of_int 3))
   \<and> fmlookup (updated_annotations (GetAnnotations demo_target) demo_result) ''owner'' = fmlookup (GetAnnotations demo_target) ''owner''"
  using PatchTargetAnnotations_effect [OF demo_stores demo_patched, of "''owner''"]
  by (simp add: demo_result_def) (simp add: ann_defs)

text \<open>A result without a replica count leaves an old fleet total in place next to the new hourly
  cost: the total shown no longer belongs to the cost it stands beside.\<close>

theorem stale_fleet_total:
  assumes "ReplicaCount res = None" and "CostPerHour res = Some c"
  shows "mget (updated_annotations anns res) AnnCostPerHour = formatCost c
    \<and> mget (updated_annotations anns res) AnnCostPerHourTotal = mget anns AnnCostPerHourTotal"
  using assms by (simp add: updated_get build_has build_get fleet_total_def)

theorem stale_fleet_total_witness:
  "mget (updated_annotations (fmupd AnnCostPerHourTotal ''12.5'' fmempty)
     (demo_result\<lparr>CostPerHour := Some fzero, ReplicaCount := None\<rparr>)) AnnCostPerHourTotal = ''12.5''"
  using stale_fleet_total [of "demo_result\<lparr>CostPerHour := Some fzero, ReplicaCount := None\<rparr>" fzero
    "fmupd AnnCostPerHourTotal ''12.5'' fmempty"]
  by simp

text \<open>Removing annotations removes exactly the given keys, and makes no call when none is present.\<close>

theorem RemoveCostAnnotations_exact:
  assumes "stores_annotations api" and "RemoveCostAnnotations api target keys c = (Inr target', c')"
  shows "fmlookup (GetAnnotations target') k = (if k \<in> set keys then None else fmlookup (GetAnnotations target) k)
    \<and> (if list_ex (mhas (GetAnnotations target)) keys then True else c' = c \<and> target' = target)"
proof (cases "list_ex (mhas (GetAnnotations target)) keys")
  case True
  then have "GetAnnotations target' = mdrop_keys keys (GetAnnotations target)"
    using assms unfolding RemoveCostAnnotations_def patch_supported_def stores_annotations_def
    by (auto simp: Let_def split: kobject.splits) (metis Get_SetAnnotations)+
  then show ?thesis using True by simp
next
  case False
  then have "k \<in> set keys \<Longrightarrow> fmlookup (GetAnnotations target) k = None"
    by (auto simp: list_ex_iff mhas_def)
  then show ?thesis using assms(2) False by (auto simp: RemoveCostAnnotations_def Let_def)
qed

theorem RemoveCostAnnotations_exact_witness:
  "case fst (RemoveCostAnnotations demo_patch demo_target [AnnCostPerToken] 0) of
     Inr t \<Rightarrow> fmlookup (GetAnnotations t) AnnCostPerToken = None | Inl _ \<Rightarrow> False"
proof -
  have "list_ex (mhas (GetAnnotations demo_target)) [AnnCostPerToken]"
    by (simp add: demo_target_def GetAnnotations_def)
  then have r: "RemoveCostAnnotations demo_patch demo_target [AnnCostPerToken] 0 =
      (Inr (SetAnnotations (mdrop_keys [AnnCostPerToken] (GetAnnotations demo_target)) demo_target), 1)"
    by (simp add: RemoveCostAnnotations_def Let_def)
      (simp add: patch_supported_def demo_target_def SetAnnotations_def demo_patch_def)
  from RemoveCostAnnotations_exact [OF demo_stores r, of AnnCostPerToken] show ?thesis by (simp add: r)
qed

section \<open>Formatted costs\<close>

lemma digits_val_zeros [simp]: "digits_val (replicate k CHR ''0'') = 0"
proof (induction k)
  case (Suc k)
  have "replicate (Suc k) CHR ''0'' = replicate k CHR ''0'' @ [CHR ''0'']" by (simp add: replicate_append_same)
  then show ?case using Suc by (simp add: digit_val_def)
qed simp

lemma trim_zeros_value:
  "\<exists>k. fs = trim_right CHR ''0'' fs @ replicate k CHR ''0'' \<and>
     digits_val (ds @ fs) = digits_val (ds @ trim_right CHR ''0'' fs) * 10 ^ k"
proof -
  obtain k where k: "fs = trim_right CHR ''0'' fs @ replicate k CHR ''0''"
    using trim_right_decomp by blast
  have "digits_val (ds @ fs) = digits_val ((ds @ trim_right CHR ''0'' fs) @ replicate k CHR ''0'')"
    using k by simp
  also have "\<dots> = digits_val (ds @ trim_right CHR ''0'' fs) * 10 ^ k"
    by (subst digits_val_append) simp
  finally show ?thesis using k by blast
qed

lemma digits_trim: "digits fs \<Longrightarrow> digits (trim_right c fs)"
  by (metis digits_append trim_right_decomp)

lemma trim_right_not_last: "s \<noteq> [] \<Longrightarrow> last s \<noteq> c \<Longrightarrow> trim_right c s = s"
  by (cases s rule: rev_cases) simp_all

lemma dropWhile_replicate_append: "dropWhile (\<lambda>x. x = c) (replicate k c @ s) = dropWhile (\<lambda>x. x = c) s"
  by (induction k) simp_all

text \<open>Trimming a fixed-point numeral gives a numeral again, so the empty-text guard is dead code.\<close>

lemma trim_numeral:
  assumes "digits ds" and "ds \<noteq> []" and "digits fs"
  defines "t \<equiv> trim_right CHR ''0'' fs"
  shows "trim_right CHR ''.'' (trim_right CHR ''0'' (numeral_text neg ds (Some fs))) =
    numeral_text neg ds (if t = [] then None else Some t)"
proof -
  let ?p = "(if neg then ''-'' else '''') @ ds"
  have dot: "trim_right CHR ''0'' (CHR ''.'' # fs) = CHR ''.'' # t"
  proof (cases "t = []")
    case True
    then obtain k where "fs = replicate k CHR ''0''" using trim_right_decomp [of fs "CHR ''0''"] t_def by auto
    then show ?thesis using True by (simp add: trim_right_def t_def dropWhile_replicate_append)
  next
    case False
    then show ?thesis using trim_right_append_other [of "CHR ''0''" fs "[CHR ''.'']"] by (simp add: t_def)
  qed
  have "numeral_text neg ds (Some fs) = ?p @ (CHR ''.'' # fs)" by (simp add: numeral_text_def)
  then have z: "trim_right CHR ''0'' (numeral_text neg ds (Some fs)) = ?p @ CHR ''.'' # t"
    using dot by (simp only: trim_right_append_other [of "CHR ''0''" "CHR ''.'' # fs" ?p])
      (metis dot list.distinct(1) trim_right_append_other)
  show ?thesis
  proof (cases "t = []")
    case True
    have "is_digit (last ds)" using assms(1,2) by (simp add: digits_def)
    then have "?p \<noteq> []" "last ?p \<noteq> CHR ''.''" using assms(2) by auto
    then have "trim_right CHR ''.'' ?p = ?p" by (rule trim_right_not_last)
    then have "trim_right CHR ''.'' (?p @ [CHR ''.'']) = ?p" by (simp only: trim_right_snoc simp_thms if_True)
    with True show ?thesis by (simp only: z) (simp add: numeral_text_def)
  next
    case False
    then have "last (?p @ CHR ''.'' # t) \<noteq> CHR ''.''"
      using digits_trim [OF assms(3), of "CHR ''0''"]
      by (auto simp: t_def digits_def dest!: last_in_set)
    then have "trim_right CHR ''.'' (?p @ CHR ''.'' # t) = ?p @ CHR ''.'' # t"
      by (intro trim_right_not_last) simp_all
    with False show ?thesis by (simp only: z) (simp add: numeral_text_def)
  qed
qed

lemma formatCost_numeral:
  "\<exists>t k. formatCost (Fin s q) = numeral_text s (dec (scaled 12 q div 10 ^ 12)) (if t = [] then None else Some t)
     \<and> digits t \<and> length t + k = 12
     \<and> scaled 12 q = digits_val (dec (scaled 12 q div 10 ^ 12) @ t) * 10 ^ k"
proof -
  let ?n = "scaled 12 q"
  let ?ds = "dec (?n div 10 ^ 12)" and ?fs = "decw 12 (?n mod 10 ^ 12)"
  let ?t = "trim_right CHR ''0'' ?fs"
  obtain k where k: "?fs = ?t @ replicate k CHR ''0''"
      "digits_val (?ds @ ?fs) = digits_val (?ds @ ?t) * 10 ^ k"
    using trim_zeros_value [of ?fs ?ds] by blast
  have "digits_val (?ds @ ?fs) = ?n" by (rule digits_val_fixed)
  moreover have "length ?t + k = 12" using arg_cong [OF k(1), of length] by simp
  moreover have "trim_right CHR ''.'' (trim_right CHR ''0'' (FormatFixed 12 (Fin s q))) =
      numeral_text s ?ds (if ?t = [] then None else Some ?t)"
    unfolding FormatFixed_numeral by (simp add: trim_numeral)
  moreover have "numeral_text s ?ds x \<noteq> ''''" "numeral_text s ?ds x \<noteq> ''-''" for x
    using hd_dec_digit [of "?n div 10 ^ 12"]
    by (cases "?ds"; cases s; auto simp: numeral_text_def split: option.splits)+
  ultimately show ?thesis
    using k(2) digits_trim [OF digits_decw [of 12 "?n mod 10 ^ 12"], of "CHR ''0''"]
    by (intro exI [of _ ?t] exI [of _ k]) (simp add: formatCost_def Let_def)
qed

text \<open>The number an annotation carries for a cost: the float64 nearest its twelve-decimal rounding.\<close>

definition annotated :: "f64 \<Rightarrow> f64" where
  "annotated x = (case x of Fin s q \<Rightarrow> Fin s (rnd (of_nat (scaled 12 q) / 10 ^ 12)) | _ \<Rightarrow> x)"

lemma ParseFloat_formatCost:
  assumes "f64_ok (Fin s q)"
  shows "ParseFloat (formatCost (Fin s q)) = Some (Fin s (rnd (of_nat (scaled 12 q) / 10 ^ 12)))"
proof -
  obtain t k where t: "formatCost (Fin s q) =
      numeral_text s (dec (scaled 12 q div 10 ^ 12)) (if t = [] then None else Some t)"
    "digits t" "length t + k = 12"
    "scaled 12 q = digits_val (dec (scaled 12 q div 10 ^ 12) @ t) * 10 ^ k"
    using formatCost_numeral by blast
  let ?fs = "if t = [] then None else Some t"
  let ?N = "digits_val (dec (scaled 12 q div 10 ^ 12) @ t)"
  have fs: "frac_digits ?fs = t" by (simp add: frac_digits_def)
  have "(of_nat (scaled 12 q) :: rat) = of_nat ?N * 10 ^ k"
    using arg_cong [OF t(4), of "of_nat :: nat \<Rightarrow> rat"] by simp
  moreover have "(10 :: rat) ^ 12 = 10 ^ length t * 10 ^ k" using t(3) by (simp flip: power_add)
  ultimately have "of_nat (scaled 12 q) / 10 ^ 12 = (of_nat ?N * 10 ^ k / (10 ^ length t * 10 ^ k) :: rat)"
    by (simp only:)
  then have v: "of_nat (scaled 12 q) / 10 ^ 12 = (of_nat ?N / 10 ^ length t :: rat)" by simp
  show ?thesis
    unfolding t(1)
  proof (rule ParseFloat_numeral)
    show "rnd (of_nat (scaled 12 q) / 10 ^ 12) < pow2 1024"
      using scaled_bound [of q 12] assms by (simp add: f64_ok_def)
    show "of_nat (scaled 12 q) / 10 ^ 12 =
        (of_nat (digits_val (dec (scaled 12 q div 10 ^ 12) @ frac_digits ?fs)) / 10 ^ length (frac_digits ?fs) :: rat)"
      unfolding fs by (rule v)
  qed (simp_all add: fs t(2))
qed

text \<open>A cost annotation reads back as the cost to twelve decimals: parsing the written text gives
  the float64 nearest the cost rounded at the twelfth decimal, an error of at most half a unit there.\<close>

theorem formatCost_roundtrip:
  assumes "f64_ok (Fin s q)"
  shows "ParseFloat (formatCost (Fin s q)) = Some (Fin s (rnd (of_nat (scaled 12 q) / 10 ^ 12)))
    \<and> \<bar>of_nat (scaled 12 q) / 10 ^ 12 - q\<bar> \<le> 1 / (2 * 10 ^ 12)"
  using ParseFloat_formatCost [OF assms] scaled_error [of q 12] assms by (simp add: f64_ok_def)

theorem formatCost_roundtrip_witness: "ParseFloat (formatCost (f64_of_int 3)) = Some (f64_of_int 3)"
proof -
  have q: "f64_of_int 3 = Fin False 3" by (simp add: f64_simps)
  have "f64_ok (Fin False 3)" using f64_of_int_ok [of 3] by (simp only: q)
  from formatCost_roundtrip [OF this] show ?thesis
    using scaled_int [of 12 3] rnd_int [of 3] by (simp add: q)
qed

end
