(* ===== verification/CostTable.thy ===== *)
theory CostTable
  imports Patch
begin

text \<open>
  The cost table of the command line, \<^verbatim>\<open>internal/cost\<close>: which typed workloads get a row, the
  platform and type shown, the GPU count, the costs read back from the annotations, the monthly
  estimate and the text of the money columns.

  Unstructured workloads (KServe, Bento, training, Ray), CRD discovery and the output follow in \<open>CostCollect\<close>.
\<close>

section \<open>Rows\<close>

record cost_row =
  cr_namespace :: string
  cr_name :: string
  cr_platform :: string
  cr_workloadType :: string
  cr_workloadKind :: string
  cr_gpuCount :: int
  cr_replicas :: int
  cr_costPerHour :: "f64 option"
  cr_costPerHourTotal :: "f64 option"
  cr_costPerToken :: "f64 option"
  cr_lastUpdated :: string

definition MonthlyEst :: "cost_row \<Rightarrow> f64" where
  "MonthlyEst r = (case cr_costPerHourTotal r of
     Some t \<Rightarrow> fmul t (f64_of_int 720)
   | None \<Rightarrow> (case cr_costPerHour r of Some c \<Rightarrow> fmul c (f64_of_int 720) | None \<Rightarrow> fzero))"

section \<open>Platforms\<close>

definition normalizePlatform :: "string \<Rightarrow> string" where
  "normalizePlatform p = (let q = lower_to_ascii (TrimSpace p) in
     if q = ''kserve'' then ''kserve''
     else if q = ''bentoml'' then ''bentoml''
     else if q = ''kubeflow-trainer'' then ''kubeflow-trainer''
     else if q = ''kubeflow-training'' \<or> q = ''kubeflow'' then ''kubeflow-training''
     else if q = ''ray-serve'' then ''ray-serve''
     else if q = ''ray'' then ''ray''
     else if q = ''vllm'' then ''vllm''
     else if q = ''triton'' then ''triton''
     else ''unknown'')"

definition workloadTypeForPlatform :: "string \<Rightarrow> string" where
  "workloadTypeForPlatform p = (let q = normalizePlatform p in
     if q = ''kubeflow-trainer'' \<or> q = ''kubeflow-training'' \<or> q = ''ray'' then ''training'' else ''inference'')"

definition platform_of_kind :: "string \<Rightarrow> (string \<times> string) option" where
  "platform_of_kind kind =
     (if kind = ''InferenceService'' then Some (''kserve'', ''inference'')
      else if kind = ''BentoDeployment'' then Some (''bentoml'', ''inference'')
      else if kind = ''TrainJob'' then Some (''kubeflow-trainer'', ''training'')
      else if kind = ''PyTorchJob'' \<or> kind = ''TFJob'' \<or> kind = ''XGBoostJob'' \<or> kind = ''MPIJob'' \<or> kind = ''PaddleJob''
        then Some (''kubeflow-training'', ''training'')
      else if kind = ''RayService'' then Some (''ray-serve'', ''inference'')
      else if kind = ''RayJob'' \<or> kind = ''RayCluster'' then Some (''ray'', ''training'')
      else None)"

definition platform_of_labels :: "smap \<Rightarrow> (string \<times> string) option" where
  "platform_of_labels l =
     (if mget l ''serving.kserve.io/inferenceservice'' \<noteq> '''' then Some (''kserve'', ''inference'')
      else if mget l ''trainer.kubeflow.org/trainjob-ancestor-step'' \<noteq> ''''
          \<or> mget l ''trainer.kubeflow.org/trainjob-name'' \<noteq> '''' then Some (''kubeflow-trainer'', ''training'')
      else if mget l ''training.kubeflow.org/job-name'' \<noteq> ''''
          \<or> mget l ''training.kubeflow.org/replica-type'' \<noteq> '''' then Some (''kubeflow-training'', ''training'')
      else if mget l ''ray.io/serve-deployment'' \<noteq> '''' then Some (''ray-serve'', ''inference'')
      else if mget l ''ray.io/cluster-name'' \<noteq> '''' \<or> mget l ''ray.io/node-type'' \<noteq> '''' then Some (''ray'', ''training'')
      else if mget l ''yatai.bentoml.com/bento-deployment'' \<noteq> '''' then Some (''bentoml'', ''inference'')
      else if mget l ''app.kubernetes.io/managed-by'' = ''bentoml-yatai'' then Some (''bentoml'', ''inference'')
      else if mget l ''app'' = ''vllm'' \<or> mget l ''app.kubernetes.io/name'' = ''vllm'' then Some (''vllm'', ''inference'')
      else None)"

definition DetectPlatform :: "smap \<Rightarrow> smap \<Rightarrow> string \<Rightarrow> string \<times> string" where
  "DetectPlatform labels annotations kind = (case platform_of_kind (TrimSpace kind) of Some r \<Rightarrow> r
   | None \<Rightarrow> (case platform_of_labels labels of Some r \<Rightarrow> r
     | None \<Rightarrow>
         let p = TrimSpace (mget annotations AnnPlatform); q = TrimSpace (mget labels AnnPlatform) in
         if p \<noteq> '''' then (normalizePlatform p, workloadTypeForPlatform p)
         else if q \<noteq> '''' then (normalizePlatform q, workloadTypeForPlatform q)
         else (''unknown'', ''inference'')))"

section \<open>GPU counts\<close>

record pod_spec =
  ps_containers :: "container list"
  ps_initContainers :: "container list"

definition gpuQty :: "resource_list \<Rightarrow> int" where
  "gpuQty rl = (case fmlookup rl ''nvidia.com/gpu'' of None \<Rightarrow> 0 | Some q \<Rightarrow> quantity_value q)"

definition gpusPerPod :: "pod_spec \<Rightarrow> int" where
  "gpusPerPod spec =
    (let add = (\<lambda>c total. i64 (total + i64 (gpuQty (c_limits c) + gpuQty (c_requests c))));
         total = fold add (ps_initContainers spec) (fold add (ps_containers spec) 0)
     in if 0 < total then total else 0)"

definition podSpecRequestsGPU :: "pod_spec \<Rightarrow> bool" where
  "podSpecRequestsGPU spec \<longleftrightarrow> 0 < gpusPerPod spec"

section \<open>Collecting typed workloads\<close>

record typed_workload =
  tw_namespace :: string
  tw_name :: string
  tw_labels :: smap
  tw_annotations :: smap
  tw_replicas :: "int option"
  tw_template_labels :: smap
  tw_spec :: pod_spec

definition isKServeChildDeployment :: "typed_workload \<Rightarrow> bool" where
  "isKServeChildDeployment d \<longleftrightarrow> mget (tw_template_labels d) ''serving.kserve.io/inferenceservice'' \<noteq> ''''"

definition isBentoChildDeployment :: "typed_workload \<Rightarrow> bool" where
  "isBentoChildDeployment d \<longleftrightarrow> mget (tw_template_labels d) ''yatai.bentoml.com/bento-deployment'' \<noteq> ''''"

definition hasCostAnnotation :: "smap \<Rightarrow> bool" where
  "hasCostAnnotation anns \<longleftrightarrow>
     mhas anns AnnCostPerHourPerReplica \<or> mhas anns AnnCostPerHour \<or> mhas anns AnnCostPerToken"

definition shouldIncludeWorkload :: "smap \<Rightarrow> pod_spec \<Rightarrow> bool" where
  "shouldIncludeWorkload anns spec \<longleftrightarrow> hasCostAnnotation anns \<or> podSpecRequestsGPU spec"

definition replicaCount :: "int option \<Rightarrow> int" where
  "replicaCount r = (case r of None \<Rightarrow> 1 | Some n \<Rightarrow> n)"

definition read_cost :: "smap \<Rightarrow> string \<Rightarrow> f64 option" where
  "read_cost anns k = (if mhas anns k \<and> TrimSpace (mget anns k) \<noteq> ''''
     then ParseFloat (TrimSpace (mget anns k)) else None)"

definition costAnnotationsFromMap ::
  "smap \<Rightarrow> f64 option \<times> f64 option \<times> f64 option \<times> string" where
  "costAnnotationsFromMap anns =
    (let cphKey = (if mhas anns AnnCostPerHourPerReplica then AnnCostPerHourPerReplica else AnnCostPerHour)
     in (read_cost anns cphKey, read_cost anns AnnCostPerToken, read_cost anns AnnCostPerHourTotal,
         mget anns AnnLastUpdated))"

type_synonym row_map = "(string \<times> string \<times> string, cost_row) fmap"

definition addWorkloadRow ::
  "string \<Rightarrow> string \<Rightarrow> string \<Rightarrow> smap \<Rightarrow> smap \<Rightarrow> smap \<Rightarrow> int \<Rightarrow> pod_spec \<Rightarrow> row_map \<Rightarrow> row_map" where
  "addWorkloadRow ns name kind objLabels anns templateLabels replicas spec byKey =
    (let key = (ns, kind, name) in
     if fmlookup byKey key \<noteq> None then byKey
     else case DetectPlatform (objLabels ++\<^sub>f templateLabels) anns kind of (platform, workloadType) \<Rightarrow>
       case costAnnotationsFromMap anns of (cph, cpt, cphTotal, updated) \<Rightarrow>
         fmupd key \<lparr>cr_namespace = ns, cr_name = name, cr_platform = platform, cr_workloadType = workloadType,
           cr_workloadKind = kind, cr_gpuCount = i64 (replicas * gpusPerPod spec), cr_replicas = replicas,
           cr_costPerHour = cph, cr_costPerHourTotal = cphTotal, cr_costPerToken = cpt,
           cr_lastUpdated = updated\<rparr> byKey)"

definition collectDeployments :: "string + typed_workload list \<Rightarrow> row_map \<Rightarrow> string + row_map" where
  "collectDeployments listed byKey = (case listed of
     Inl err \<Rightarrow> Inl (''list deployments: '' @ err)
   | Inr items \<Rightarrow> Inr (fold (\<lambda>d m.
       if isKServeChildDeployment d \<or> isBentoChildDeployment d then m
       else if \<not> shouldIncludeWorkload (tw_annotations d) (tw_spec d) then m
       else addWorkloadRow (tw_namespace d) (tw_name d) ''Deployment'' (tw_labels d) (tw_annotations d)
         (tw_template_labels d) (replicaCount (tw_replicas d)) (tw_spec d) m) items byKey))"

definition collectStatefulSets :: "string + typed_workload list \<Rightarrow> row_map \<Rightarrow> string + row_map" where
  "collectStatefulSets listed byKey = (case listed of
     Inl err \<Rightarrow> Inl (''list statefulsets: '' @ err)
   | Inr items \<Rightarrow> Inr (fold (\<lambda>d m.
       if \<not> shouldIncludeWorkload (tw_annotations d) (tw_spec d) then m
       else addWorkloadRow (tw_namespace d) (tw_name d) ''StatefulSet'' (tw_labels d) (tw_annotations d)
         (tw_template_labels d) (replicaCount (tw_replicas d)) (tw_spec d) m) items byKey))"

section \<open>Money columns\<close>

definition split_point :: "string \<Rightarrow> string \<times> string option" where
  "split_point s = (case dropWhile (\<lambda>c. c \<noteq> CHR ''.'') s of
     [] \<Rightarrow> (s, None) | _ # rest \<Rightarrow> (takeWhile (\<lambda>c. c \<noteq> CHR ''.'') s, Some rest))"

definition formatWithCommas :: "f64 \<Rightarrow> nat \<Rightarrow> string" where
  "formatWithCommas v decimals =
    (let (intPart0, frac) = split_point (FormatFixed decimals v);
         neg = HasPrefix intPart0 ''-'';
         intPart = (if neg then drop 1 intPart0 else intPart0);
         out = (if neg then ''-'' else '''') @ write_groups (length intPart) 0 intPart
     in case frac of Some f \<Rightarrow> out @ ''.'' @ f | None \<Rightarrow> out)"

definition formatMoney :: "f64 \<Rightarrow> string" where
  "formatMoney v = ''$'' @ (if fle (f64_of_int 1000) v then formatWithCommas v 2 else FormatFixed 2 v)"

definition formatCostPerToken_plain :: "f64 \<Rightarrow> string" where
  "formatCostPerToken_plain v = trim_right CHR ''.'' (trim_right CHR ''0'' (''$'' @ FormatFixed 8 v))"

text \<open>The footer: the sum over the rows in table order, per hour and per month of 720 hours.\<close>

definition table_totals :: "cost_row list \<Rightarrow> f64 \<times> f64" where
  "table_totals rows =
    (let totalHour = foldl (\<lambda>t r. case cr_costPerHourTotal r of Some v \<Rightarrow> fadd t v
           | None \<Rightarrow> (case cr_costPerHour r of Some v \<Rightarrow> fadd t v | None \<Rightarrow> t)) fzero rows
     in (totalHour, fmul totalHour (f64_of_int 720)))"

section \<open>Reading annotations back\<close>

lemma numeral_text_trim:
  assumes "digits ds" and "ds \<noteq> []" and "digits (frac_digits fs)" and "fs \<noteq> Some []"
  shows "TrimSpace (numeral_text neg ds fs) = numeral_text neg ds fs"
proof (rule TrimSpace_graphic)
  show "numeral_text neg ds fs \<noteq> []" using assms(2) by (simp add: numeral_text_def)
  have g: "graphic CHR ''-''" by (simp add: graphic_def less_eq_char_def)
  show "graphic (hd (numeral_text neg ds fs))"
    using assms(1,2) g by (cases ds) (auto simp: numeral_text_def digits_def)
  have "is_digit (last ds)" using assms(1,2) by (simp add: digits_def)
  moreover have "is_digit (last t)" if "fs = Some t" for t
    using that assms(3,4) by (simp add: digits_def frac_digits_def)
  ultimately show "graphic (last (numeral_text neg ds fs))"
    using assms(2,4) by (auto simp: numeral_text_def split: option.splits)
qed

lemma formatCost_trim: "TrimSpace (formatCost (Fin s q)) = formatCost (Fin s q)" "formatCost (Fin s q) \<noteq> ''''"
proof -
  obtain t where t: "formatCost (Fin s q) =
      numeral_text s (dec (scaled 12 q div 10 ^ 12)) (if t = [] then None else Some t)" "digits t"
    using formatCost_numeral [of s q] by blast
  then show "TrimSpace (formatCost (Fin s q)) = formatCost (Fin s q)"
    by (cases "t = []") (simp_all add: numeral_text_trim frac_digits_def)
  show "formatCost (Fin s q) \<noteq> ''''" by (simp add: t(1) numeral_text_def)
qed

lemma read_formatCost:
  assumes "f64_ok x"
  shows "TrimSpace (formatCost x) \<noteq> '''' \<and> ParseFloat (TrimSpace (formatCost x)) = Some (annotated x)"
proof (cases x)
  case (Fin s q)
  with assms show ?thesis by (simp add: formatCost_trim annotated_def ParseFloat_formatCost)
next
  case NaN
  then have "formatCost x = ''NaN''" by (simp add: formatCost_def FormatFixed_def trim_right_def Let_def)
  moreover have "TrimSpace ''NaN'' = ''NaN''"
    by (rule TrimSpace_graphic) (simp_all add: graphic_def less_eq_char_def)
  ultimately show ?thesis by (simp add: NaN annotated_def parse_nan)
next
  case (Inf s)
  then have "formatCost x = (if s then ''-Inf'' else ''+Inf'')"
    by (simp add: formatCost_def FormatFixed_def trim_right_def Let_def)
  moreover have "TrimSpace ''-Inf'' = ''-Inf''" "TrimSpace ''+Inf'' = ''+Inf''"
    by (rule TrimSpace_graphic; simp add: graphic_def less_eq_char_def)+
  ultimately show ?thesis by (cases s) (simp_all add: Inf annotated_def parse_inf)
qed

text \<open>C23 The table shows the costs the patcher wrote: after a patch the row's hourly cost, token cost
  and fleet total are the written ones to twelve decimals, a result without token cost shows none,
  and the update time is the patch's.\<close>

theorem patched_costs_read_back:
  assumes "CostPerHour res = Some c" and "f64_ok c" and "ReplicaCount res = Some n" and "0 < n"
    and "CostPerToken res = None \<or> f64_ok (the (CostPerToken res))"
  shows "costAnnotationsFromMap (updated_annotations anns res) =
    (Some (annotated c), map_option annotated (CostPerToken res), Some (annotated (fmul c (f64_of_int n))),
     FormatRFC3339 (LastUpdatedAt res))"
proof -
  have tot: "fleet_total res = Some (fmul c (f64_of_int n))" using assms by (simp add: fleet_total_def)
  have "read_cost (updated_annotations anns res) AnnCostPerToken = map_option annotated (CostPerToken res)"
    using assms(5) read_formatCost [of "the (CostPerToken res)"]
    by (cases "CostPerToken res") (simp_all add: read_cost_def updated_get updated_has build_has build_get)
  moreover have "read_cost (updated_annotations anns res) AnnCostPerHourPerReplica = Some (annotated c)"
    using read_formatCost [OF assms(2)] assms(1)
    by (simp add: read_cost_def updated_get updated_has build_has build_get)
  moreover have "read_cost (updated_annotations anns res) AnnCostPerHourTotal = Some (annotated (fmul c (f64_of_int n)))"
    using read_formatCost [of "fmul c (f64_of_int n)"] tot
    by (simp add: read_cost_def updated_get updated_has build_has build_get)
  ultimately show ?thesis
    using assms(1) by (simp add: costAnnotationsFromMap_def Let_def updated_has updated_get build_has build_get)
qed

theorem patched_costs_read_back_witness:
  "fst (costAnnotationsFromMap (updated_annotations (GetAnnotations demo_target) demo_result)) = Some (f64_of_int 2)"
  using patched_costs_read_back [of demo_result "f64_of_int 2" 3 "GetAnnotations demo_target"]
    scaled_int [of 12 2] rnd_int [of 2]
  by (simp add: demo_result_def) (simp add: f64_simps annotated_def)

section \<open>Counting GPUs\<close>

lemma fold_i64_sum:
  assumes "\<And>c. c \<in> set cs \<Longrightarrow> 0 \<le> f c" and "0 \<le> n" and "n + sum_list (map f cs) < 2 ^ 63"
  shows "fold (\<lambda>c n. i64 (n + f c)) cs n = n + sum_list (map f cs)"
  using assms
proof (induction cs arbitrary: n)
  case (Cons c cs)
  have "0 \<le> sum_list (map f cs)" using Cons.prems(1) by (intro sum_list_nonneg) auto
  moreover have "0 \<le> f c" using Cons.prems(1) by simp
  ultimately have "i64 (n + f c) = n + f c"
    using Cons.prems(2,3) by (intro i64_id) (simp add: in_i64_def)
  then show ?case using Cons \<open>0 \<le> f c\<close> by (simp add: add.assoc)
qed simp

end
