(* ===== verification/Adapters.thy ===== *)
theory Adapters
  imports Patch
begin

text \<open>
  The platform adapters of the cost patcher: \<^verbatim>\<open>internal/costpatcher/platform\<close> (GPU counting,
  replica counts, the five adapters) and the registry \<^verbatim>\<open>internal/adapters/registry.go\<close>.

  The API server is the record \<open>kube\<close> of its operations on a state \<open>'c\<close>; the record also holds
  the apimachinery accessors for nested fields and quantities, and what the platform makes of
  converting an unrepresentable float to an integer.
\<close>

section \<open>API server and library\<close>

datatype kube_error = ErrNotFound | ErrOther string

record replicaset =
  rs_namespace :: string
  rs_name :: string
  rs_controller :: "owner_ref option"

record 'c kube =
  ka_get_deployment :: "'c \<Rightarrow> string \<Rightarrow> string \<Rightarrow> kube_error + replicated"
  ka_get_statefulset :: "'c \<Rightarrow> string \<Rightarrow> string \<Rightarrow> kube_error + replicated"
  ka_get_replicaset :: "'c \<Rightarrow> string \<Rightarrow> string \<Rightarrow> kube_error + replicaset"
  ka_get_unstructured :: "'c \<Rightarrow> gvk \<Rightarrow> string \<Rightarrow> string \<Rightarrow> kube_error + unstr"
  ka_list_unstructured :: "'c \<Rightarrow> gvk \<Rightarrow> string option \<Rightarrow> string + unstr list"
  ka_list_pods :: "'c \<Rightarrow> string + pod list"
  ka_list_pods_labelled :: "'c \<Rightarrow> string \<Rightarrow> string \<Rightarrow> string \<Rightarrow> string + pod list"
  ka_patch :: "'c patch_api"
  NestedInt64 :: "amap \<Rightarrow> string list \<Rightarrow> string + int option"
  NestedString :: "amap \<Rightarrow> string list \<Rightarrow> string + string option"
  NestedSlice :: "amap \<Rightarrow> string list \<Rightarrow> string + aval list option"
  NestedMap :: "amap \<Rightarrow> string list \<Rightarrow> string + amap option"
  ParseQuantity :: "string \<Rightarrow> int option"
  k_oor64 :: "f64 \<Rightarrow> int"

section \<open>GPU counts\<close>

definition gpuQtyFromList :: "resource_list \<Rightarrow> int" where
  "gpuQtyFromList rl = (case fmlookup rl gpuResourceName of None \<Rightarrow> 0 | Some q \<Rightarrow> quantity_value q)"

definition gpuOfContainer :: "container \<Rightarrow> int" where
  "gpuOfContainer c = (let n = gpuQtyFromList (c_limits c)
     in if n = 0 then gpuQtyFromList (c_requests c) else n)"

definition GPUCountFromPod :: "pod \<Rightarrow> int" where
  "GPUCountFromPod p =
    (let total = fold (\<lambda>c n. i64 (n + gpuOfContainer c)) (p_containers p) 0
     in if 0 < total then total else fold (\<lambda>c n. i64 (n + gpuOfContainer c)) (p_initContainers p) total)"

fun nested_value :: "amap option \<Rightarrow> string list \<Rightarrow> aval option" where
  "nested_value (Some m) [k] = fmlookup m k"
| "nested_value (Some m) (k # k' # ks) = (case fmlookup m k of None \<Rightarrow> None
     | Some v \<Rightarrow> nested_value (as_map (Some v)) (k' # ks))"
| "nested_value _ _ = None"

definition nestedMap :: "amap \<Rightarrow> string list \<Rightarrow> amap option" where
  "nestedMap obj keys = as_map (nested_value (Some obj) keys)"

definition nestedSlice :: "amap \<Rightarrow> string list \<Rightarrow> aval list" where
  "nestedSlice obj keys = (case as_list (nested_value (Some obj) keys) of None \<Rightarrow> [] | Some l \<Rightarrow> l)"

definition parseGPUQuantity :: "'c kube \<Rightarrow> aval \<Rightarrow> int" where
  "parseGPUQuantity K v = (case v of
     AString s \<Rightarrow> (case ParseQuantity K s of None \<Rightarrow> 0 | Some n \<Rightarrow> n)
   | AInt64 n \<Rightarrow> n | AInt n \<Rightarrow> n | AFloat x \<Rightarrow> f64_to_i64 (k_oor64 K) x | _ \<Rightarrow> 0)"

definition gpuFromLimitsMap :: "'c kube \<Rightarrow> amap option \<Rightarrow> int" where
  "gpuFromLimitsMap K limits = (case limits of None \<Rightarrow> 0
   | Some m \<Rightarrow> (case fmlookup m gpuResourceName of None \<Rightarrow> 0 | Some v \<Rightarrow> parseGPUQuantity K v))"

definition gpuFromContainersSlice :: "'c kube \<Rightarrow> aval list \<Rightarrow> int" where
  "gpuFromContainersSlice K containers = fold (\<lambda>item mx.
     case Option.bind (as_map (Some item)) (\<lambda>cm. as_map (fmlookup cm ''resources'')) of
       None \<Rightarrow> mx
     | Some res \<Rightarrow> let n = gpuFromLimitsMap K (as_map (fmlookup res ''limits'')) in if mx < n then n else mx)
     containers 0"

definition defaultPaths :: "string list list" where
  "defaultPaths = [[''spec'', ''predictor'', ''model'', ''resources'', ''limits''],
     [''spec'', ''predictor'', ''resources'', ''limits''],
     [''spec'', ''predictor'', ''workerSpec'', ''containers'']]"

fun gpu_from_paths :: "'c kube \<Rightarrow> amap \<Rightarrow> string list list \<Rightarrow> int" where
  "gpu_from_paths K obj [] = 0"
| "gpu_from_paths K obj (p # ps) =
     (if length p = 5 \<and> p ! 4 = ''limits''
      then let n = gpuFromLimitsMap K (nestedMap obj p) in if 0 < n then n else gpu_from_paths K obj ps
      else if length p = 4 \<and> p ! 3 = ''containers''
      then let n = gpuFromContainersSlice K (nestedSlice obj p) in if 0 < n then n else gpu_from_paths K obj ps
      else gpu_from_paths K obj ps)"

definition GPUCountFromUnstructured :: "'c kube \<Rightarrow> amap \<Rightarrow> int" where
  "GPUCountFromUnstructured K obj = gpu_from_paths K obj defaultPaths"

section \<open>Replica counts\<close>

definition typed_replicas :: "replicated \<Rightarrow> int" where
  "typed_replicas r = (if 0 < r_readyReplicas r then r_readyReplicas r
     else case r_specReplicas r of Some n \<Rightarrow> n | None \<Rightarrow> 1)"

fun first_positive :: "'c kube \<Rightarrow> amap \<Rightarrow> string list list \<Rightarrow> int" where
  "first_positive K obj [] = 1"
| "first_positive K obj (p # ps) = (case NestedInt64 K obj p of
     Inr (Some v) \<Rightarrow> if 0 < v then i32 v else first_positive K obj ps
   | _ \<Rightarrow> first_positive K obj ps)"

definition ReplicasFromTarget :: "'c kube \<Rightarrow> kobject \<Rightarrow> int" where
  "ReplicasFromTarget K t = (case t of
     KDeployment r \<Rightarrow> typed_replicas r | KStatefulSet r \<Rightarrow> typed_replicas r
   | KUnstructured u \<Rightarrow> first_positive K (u_object u)
       [[''status'', ''readyReplicas''], [''status'', ''replicas''], [''spec'', ''replicas'']]
   | KOther _ _ \<Rightarrow> 1)"

section \<open>Detection and targets\<close>

datatype resolve_error =
    MissingLabel string string string
  | TargetNotFound string string string
  | TargetError kube_error
  | ListFailed string
  | NestedFailed string string string
  | NoActiveRayService string string
  | NoControllerOwner string string string
  | ReplicaSetNotFound string string
  | UnsupportedOwner string string string
  | WalkTooDeep string string

definition labelInferenceService :: string where
  "labelInferenceService = ''serving.kserve.io/inferenceservice''"

definition inferenceServiceGVK :: gvk where
  "inferenceServiceGVK = \<lparr>gvk_group = ''serving.kserve.io'', gvk_version = ''v1beta1'', gvk_kind = ''InferenceService''\<rparr>"

definition trainJobGVK :: gvk where
  "trainJobGVK = \<lparr>gvk_group = ''trainer.kubeflow.org'', gvk_version = ''v1alpha1'', gvk_kind = ''TrainJob''\<rparr>"

definition rayServiceGVK :: gvk where
  "rayServiceGVK = \<lparr>gvk_group = ''ray.io'', gvk_version = ''v1'', gvk_kind = ''RayService''\<rparr>"

definition bentoDeploymentGVK :: gvk where
  "bentoDeploymentGVK = \<lparr>gvk_group = ''serving.yatai.ai'', gvk_version = ''v2alpha1'', gvk_kind = ''BentoDeployment''\<rparr>"

definition list_gvk :: "gvk \<Rightarrow> gvk" where
  "list_gvk g = g\<lparr>gvk_kind := gvk_kind g @ ''List''\<rparr>"

definition KServe_Detect :: "pod \<Rightarrow> bool" where
  "KServe_Detect p \<longleftrightarrow> mget (p_labels p) AnnPlatform = ''kserve''
     \<or> mget (p_labels p) labelInferenceService \<noteq> ''''"

definition inferenceServiceNameFromPod :: "pod \<Rightarrow> string" where
  "inferenceServiceNameFromPod p = mget (p_labels p) labelInferenceService"

definition KubeflowTrainer_Detect :: "pod \<Rightarrow> bool" where
  "KubeflowTrainer_Detect p \<longleftrightarrow> mget (p_labels p) AnnPlatform = ''kubeflow-trainer''
     \<or> mget (p_labels p) ''trainer.kubeflow.org/trainjob-ancestor-step'' \<noteq> ''''
     \<or> mget (p_labels p) ''trainer.kubeflow.org/trainjob-name'' \<noteq> ''''"

definition trainJobNameFromPod :: "pod \<Rightarrow> string" where
  "trainJobNameFromPod p = (let name = mget (p_labels p) ''trainer.kubeflow.org/trainjob-name''
     in if name \<noteq> '''' then name else mget (p_labels p) ''jobset.sigs.k8s.io/jobset-name'')"

definition RayServe_Detect :: "pod \<Rightarrow> bool" where
  "RayServe_Detect p \<longleftrightarrow> mget (p_labels p) AnnPlatform = ''ray-serve''
     \<or> mget (p_labels p) ''ray.io/serve-deployment'' \<noteq> ''''"

definition rayClusterNameFromPod :: "pod \<Rightarrow> string" where
  "rayClusterNameFromPod p = mget (p_labels p) ''ray.io/cluster-name''"

definition BentoML_Detect :: "pod \<Rightarrow> bool" where
  "BentoML_Detect p \<longleftrightarrow> mget (p_labels p) AnnPlatform = ''bentoml''
     \<or> mget (p_labels p) ''yatai.bentoml.com/bento-deployment'' \<noteq> ''''"

definition bentoDeploymentNameFromPod :: "pod \<Rightarrow> string" where
  "bentoDeploymentNameFromPod p = mget (p_labels p) ''yatai.bentoml.com/bento-deployment''"

text \<open>KServe, the trainer and BentoML look their object up by a name taken from the pod's labels.\<close>

definition resolve_named ::
  "'c kube \<Rightarrow> 'c \<Rightarrow> string \<Rightarrow> string \<Rightarrow> gvk \<Rightarrow> string \<Rightarrow> pod \<Rightarrow> resolve_error + kobject" where
  "resolve_named K c platform label g name p =
    (if name = '''' then Inl (MissingLabel platform label (p_namespace p @ ''/'' @ p_name p))
     else case ka_get_unstructured K c g (p_namespace p) name of
       Inl ErrNotFound \<Rightarrow> Inl (TargetNotFound (gvk_kind g) (p_namespace p) name)
     | Inl err \<Rightarrow> Inl (TargetError err)
     | Inr u \<Rightarrow> Inr (KUnstructured u))"

definition KServe_ResolveTarget :: "'c kube \<Rightarrow> 'c \<Rightarrow> pod \<Rightarrow> resolve_error + kobject" where
  "KServe_ResolveTarget K c p = resolve_named K c ''kserve'' labelInferenceService
     inferenceServiceGVK (inferenceServiceNameFromPod p) p"

definition KubeflowTrainer_ResolveTarget :: "'c kube \<Rightarrow> 'c \<Rightarrow> pod \<Rightarrow> resolve_error + kobject" where
  "KubeflowTrainer_ResolveTarget K c p = resolve_named K c ''kubeflow-trainer''
     ''trainer.kubeflow.org/trainjob-name'' trainJobGVK (trainJobNameFromPod p) p"

definition BentoML_ResolveTarget :: "'c kube \<Rightarrow> 'c \<Rightarrow> pod \<Rightarrow> resolve_error + kobject" where
  "BentoML_ResolveTarget K c p = resolve_named K c ''bentoml''
     ''yatai.bentoml.com/bento-deployment'' bentoDeploymentGVK (bentoDeploymentNameFromPod p) p"

fun find_ray_service :: "'c kube \<Rightarrow> string \<Rightarrow> unstr list \<Rightarrow> (resolve_error + kobject) option" where
  "find_ray_service K clusterName [] = None"
| "find_ray_service K clusterName (rs # rest) =
     (case NestedString K (u_object rs) [''status'', ''activeServiceStatus'', ''rayClusterName''] of
        Inl err \<Rightarrow> Some (Inl (NestedFailed (u_namespace rs) (u_name rs) err))
      | Inr v \<Rightarrow> if v = Some clusterName then Some (Inr (KUnstructured rs))
                 else find_ray_service K clusterName rest)"

definition RayServe_ResolveTarget :: "'c kube \<Rightarrow> 'c \<Rightarrow> pod \<Rightarrow> resolve_error + kobject" where
  "RayServe_ResolveTarget K c p =
    (let clusterName = rayClusterNameFromPod p in
     if clusterName = '''' then Inl (MissingLabel ''rayserve'' ''ray.io/cluster-name'' (p_namespace p @ ''/'' @ p_name p))
     else case ka_list_unstructured K c (list_gvk rayServiceGVK) (Some (p_namespace p)) of
       Inl err \<Rightarrow> Inl (ListFailed err)
     | Inr items \<Rightarrow> (case find_ray_service K clusterName items of
         Some r \<Rightarrow> r | None \<Rightarrow> Inl (NoActiveRayService (p_namespace p) clusterName)))"

text \<open>
  The owner walk of the generic adapter: the object at hand by type, namespace, name and
  controller; \<open>n\<close> steps are left of the sixteen.
\<close>

fun owner_walk :: "nat \<Rightarrow> 'c kube \<Rightarrow> 'c \<Rightarrow> pod \<Rightarrow> string \<Rightarrow> string \<Rightarrow> string \<Rightarrow> owner_ref option
    \<Rightarrow> resolve_error + kobject" where
  "owner_walk 0 K c p ty ns name ctl = Inl (WalkTooDeep (p_namespace p) (p_name p))"
| "owner_walk (Suc n) K c p ty ns name ctl = (case ctl of
     None \<Rightarrow> Inl (NoControllerOwner ty ns name)
   | Some ref \<Rightarrow>
       if or_kind ref = ''ReplicaSet'' then
         (case ka_get_replicaset K c ns (or_name ref) of
            Inl ErrNotFound \<Rightarrow> Inl (ReplicaSetNotFound ns (or_name ref))
          | Inl err \<Rightarrow> Inl (TargetError err)
          | Inr rs \<Rightarrow> owner_walk n K c p ''*v1.ReplicaSet'' (rs_namespace rs) (rs_name rs) (rs_controller rs))
       else if or_kind ref = ''StatefulSet'' then
         (case ka_get_statefulset K c ns (or_name ref) of
            Inl err \<Rightarrow> Inl (TargetError err) | Inr sts \<Rightarrow> Inr (KStatefulSet sts))
       else if or_kind ref = ''Deployment'' then
         (case ka_get_deployment K c ns (or_name ref) of
            Inl err \<Rightarrow> Inl (TargetError err) | Inr dep \<Rightarrow> Inr (KDeployment dep))
       else Inl (UnsupportedOwner (or_kind ref) ns (or_name ref)))"

definition Generic_ResolveTarget :: "'c kube \<Rightarrow> 'c \<Rightarrow> pod \<Rightarrow> resolve_error + kobject" where
  "Generic_ResolveTarget K c p =
     owner_walk 16 K c p ''*v1.Pod'' (p_namespace p) (p_name p) (p_controller p)"

section \<open>Training jobs\<close>

definition cond_field :: "amap \<Rightarrow> string \<Rightarrow> string" where
  "cond_field m k = as_string (fmlookup m k)"

definition terminal_type :: "string \<Rightarrow> bool" where
  "terminal_type t \<longleftrightarrow> t = ''Complete'' \<or> t = ''Succeeded'' \<or> t = ''Failed''"

text \<open>The conditions of a status that are maps; a missing or malformed list has none.\<close>

definition status_conditions :: "'c kube \<Rightarrow> amap \<Rightarrow> amap list option" where
  "status_conditions K obj = (case NestedSlice K obj [''status'', ''conditions''] of
     Inr (Some l) \<Rightarrow> Some (List.map_filter (\<lambda>v. as_map (Some v)) l) | _ \<Rightarrow> None)"

definition trainJobTerminalState :: "'c kube \<Rightarrow> amap \<Rightarrow> bool \<times> bool" where
  "trainJobTerminalState K obj = (case status_conditions K obj of None \<Rightarrow> (False, False)
   | Some cs \<Rightarrow> fold (\<lambda>m (done_ok, failed).
       if \<not> EqualFold (cond_field m ''status'') ''true'' then (done_ok, failed)
       else let typ = cond_field m ''type'' in
         if typ = ''Complete'' \<or> typ = ''Succeeded'' then (True, failed)
         else if typ = ''Failed'' then (done_ok, True) else (done_ok, failed)) cs (False, False))"

text \<open>Times are instants; the zero time is 0.\<close>

definition parse_time :: "string \<Rightarrow> int option" where
  "parse_time s = ParseRFC3339 s"

definition parseConditionTime :: "aval option \<Rightarrow> int" where
  "parseConditionTime v = (case v of Some (AString s) \<Rightarrow>
     (case parse_time s of None \<Rightarrow> 0 | Some t \<Rightarrow> t) | _ \<Rightarrow> 0)"

definition status_time :: "'c kube \<Rightarrow> amap \<Rightarrow> string \<Rightarrow> int option" where
  "status_time K obj field = (case NestedString K obj [''status'', field] of
     Inr (Some s) \<Rightarrow> if s = '''' then None else parse_time s | _ \<Rightarrow> None)"

definition trainJobTimesFromStatus :: "'c kube \<Rightarrow> amap \<Rightarrow> (int \<times> int) option" where
  "trainJobTimesFromStatus K obj = (case status_time K obj ''startTime'' of None \<Rightarrow> None
   | Some start \<Rightarrow> (case status_time K obj ''completionTime'' of None \<Rightarrow> None
     | Some end_time \<Rightarrow> if start < end_time then Some (start, end_time) else None))"

definition condition_times :: "amap list \<Rightarrow> int \<times> int" where
  "condition_times cs = fold (\<lambda>m (start, end_time).
     let ts = parseConditionTime (fmlookup m ''lastTransitionTime'') in
     if ts = 0 then (start, end_time)
     else let start' = (if start = 0 \<or> ts < start then ts else start);
              end' = (if EqualFold (cond_field m ''status'') ''true'' \<and> terminal_type (cond_field m ''type'')
                        \<and> (end_time = 0 \<or> end_time < ts) then ts else end_time)
          in (start', end')) cs (0, 0)"

definition trainJobDurationFromConditions :: "'c kube \<Rightarrow> amap \<Rightarrow> int option" where
  "trainJobDurationFromConditions K obj = (case status_conditions K obj of None \<Rightarrow> None
   | Some cs \<Rightarrow> (case condition_times cs of (start, end_time) \<Rightarrow>
       if start = 0 \<or> end_time = 0 \<or> end_time \<le> start then None
       else Some (sub_time end_time start)))"

definition trainJobDuration :: "'c kube \<Rightarrow> amap \<Rightarrow> int option" where
  "trainJobDuration K obj = (case trainJobTimesFromStatus K obj of
     Some (start, end_time) \<Rightarrow> Some (sub_time end_time start)
   | None \<Rightarrow> trainJobDurationFromConditions K obj)"

definition job_total :: "f64 \<Rightarrow> int \<Rightarrow> f64" where
  "job_total cph duration = (let total = fmul cph (Hours duration) in if flt total fzero then fzero else total)"

definition patchTrainJobTotalCostIfComplete ::
  "'c kube \<Rightarrow> kobject \<Rightarrow> cost_result \<Rightarrow> 'c \<Rightarrow> (string + kobject) \<times> 'c" where
  "patchTrainJobTotalCostIfComplete K target res c = (case target of
     KUnstructured u \<Rightarrow>
       if u_gvk u \<noteq> trainJobGVK then (Inr target, c)
       else if mget (u_annotations u) AnnTotalJobCostUSD \<noteq> '''' then (Inr target, c)
       else (case trainJobTerminalState K (u_object u) of (done_ok, failed) \<Rightarrow>
         if \<not> done_ok \<and> \<not> failed then (Inr target, c)
         else (case CostPerHour res of None \<Rightarrow> (Inr target, c)
         | Some cph \<Rightarrow> (case trainJobDuration K (u_object u) of None \<Rightarrow> (Inr target, c)
           | Some duration \<Rightarrow> if duration \<le> 0 then (Inr target, c)
               else ka_patch K c target (KUnstructured (u\<lparr>u_annotations :=
                 fmupd AnnTotalJobCostUSD (formatCost (job_total cph duration)) (u_annotations u)\<rparr>)))))
   | _ \<Rightarrow> (Inr target, c))"

definition KubeflowTrainer_WriteCost ::
  "'c kube \<Rightarrow> kobject \<Rightarrow> cost_result \<Rightarrow> 'c \<Rightarrow> (string + kobject) \<times> 'c" where
  "KubeflowTrainer_WriteCost K target res c = (case PatchTargetAnnotations (ka_patch K) target res c of
     (Inl err, c') \<Rightarrow> (Inl err, c')
   | (Inr target', c') \<Rightarrow> patchTrainJobTotalCostIfComplete K target' res c')"

section \<open>Scale to zero\<close>

definition predictorReadyReplicas :: "'c kube \<Rightarrow> unstr \<Rightarrow> string + int option" where
  "predictorReadyReplicas K is = (case NestedMap K (u_object is) [''status'', ''components''] of
     Inl err \<Rightarrow> Inl err
   | Inr None \<Rightarrow> NestedInt64 K (u_object is) [''status'', ''readyReplicas'']
   | Inr (Some components) \<Rightarrow> (case as_map (fmlookup components ''predictor'') of
       None \<Rightarrow> NestedInt64 K (u_object is) [''status'', ''readyReplicas'']
     | Some pred \<Rightarrow> Inr (case fmlookup pred ''readyReplicas'' of
         Some (AInt64 n) \<Rightarrow> Some n | Some (AInt n) \<Rightarrow> Some n
       | Some (AFloat x) \<Rightarrow> Some (f64_to_i64 (k_oor64 K) x) | _ \<Rightarrow> None)))"

definition kserveHasActivePods :: "'c kube \<Rightarrow> 'c \<Rightarrow> string \<Rightarrow> string \<Rightarrow> string + bool" where
  "kserveHasActivePods K c ns isName = (case ka_list_pods_labelled K c ns labelInferenceService isName of
     Inl err \<Rightarrow> Inl err
   | Inr pods \<Rightarrow> Inr (list_ex (\<lambda>p. \<not> p_deleted p \<and> (p_phase p = ''Running'' \<or> p_phase p = ''Pending'')) pods))"

datatype owners_error = ListOwners string | ReadReplicas string string string
  | ListOwnerPods string string string | PatchOwner string string string

definition zero_result :: "'c kube \<Rightarrow> utc \<Rightarrow> unstr \<Rightarrow> cost_result" where
  "zero_result K now is = (let n = GPUCountFromUnstructured K (u_object is) in
     \<lparr>CostPerHour = Some fzero, CostPerToken = None, GPUCount = (if 0 < n then Some n else None),
      ReplicaCount = None, LastUpdatedAt = now\<rparr>)"

fun reconcile_owner_list :: "'c kube \<Rightarrow> utc \<Rightarrow> unstr list \<Rightarrow> 'c \<Rightarrow> owners_error option \<times> 'c" where
  "reconcile_owner_list K now [] c = (None, c)"
| "reconcile_owner_list K now (is # rest) c =
     (if u_namespace is = '''' \<or> u_name is = '''' then reconcile_owner_list K now rest c
      else case predictorReadyReplicas K is of
        Inl err \<Rightarrow> (Some (ReadReplicas (u_namespace is) (u_name is) err), c)
      | Inr None \<Rightarrow> reconcile_owner_list K now rest c
      | Inr (Some ready) \<Rightarrow>
          if 0 < ready then reconcile_owner_list K now rest c
          else (case kserveHasActivePods K c (u_namespace is) (u_name is) of
            Inl err \<Rightarrow> (Some (ListOwnerPods (u_namespace is) (u_name is) err), c)
          | Inr hasPods \<Rightarrow>
              if hasPods then reconcile_owner_list K now rest c
              else (case PatchTargetAnnotations (ka_patch K) (KUnstructured is) (zero_result K now is) c of
                (Inl err, c') \<Rightarrow> (Some (PatchOwner (u_namespace is) (u_name is) err), c')
              | (Inr _, c') \<Rightarrow> reconcile_owner_list K now rest c')))"

definition KServe_ReconcileOwners :: "'c kube \<Rightarrow> utc \<Rightarrow> 'c \<Rightarrow> owners_error option \<times> 'c" where
  "KServe_ReconcileOwners K now c = (case ka_list_unstructured K c (list_gvk inferenceServiceGVK) None of
     Inl err \<Rightarrow> (Some (ListOwners err), c)
   | Inr items \<Rightarrow> reconcile_owner_list K now items c)"

section \<open>Registry\<close>

datatype adapter = KServe | KubeflowTrainer | RayServe | BentoML | Generic

definition Registry :: "adapter list" where
  "Registry = [KServe, KubeflowTrainer, RayServe, BentoML, Generic]"

definition Name :: "adapter \<Rightarrow> string" where
  "Name a = (case a of KServe \<Rightarrow> ''kserve'' | KubeflowTrainer \<Rightarrow> ''kubeflow-trainer''
     | RayServe \<Rightarrow> ''ray-serve'' | BentoML \<Rightarrow> ''bentoml'' | Generic \<Rightarrow> ''generic'')"

definition Detect :: "adapter \<Rightarrow> pod \<Rightarrow> bool" where
  "Detect a p = (case a of KServe \<Rightarrow> KServe_Detect p | KubeflowTrainer \<Rightarrow> KubeflowTrainer_Detect p
     | RayServe \<Rightarrow> RayServe_Detect p | BentoML \<Rightarrow> BentoML_Detect p | Generic \<Rightarrow> True)"

definition ResolveTarget :: "adapter \<Rightarrow> 'c kube \<Rightarrow> 'c \<Rightarrow> pod \<Rightarrow> resolve_error + kobject" where
  "ResolveTarget a K c p = (case a of KServe \<Rightarrow> KServe_ResolveTarget K c p
     | KubeflowTrainer \<Rightarrow> KubeflowTrainer_ResolveTarget K c p
     | RayServe \<Rightarrow> RayServe_ResolveTarget K c p | BentoML \<Rightarrow> BentoML_ResolveTarget K c p
     | Generic \<Rightarrow> Generic_ResolveTarget K c p)"

definition WriteCost :: "adapter \<Rightarrow> 'c kube \<Rightarrow> kobject \<Rightarrow> cost_result \<Rightarrow> 'c \<Rightarrow> (string + kobject) \<times> 'c" where
  "WriteCost a K target res c = (case a of
     KubeflowTrainer \<Rightarrow> KubeflowTrainer_WriteCost K target res c
   | _ \<Rightarrow> PatchTargetAnnotations (ka_patch K) target res c)"

definition ReconcileOwners :: "adapter \<Rightarrow> ('c kube \<Rightarrow> utc \<Rightarrow> 'c \<Rightarrow> owners_error option \<times> 'c) option" where
  "ReconcileOwners a = (case a of KServe \<Rightarrow> Some KServe_ReconcileOwners | _ \<Rightarrow> None)"

section \<open>What an adapter may write\<close>

definition supported :: "kobject \<Rightarrow> bool" where
  "supported t = (case t of KOther _ _ \<Rightarrow> False | _ \<Rightarrow> True)"

definition object_namespace :: "kobject \<Rightarrow> string" where
  "object_namespace t = (case t of KDeployment r \<Rightarrow> r_namespace r | KStatefulSet r \<Rightarrow> r_namespace r
     | KUnstructured u \<Rightarrow> u_namespace u | KOther _ _ \<Rightarrow> '''')"

definition cost_keys :: "string list" where
  "cost_keys = [AnnCostPerHourPerReplica, AnnCostPerHourTotal, AnnCostPerHour, AnnCostPerToken,
     AnnGPUCount, AnnLastUpdated, AnnTotalJobCostUSD]"

text \<open>
  A cost-only change: the same object but for annotations under the cost keys, and a total job
  cost that is already there stays as it is.
\<close>

definition cost_only :: "kobject \<Rightarrow> kobject \<Rightarrow> bool" where
  "cost_only orig t \<longleftrightarrow> supported t \<and> t = SetAnnotations (GetAnnotations t) orig
     \<and> (\<forall>k. k \<in> set cost_keys \<or> fmlookup (GetAnnotations t) k = fmlookup (GetAnnotations orig) k)
     \<and> (mget (GetAnnotations orig) AnnTotalJobCostUSD = ''''
        \<or> fmlookup (GetAnnotations t) AnnTotalJobCostUSD = fmlookup (GetAnnotations orig) AnnTotalJobCostUSD)"

definition cost_writes_keep :: "'c kube \<Rightarrow> ('c \<Rightarrow> bool) \<Rightarrow> bool" where
  "cost_writes_keep K I \<longleftrightarrow> (\<forall>c orig t. I c \<longrightarrow> cost_only orig t \<longrightarrow> I (snd (ka_patch K c orig t)))"

text \<open>The API server answers a request for a namespace with objects of that namespace.\<close>

definition namespaced :: "'c kube \<Rightarrow> bool" where
  "namespaced K \<longleftrightarrow>
     (\<forall>c ns n r. ka_get_deployment K c ns n = Inr r \<longrightarrow> r_namespace r = ns)
   \<and> (\<forall>c ns n r. ka_get_statefulset K c ns n = Inr r \<longrightarrow> r_namespace r = ns)
   \<and> (\<forall>c ns n r. ka_get_replicaset K c ns n = Inr r \<longrightarrow> rs_namespace r = ns)
   \<and> (\<forall>c g ns n u. ka_get_unstructured K c g ns n = Inr u \<longrightarrow> u_namespace u = ns)
   \<and> (\<forall>c g ns us. ka_list_unstructured K c g (Some ns) = Inr us \<longrightarrow> (\<forall>u \<in> set us. u_namespace u = ns))"

lemma SetAnnotations_frame [simp]:
  "supported (SetAnnotations m t) = supported t"
  "object_namespace (SetAnnotations m t) = object_namespace t"
  "SetAnnotations m (SetAnnotations m' t) = SetAnnotations m t"
  "SetAnnotations (GetAnnotations t) t = t"
  by (cases t; simp add: supported_def SetAnnotations_def object_namespace_def GetAnnotations_def)+

text \<open>The keys a patch may set or remove at any time: all but the total job cost.\<close>

definition rate_keys :: "string list" where
  "rate_keys = [AnnCostPerHourPerReplica, AnnCostPerHourTotal, AnnCostPerHour, AnnCostPerToken,
     AnnGPUCount, AnnLastUpdated]"

lemma rate_keys_cost: "set rate_keys \<subseteq> set cost_keys" "AnnTotalJobCostUSD \<notin> set rate_keys"
  by (auto simp: rate_keys_def cost_keys_def ann_defs)

lemma cost_only_set:
  "supported t \<Longrightarrow> (\<And>k. k \<notin> set rate_keys \<Longrightarrow> fmlookup m k = fmlookup (GetAnnotations t) k)
     \<Longrightarrow> cost_only t (SetAnnotations m t)"
  using rate_keys_cost by (auto simp: cost_only_def)

lemma updated_foreign:
  assumes "k \<notin> set rate_keys"
  shows "fmlookup (updated_annotations anns res) k = fmlookup anns k"
proof -
  have "\<not> mhas (buildAnnotations res) k" using assms by (auto simp: build_has rate_keys_def)
  then have "fmlookup (buildAnnotations res) k = None" by (simp add: mhas_def)
  moreover have "k \<noteq> AnnCostPerToken" using assms by (auto simp: rate_keys_def)
  ultimately show ?thesis
    by (auto simp: updated_annotations_def Let_def fmlookup_dom_iff)
qed

lemma patch_supported_keeps:
  assumes "cost_writes_keep K I" and "I c" and "\<And>k. k \<notin> set rate_keys \<Longrightarrow>
    fmlookup m k = fmlookup (GetAnnotations t) k"
  shows "I (snd (patch_supported (ka_patch K) t (SetAnnotations m t) c))"
proof (cases "supported t")
  case True
  then have "I (snd (ka_patch K c t (SetAnnotations m t)))"
    using assms cost_only_set [OF True assms(3)] by (simp add: cost_writes_keep_def)
  then show ?thesis using assms(2)
    by (auto simp: patch_supported_def split: kobject.split)
next
  case False
  then show ?thesis using assms(2)
    by (cases t) (simp_all add: supported_def patch_supported_def SetAnnotations_def)
qed

lemma PatchTargetAnnotations_keeps:
  "cost_writes_keep K I \<Longrightarrow> I c \<Longrightarrow> I (snd (PatchTargetAnnotations (ka_patch K) t res c))"
  by (simp add: PatchTargetAnnotations_def patch_supported_keeps updated_foreign)

lemma RemoveCostAnnotations_keeps:
  "cost_writes_keep K I \<Longrightarrow> I c \<Longrightarrow> set ks \<subseteq> set rate_keys
    \<Longrightarrow> I (snd (RemoveCostAnnotations (ka_patch K) t ks c))"
  using patch_supported_keeps [of K I c "mdrop_keys ks (GetAnnotations t)" t]
  by (simp add: RemoveCostAnnotations_def Let_def subset_iff) metis

lemma total_patch_keeps:
  assumes "cost_writes_keep K I" and "I c"
  shows "I (snd (patchTrainJobTotalCostIfComplete K t res c))"
proof (cases t)
  case (KUnstructured u)
  have "cost_only t (KUnstructured (u\<lparr>u_annotations := fmupd AnnTotalJobCostUSD v (u_annotations u)\<rparr>))"
    if "mget (u_annotations u) AnnTotalJobCostUSD = ''''" for v
    using that by (auto simp: KUnstructured cost_only_def supported_def SetAnnotations_def GetAnnotations_def cost_keys_def)
  with assms KUnstructured show ?thesis
    by (auto simp: patchTrainJobTotalCostIfComplete_def cost_writes_keep_def split: option.splits prod.splits)
qed (use assms in \<open>simp_all add: patchTrainJobTotalCostIfComplete_def\<close>)

text \<open>The contract between the patcher and an adapter.\<close>

locale cost_adapter =
  fixes resolve :: "'c kube \<Rightarrow> 'c \<Rightarrow> pod \<Rightarrow> resolve_error + kobject"
    and write_cost :: "'c kube \<Rightarrow> kobject \<Rightarrow> cost_result \<Rightarrow> 'c \<Rightarrow> (string + kobject) \<times> 'c"
  assumes resolve_supported: "resolve K c p = Inr t \<Longrightarrow> supported t"
    and resolve_namespace: "namespaced K \<Longrightarrow> resolve K c p = Inr t \<Longrightarrow> object_namespace t = p_namespace p"
    and write_keeps: "cost_writes_keep K I \<Longrightarrow> I c \<Longrightarrow> I (snd (write_cost K t res c))"
begin

lemma resolve_patchable:
  "resolve K c p = Inr t \<Longrightarrow> patch_supported api orig t c = api c orig t"
  using resolve_supported [of K c p t] by (cases t) (simp_all add: supported_def patch_supported_def)

lemma resolve_and_write_keeps:
  "cost_writes_keep K I \<Longrightarrow> I c \<Longrightarrow>
     I (case resolve K c p of Inl _ \<Rightarrow> c | Inr t \<Rightarrow> snd (write_cost K t res c))"
  by (simp add: write_keeps split: sum.split)

end

lemma resolve_named_props:
  "resolve_named K c pl lb g n p = Inr t \<Longrightarrow> supported t"
  "namespaced K \<Longrightarrow> resolve_named K c pl lb g n p = Inr t \<Longrightarrow> object_namespace t = p_namespace p"
  by (auto simp: resolve_named_def supported_def object_namespace_def namespaced_def
      split: if_splits sum.splits kube_error.splits)

lemma find_ray_service_in:
  "find_ray_service K cl us = Some (Inr t) \<Longrightarrow> \<exists>u \<in> set us. t = KUnstructured u"
  by (induction us) (auto split: sum.splits if_splits)

lemma RayServe_props:
  "RayServe_ResolveTarget K c p = Inr t \<Longrightarrow> supported t"
  "namespaced K \<Longrightarrow> RayServe_ResolveTarget K c p = Inr t \<Longrightarrow> object_namespace t = p_namespace p"
  by (auto simp: RayServe_ResolveTarget_def Let_def supported_def object_namespace_def namespaced_def
      dest!: find_ray_service_in split: if_splits sum.splits option.splits)

lemma owner_walk_props:
  "owner_walk n K c p ty ns nm ctl = Inr t \<Longrightarrow> supported t"
  "namespaced K \<Longrightarrow> owner_walk n K c p ty ns nm ctl = Inr t \<Longrightarrow> object_namespace t = ns"
  by (induction n K c p ty ns nm ctl rule: owner_walk.induct)
    (auto simp: supported_def object_namespace_def namespaced_def
      split: option.splits if_splits sum.splits kube_error.splits)

interpretation kserve: cost_adapter KServe_ResolveTarget "\<lambda>K. PatchTargetAnnotations (ka_patch K)"
  by unfold_locales (auto simp: KServe_ResolveTarget_def resolve_named_props PatchTargetAnnotations_keeps)

interpretation trainer: cost_adapter KubeflowTrainer_ResolveTarget KubeflowTrainer_WriteCost
proof unfold_locales
  fix K :: "'c kube" and I c t res assume I: "cost_writes_keep K I" "I c"
  from PatchTargetAnnotations_keeps [OF this] total_patch_keeps [OF I(1)]
  show "I (snd (KubeflowTrainer_WriteCost K t res c))"
    by (auto simp: KubeflowTrainer_WriteCost_def split: prod.splits sum.splits) (metis snd_conv)+
qed (auto simp: KubeflowTrainer_ResolveTarget_def resolve_named_props)

interpretation rayserve: cost_adapter RayServe_ResolveTarget "\<lambda>K. PatchTargetAnnotations (ka_patch K)"
  by unfold_locales (auto simp: RayServe_props PatchTargetAnnotations_keeps)

interpretation bentoml: cost_adapter BentoML_ResolveTarget "\<lambda>K. PatchTargetAnnotations (ka_patch K)"
  by unfold_locales (auto simp: BentoML_ResolveTarget_def resolve_named_props PatchTargetAnnotations_keeps)

interpretation generic: cost_adapter Generic_ResolveTarget "\<lambda>K. PatchTargetAnnotations (ka_patch K)"
  by unfold_locales (auto simp: Generic_ResolveTarget_def owner_walk_props PatchTargetAnnotations_keeps)

lemma WriteCost_keeps:
  "cost_writes_keep K I \<Longrightarrow> I c \<Longrightarrow> I (snd (WriteCost a K t res c))"
  by (cases a) (simp_all add: WriteCost_def kserve.write_keeps trainer.write_keeps)

lemma ResolveTarget_target:
  assumes "namespaced K" and "ResolveTarget a K c p = Inr t"
  shows "supported t \<and> object_namespace t = p_namespace p"
  using assms
  by (cases a) (auto simp: ResolveTarget_def dest: kserve.resolve_supported kserve.resolve_namespace
      trainer.resolve_supported trainer.resolve_namespace rayserve.resolve_supported
      rayserve.resolve_namespace bentoml.resolve_supported bentoml.resolve_namespace
      generic.resolve_supported generic.resolve_namespace)

text \<open>An adapter only ever resolves a pod to an object it can annotate, in the pod's own
  namespace, provided the API server answers requests for a namespace from that namespace.\<close>

theorem ResolveTarget_own_namespace:
  assumes "namespaced K" and "ResolveTarget a K c p = Inr t"
  shows "supported t \<and> object_namespace t = p_namespace p"
  using assms by (rule ResolveTarget_target)

text \<open>An API server with one ReplicaSet of one Deployment in every namespace.\<close>

definition lookup_at :: "amap \<Rightarrow> string list \<Rightarrow> aval option" where
  "lookup_at obj keys = nested_value (Some obj) keys"

definition demo_dep :: "string \<Rightarrow> replicated" where
  "demo_dep ns = \<lparr>r_namespace = ns, r_name = ''llm'', r_annotations = fmempty, r_readyReplicas = 2,
     r_specReplicas = Some 3\<rparr>"

definition demo_kube :: "nat kube" where
  "demo_kube = \<lparr>ka_get_deployment = (\<lambda>c ns n. Inr (demo_dep ns)), ka_get_statefulset = (\<lambda>c ns n. Inl ErrNotFound),
     ka_get_replicaset = (\<lambda>c ns n. Inr \<lparr>rs_namespace = ns, rs_name = n,
       rs_controller = Some \<lparr>or_kind = ''Deployment'', or_name = ''llm''\<rparr>\<rparr>),
     ka_get_unstructured = (\<lambda>c g ns n. Inl ErrNotFound),
     ka_list_unstructured = (\<lambda>c g ns. Inr []), ka_list_pods = (\<lambda>c. Inr []),
     ka_list_pods_labelled = (\<lambda>c ns k v. Inr []), ka_patch = demo_patch,
     NestedInt64 = (\<lambda>m ks. Inr (case lookup_at m ks of Some (AInt64 n) \<Rightarrow> Some n | _ \<Rightarrow> None)),
     NestedString = (\<lambda>m ks. Inr (case lookup_at m ks of Some (AString s) \<Rightarrow> Some s | _ \<Rightarrow> None)),
     NestedSlice = (\<lambda>m ks. Inr (as_list (lookup_at m ks))),
     NestedMap = (\<lambda>m ks. Inr (as_map (lookup_at m ks))),
     ParseQuantity = (\<lambda>s. if digits s \<and> s \<noteq> [] then Some (int (digits_val s)) else None), k_oor64 = (\<lambda>_. 0)\<rparr>"

definition demo_pod :: pod where
  "demo_pod = \<lparr>p_namespace = ''ml'', p_name = ''llm-1'', p_labels = fmempty,
     p_controller = Some \<lparr>or_kind = ''ReplicaSet'', or_name = ''llm-rs''\<rparr>,
     p_containers = [\<lparr>c_limits = fmupd ''nvidia.com/gpu'' \<lparr>quantity_value = 2, quantity_sign = 1\<rparr> fmempty,
       c_requests = fmupd ''nvidia.com/gpu'' \<lparr>quantity_value = 2, quantity_sign = 1\<rparr> fmempty\<rparr>],
     p_initContainers = [], p_phase = ''Running'', p_waiting = [], p_deleted = False\<rparr>"

lemma demo_namespaced: "namespaced demo_kube"
  by (simp add: namespaced_def demo_kube_def demo_dep_def)

lemma demo_resolve: "ResolveTarget Generic demo_kube c demo_pod = Inr (KDeployment (demo_dep ''ml''))"
  by (simp add: ResolveTarget_def Generic_ResolveTarget_def demo_kube_def demo_pod_def eval_nat_numeral)

theorem ResolveTarget_own_namespace_witness:
  "object_namespace (KDeployment (demo_dep ''ml'')) = p_namespace demo_pod"
  using ResolveTarget_own_namespace [OF demo_namespaced demo_resolve] by simp

section \<open>The owner walk\<close>

text \<open>
  The chain of controllers the walk is meant to follow, with the number of ReplicaSets on the way
  to a Deployment or StatefulSet.
\<close>

inductive owner_chain :: "'c kube \<Rightarrow> 'c \<Rightarrow> string \<Rightarrow> nat \<Rightarrow> owner_ref option \<Rightarrow> kobject \<Rightarrow> bool"
  for K :: "'c kube" and c :: 'c and ns :: string where
  deployment: "or_kind r = ''Deployment'' \<Longrightarrow> ka_get_deployment K c ns (or_name r) = Inr d
    \<Longrightarrow> owner_chain K c ns 0 (Some r) (KDeployment d)"
| statefulset: "or_kind r = ''StatefulSet'' \<Longrightarrow> ka_get_statefulset K c ns (or_name r) = Inr d
    \<Longrightarrow> owner_chain K c ns 0 (Some r) (KStatefulSet d)"
| replicaset: "or_kind r = ''ReplicaSet'' \<Longrightarrow> ka_get_replicaset K c ns (or_name r) = Inr rs
    \<Longrightarrow> owner_chain K c ns n (rs_controller rs) t \<Longrightarrow> owner_chain K c ns (Suc n) (Some r) t"

inductive_cases owner_chainE: "owner_chain K c ns n (Some r) t"
inductive_cases owner_chain_NoneE: "owner_chain K c ns n None t"

lemma owner_walk_chain:
  assumes "namespaced K"
  shows "owner_walk m K c p ty ns nm ctl = Inr t \<longleftrightarrow> (\<exists>n<m. owner_chain K c ns n ctl t)"
proof (induction m arbitrary: ty nm ctl)
  case (Suc m)
  show ?case
  proof (cases ctl)
    case None
    then show ?thesis by (auto elim: owner_chain_NoneE)
  next
    case (Some r)
    have rs: "rs_namespace s = ns" if "ka_get_replicaset K c ns (or_name r) = Inr s" for s
      using assms that by (simp add: namespaced_def)
    have walk: "owner_walk (Suc m) K c p ty ns nm (Some r) = Inr t \<longleftrightarrow>
        (or_kind r = ''ReplicaSet'' \<and> (\<exists>s. ka_get_replicaset K c ns (or_name r) = Inr s
            \<and> (\<exists>n<m. owner_chain K c ns n (rs_controller s) t)))
      \<or> (or_kind r = ''StatefulSet'' \<and> (\<exists>d. ka_get_statefulset K c ns (or_name r) = Inr d \<and> t = KStatefulSet d))
      \<or> (or_kind r = ''Deployment'' \<and> (\<exists>d. ka_get_deployment K c ns (or_name r) = Inr d \<and> t = KDeployment d))"
      using Suc.IH rs by (auto split: sum.splits kube_error.splits)
    show ?thesis
      unfolding Some walk
    proof (intro iffI; elim disjE conjE exE)
      fix s n assume "or_kind r = ''ReplicaSet''" "ka_get_replicaset K c ns (or_name r) = Inr s"
        "n < m" "owner_chain K c ns n (rs_controller s) t"
      then show "\<exists>n<Suc m. owner_chain K c ns n (Some r) t"
        by (intro exI [of _ "Suc n"]) (auto intro: owner_chain.replicaset)
    qed (auto elim!: owner_chainE intro: owner_chain.intros)
  qed
qed simp

text \<open>C33 The generic adapter's loop finds exactly the owner at the end of the controller chain: it
  returns a target if and only if at most fifteen ReplicaSets lead from the pod to that Deployment or
  StatefulSet, and then that one.\<close>

theorem Generic_ResolveTarget_chain:
  assumes "namespaced K"
  shows "Generic_ResolveTarget K c p = Inr t \<longleftrightarrow>
    (\<exists>n<16. owner_chain K c (p_namespace p) n (p_controller p) t)"
  unfolding Generic_ResolveTarget_def by (rule owner_walk_chain [OF assms])

theorem Generic_ResolveTarget_chain_witness:
  "\<exists>n<16. owner_chain demo_kube 0 ''ml'' n (p_controller demo_pod) (KDeployment (demo_dep ''ml''))"
  using Generic_ResolveTarget_chain [OF demo_namespaced, of 0 demo_pod "KDeployment (demo_dep ''ml'')"]
    demo_resolve by (simp add: ResolveTarget_def demo_pod_def)

section \<open>GPU counts of unstructured objects\<close>

definition nest :: "string list \<Rightarrow> aval \<Rightarrow> aval" where
  "nest ks v = foldr (\<lambda>k x. AMap (fmupd k x fmempty)) ks v"

text \<open>The second of the three default paths is never read: GPU limits given under
  spec.predictor.resources.limits count as 0, because the path has four components and only paths of
  five are read as limits. The first and third paths are read.\<close>

theorem predictor_limits_path_ignored:
  "(case nest [''spec'', ''predictor'', ''resources'', ''limits'', ''nvidia.com/gpu''] v of
      AMap m \<Rightarrow> GPUCountFromUnstructured K m = 0 | _ \<Rightarrow> False)
   \<and> (case nest [''spec'', ''predictor'', ''model'', ''resources'', ''limits'', ''nvidia.com/gpu''] (AInt64 4) of
      AMap m \<Rightarrow> GPUCountFromUnstructured K m = 4 | _ \<Rightarrow> False)
   \<and> (case nest [''spec'', ''predictor'', ''workerSpec'', ''containers'']
        (AList [nest [''resources'', ''limits'', ''nvidia.com/gpu''] (AInt64 8)]) of
      AMap m \<Rightarrow> GPUCountFromUnstructured K m = 8 | _ \<Rightarrow> False)"
  by (simp add: nest_def GPUCountFromUnstructured_def defaultPaths_def nestedMap_def nestedSlice_def
      as_map_def as_list_def gpuFromLimitsMap_def gpuFromContainersSlice_def gpuResourceName_def
      parseGPUQuantity_def Let_def)

section \<open>Job durations\<close>

lemma sub_time_pos: "s < e \<Longrightarrow> 0 < sub_time e s" "in_i64 (sub_time e s)"
  by (auto simp: sub_time_def sat64_def in_i64_def)

text \<open>A job duration is always positive and fits Go's duration type, from whichever source it is
  read, so a total is only ever written for a job that ran, and it is never negative.\<close>

theorem trainJobDuration_positive:
  assumes "trainJobDuration K obj = Some d"
  shows "0 < d \<and> in_i64 d \<and> \<not> flt (job_total cph d) fzero"
proof -
  have "0 < d \<and> in_i64 d"
    using assms by (auto simp: trainJobDuration_def trainJobTimesFromStatus_def
        trainJobDurationFromConditions_def sub_time_pos split: option.splits if_splits prod.splits)
  then show ?thesis by (simp add: job_total_def Let_def fzero_def)
qed

definition demo_job :: amap where
  "demo_job = fmupd ''status'' (AMap (fmupd ''startTime'' (AString ''2026-03-01T00:00:00Z'')
     (fmupd ''completionTime'' (AString ''2026-03-01T02:00:00Z'') fmempty))) fmempty"

lemma demo_times:
  "ParseRFC3339 ''2026-03-01T00:00:00Z'' = Some 63907920000000000000"
  "ParseRFC3339 ''2026-03-01T02:00:00Z'' = Some 63907927200000000000"
  by code_simp+

lemma demo_duration: "trainJobDuration demo_kube demo_job = Some (2 * ns_per_hour)"
  by (simp add: trainJobDuration_def trainJobTimesFromStatus_def status_time_def parse_time_def
      demo_kube_def demo_job_def lookup_at_def as_map_def demo_times sub_time_def sat64_def ns_per_hour_def)

theorem trainJobDuration_positive_witness: "0 < (2 * ns_per_hour)"
  using trainJobDuration_positive [OF demo_duration] by simp

end
