(* ===== verification/Unstructured.thy ===== *)
theory Unstructured
  imports CostTable Adapters
begin

text \<open>
  What the command line uses of \<^verbatim>\<open>k8s.io/apimachinery\<close> to read unstructured objects: the typed
  accessors of package \<^verbatim>\<open>unstructured\<close>, the converter to a pod spec, the quantity parser, the
  parser of group versions, the text of a resource name and the key under which the YAML encoder writes a field that
  has no YAML tag. They are fields of the record \<open>lib\<close>, a parameter of every definition
  that calls them.

  \<open>documented\<close> states what the accessors' documentation promises: the value at the path when it has
  the asked type, an error when it has another, not found when the path does not lead to a value.
  \<open>std_lib\<close> is an instance, used in examples.
\<close>

section \<open>The library\<close>

record lib =
  l_Int64 :: "amap \<Rightarrow> string list \<Rightarrow> string + int option"
  l_Float64 :: "amap \<Rightarrow> string list \<Rightarrow> string + f64 option"
  l_String :: "amap \<Rightarrow> string list \<Rightarrow> string + string option"
  l_Slice :: "amap \<Rightarrow> string list \<Rightarrow> string + aval list option"
  l_Map :: "amap \<Rightarrow> string list \<Rightarrow> string + amap option"
  l_StringMap :: "amap \<Rightarrow> string list \<Rightarrow> string + smap option"
  l_Quantity :: "string \<Rightarrow> quantity option"
  l_PodSpec :: "amap \<Rightarrow> pod_spec \<Rightarrow> pod_spec"
  l_GroupVersion :: "string \<Rightarrow> (string \<times> string) option"
  l_gvr_text :: "string \<Rightarrow> string \<Rightarrow> string \<Rightarrow> string"
  l_oor64 :: "f64 \<Rightarrow> int"
  l_oor32 :: "f64 \<Rightarrow> int"
  l_yaml_key :: "string \<Rightarrow> string"

text \<open>The code's \<^verbatim>\<open>v, ok, _ := Nested...\<close>: the value, if it was found without an error.\<close>

definition found :: "string + 'a option \<Rightarrow> 'a option" where
  "found r = (case r of Inr v \<Rightarrow> v | Inl _ \<Rightarrow> None)"

lemma found_simps [simp]: "found (Inr v) = v" "found (Inl e) = None"
  by (simp_all add: found_def)

section \<open>Documented behaviour\<close>

fun path_value :: "aval \<Rightarrow> string list \<Rightarrow> aval option" where
  "path_value v [] = Some v"
| "path_value (AMap m) (k # ks) = (case fmlookup m k of None \<Rightarrow> None | Some v \<Rightarrow> path_value v ks)"
| "path_value _ (k # ks) = None"

definition accessor :: "(aval \<Rightarrow> 'a option) \<Rightarrow> amap \<Rightarrow> string list \<Rightarrow> string + 'a option" where
  "accessor sel m ks = (case path_value (AMap m) ks of
     None \<Rightarrow> Inr None
   | Some v \<Rightarrow> (case sel v of Some x \<Rightarrow> Inr (Some x) | None \<Rightarrow> Inl ''accessor error''))"

definition typed_access :: "(aval \<Rightarrow> 'a option) \<Rightarrow> (amap \<Rightarrow> string list \<Rightarrow> string + 'a option) \<Rightarrow> bool" where
  "typed_access sel acc \<longleftrightarrow> (\<forall>m ks. found (acc m ks) = found (accessor sel m ks))"

definition val_int :: "aval \<Rightarrow> int option" where
  "val_int v = (case v of AInt64 n \<Rightarrow> Some n | _ \<Rightarrow> None)"

definition val_float :: "aval \<Rightarrow> f64 option" where
  "val_float v = (case v of AFloat x \<Rightarrow> Some x | _ \<Rightarrow> None)"

definition val_string :: "aval \<Rightarrow> string option" where
  "val_string v = (case v of AString s \<Rightarrow> Some s | _ \<Rightarrow> None)"

definition val_smap :: "aval \<Rightarrow> smap option" where
  "val_smap v = (case v of
     AMap m \<Rightarrow> if fmpred (\<lambda>_ x. val_string x \<noteq> None) m then Some (fmmap (\<lambda>x. as_string (Some x)) m) else None
   | _ \<Rightarrow> None)"

definition documented :: "lib \<Rightarrow> bool" where
  "documented L \<longleftrightarrow> typed_access val_int (l_Int64 L) \<and> typed_access val_float (l_Float64 L)
     \<and> typed_access val_string (l_String L) \<and> typed_access (\<lambda>v. as_list (Some v)) (l_Slice L)
     \<and> typed_access (\<lambda>v. as_map (Some v)) (l_Map L) \<and> typed_access val_smap (l_StringMap L)"

named_theorems lib_access \<open>what a documented accessor finds\<close>

lemma documented_access [lib_access]:
  assumes "documented L"
  shows "found (l_Int64 L m ks) = Option.bind (path_value (AMap m) ks) val_int"
    "found (l_Float64 L m ks) = Option.bind (path_value (AMap m) ks) val_float"
    "found (l_String L m ks) = Option.bind (path_value (AMap m) ks) val_string"
    "found (l_Slice L m ks) = Option.bind (path_value (AMap m) ks) (\<lambda>v. as_list (Some v))"
    "found (l_Map L m ks) = Option.bind (path_value (AMap m) ks) (\<lambda>v. as_map (Some v))"
    "found (l_StringMap L m ks) = Option.bind (path_value (AMap m) ks) val_smap"
  using assms by (auto simp: documented_def typed_access_def accessor_def split: option.splits)

definition std_lib :: lib where
  "std_lib = \<lparr>l_Int64 = accessor val_int, l_Float64 = accessor val_float, l_String = accessor val_string,
     l_Slice = accessor (\<lambda>v. as_list (Some v)), l_Map = accessor (\<lambda>v. as_map (Some v)),
     l_StringMap = accessor val_smap,
     l_Quantity = (\<lambda>s. if digits s \<and> s \<noteq> [] then Some \<lparr>quantity_value = int (digits_val s),
       quantity_sign = (if digits_val s = 0 then 0 else 1)\<rparr> else None),
     l_PodSpec = (\<lambda>m spec. spec),
     l_GroupVersion = (\<lambda>s. case dropWhile (\<lambda>c. c \<noteq> CHR ''/'') s of
       [] \<Rightarrow> Some ([], s) | _ # v \<Rightarrow> Some (takeWhile (\<lambda>c. c \<noteq> CHR ''/'') s, v)),
     l_gvr_text = (\<lambda>grp v r. grp @ ''/'' @ v @ '' '' @ r), l_oor64 = (\<lambda>_. 0), l_oor32 = (\<lambda>_. 0),
     l_yaml_key = ToLower\<rparr>"

lemma std_documented: "documented std_lib"
  by (simp add: documented_def std_lib_def typed_access_def)

section \<open>Labels\<close>

text \<open>\<^verbatim>\<open>GetLabels\<close> reads the metadata; an absent or malformed map is the nil map.\<close>

definition GetLabels :: "lib \<Rightarrow> unstr \<Rightarrow> smap" where
  "GetLabels L u = (case found (l_StringMap L (u_object u) [''metadata'', ''labels'']) of
     Some m \<Rightarrow> m | None \<Rightarrow> fmempty)"

end
