(* ===== verification/CostCollect.thy ===== *)
theory CostCollect
  imports Unstructured "HOL-Library.Product_Lexorder" "HOL-Library.Multiset"
begin

text \<open>
  The rest of \<^verbatim>\<open>internal/cost\<close>: discovery of the platforms' resources, the workloads found as
  unstructured objects, the collected and sorted rows, the cells and footer of the table, and its JSON rows.

  \<open>order\<close> is the order in which Go ranges over the map of rows, and \<open>sort_slice\<close> stands for
  \<^verbatim>\<open>sort.Slice\<close>, of which only the documented contract is used; the API server's answers, the
  discovery answers and the colour library are parameters. Drawing the table is a library call on its
  cells; of the JSON encoder of the standard library the fields and the refused floats are modelled, not the text.
\<close>

section \<open>Discovery\<close>

record gvr =
  gvr_group :: string
  gvr_version :: string
  gvr_resource :: string

record api_resource =
  ar_name :: string
  ar_kind :: string

record resource_group =
  rg_groupVersion :: string
  rg_resources :: "api_resource list"

text \<open>One answer of \<^verbatim>\<open>ServerPreferredResources\<close>: the lists, and the error if there is one.\<close>

datatype disc_error = GroupDiscoveryFailed | DiscoveryError string

record disc_answer =
  da_lists :: "resource_group list"
  da_error :: "disc_error option"

record crd_catalog =
  cat_kserve :: "gvr list"
  cat_bento :: "gvr list"
  cat_training :: "gvr list"
  cat_ray :: "gvr list"

definition IsBentoDeploymentGVR :: "string \<Rightarrow> string \<Rightarrow> bool" where
  "IsBentoDeploymentGVR grp resource \<longleftrightarrow> resource = ''bentodeployments''
     \<and> (Contains grp ''serving.yatai.ai'' \<or> Contains grp ''serving.bento.ai'')"

definition training_resources :: "string list" where
  "training_resources = [''trainjobs'', ''pytorchjobs'', ''tfjobs'', ''xgboostjobs'', ''mpijobs'', ''paddlejobs'']"

definition ray_resources :: "string list" where
  "ray_resources = [''rayjobs'', ''rayclusters'', ''rayservices'']"

definition add_resource :: "string \<Rightarrow> string \<Rightarrow> api_resource \<Rightarrow> crd_catalog \<Rightarrow> crd_catalog" where
  "add_resource grp version r cat =
    (let g = \<lparr>gvr_group = grp, gvr_version = version, gvr_resource = ar_name r\<rparr> in
     if ar_kind r = '''' \<or> Contains (ar_name r) ''/'' then cat
     else if Contains grp ''serving.kserve.io'' \<and> ar_name r = ''inferenceservices''
       then cat\<lparr>cat_kserve := cat_kserve cat @ [g]\<rparr>
     else if IsBentoDeploymentGVR grp (ar_name r) then cat\<lparr>cat_bento := cat_bento cat @ [g]\<rparr>
     else if Contains grp ''kubeflow.org'' \<and> List.member training_resources (ar_name r)
       then cat\<lparr>cat_training := cat_training cat @ [g]\<rparr>
     else if Contains grp ''ray.io'' \<and> List.member ray_resources (ar_name r)
       then cat\<lparr>cat_ray := cat_ray cat @ [g]\<rparr>
     else cat)"

definition empty_catalog :: crd_catalog where
  "empty_catalog = \<lparr>cat_kserve = [], cat_bento = [], cat_training = [], cat_ray = []\<rparr>"

definition catalog_of :: "lib \<Rightarrow> resource_group list \<Rightarrow> crd_catalog" where
  "catalog_of L rls = fold (\<lambda>rl cat. case l_GroupVersion L (rg_groupVersion rl) of None \<Rightarrow> cat
     | Some (grp, version) \<Rightarrow> fold (add_resource grp version) (rg_resources rl) cat) rls empty_catalog"

text \<open>The first answer, and the second one that a partial failure asks for.\<close>

definition discoverCRDs :: "lib \<Rightarrow> disc_answer \<Rightarrow> disc_answer \<Rightarrow> string + crd_catalog" where
  "discoverCRDs L first_answer second_answer = (case da_error first_answer of
     None \<Rightarrow> Inr (catalog_of L (da_lists first_answer))
   | Some GroupDiscoveryFailed \<Rightarrow> Inr (catalog_of L (da_lists second_answer))
   | Some (DiscoveryError err) \<Rightarrow> Inl (''discovery: '' @ err))"

section \<open>Pod specs of unstructured objects\<close>

definition resourceListFromMap :: "lib \<Rightarrow> amap option \<Rightarrow> resource_list option" where
  "resourceListFromMap L m = map_option (\<lambda>m.
     let q = (\<lambda>v. case v of AString s \<Rightarrow> l_Quantity L s | _ \<Rightarrow> None)
     in fmmap (\<lambda>v. the (q v)) (fmfilter (\<lambda>k. Option.bind (fmlookup m k) q \<noteq> None) m)) m"

definition cost_nestedMap :: "amap \<Rightarrow> string \<Rightarrow> amap option" where
  "cost_nestedMap m key = as_map (fmlookup m key)"

definition nestedResourceLimits :: "lib \<Rightarrow> amap \<Rightarrow> string list \<Rightarrow> resource_list option" where
  "nestedResourceLimits L obj keys = (case l_Map L obj keys of
     Inr (Some res) \<Rightarrow> resourceListFromMap L (cost_nestedMap res ''limits'') | _ \<Rightarrow> None)"

definition some_list :: "resource_list option \<Rightarrow> resource_list" where
  "some_list rl = (case rl of Some m \<Rightarrow> m | None \<Rightarrow> fmempty)"

definition containersFromSlice :: "lib \<Rightarrow> aval list \<Rightarrow> container list" where
  "containersFromSlice L raw = List.map_filter (\<lambda>item. case item of
     AMap m \<Rightarrow> Some (case found (l_Map L m [''resources'']) of
         Some res \<Rightarrow> \<lparr>c_limits = some_list (resourceListFromMap L (cost_nestedMap res ''limits'')),
           c_requests = some_list (resourceListFromMap L (cost_nestedMap res ''requests''))\<rparr>
       | None \<Rightarrow> \<lparr>c_limits = fmempty, c_requests = fmempty\<rparr>)
   | _ \<Rightarrow> None) raw"

definition limits_spec :: "resource_list \<Rightarrow> pod_spec \<Rightarrow> pod_spec" where
  "limits_spec limits spec = spec\<lparr>ps_containers := [\<lparr>c_limits = limits, c_requests = fmempty\<rparr>]\<rparr>"

text \<open>
  The attempts of \<^verbatim>\<open>podSpecFromUnstructured\<close> in order. Each may change the spec under construction,
  and the first after which it requests a GPU ends the search; what a failed attempt wrote stays.
\<close>

definition spec_attempts :: "lib \<Rightarrow> amap \<Rightarrow> (pod_spec \<Rightarrow> pod_spec option) list" where
  "spec_attempts L obj =
    [\<lambda>spec. map_option (\<lambda>m. limits_spec (some_list (resourceListFromMap L (Some m))) spec)
        (found (l_Map L obj [''spec'', ''resources'', ''limits''])),
     \<lambda>spec. map_option (\<lambda>l. limits_spec l spec)
        (nestedResourceLimits L obj [''spec'', ''predictor'', ''model'', ''resources'']),
     \<lambda>spec. map_option (\<lambda>l. limits_spec l spec)
        (nestedResourceLimits L obj [''spec'', ''predictor'', ''resources'']),
     \<lambda>spec. map_option (\<lambda>m. l_PodSpec L m spec) (found (l_Map L obj [''spec'', ''predictor'', ''podSpec''])),
     \<lambda>spec. (case found (l_Slice L obj [''spec'', ''predictor'', ''containers'']) of
        Some (r # rs) \<Rightarrow> Some (spec\<lparr>ps_containers := containersFromSlice L (r # rs)\<rparr>) | _ \<Rightarrow> None)]"

fun first_gpu_spec :: "(pod_spec \<Rightarrow> pod_spec option) list \<Rightarrow> pod_spec \<Rightarrow> bool \<times> pod_spec" where
  "first_gpu_spec [] spec = (False, spec)"
| "first_gpu_spec (f # fs) spec = (case f spec of None \<Rightarrow> first_gpu_spec fs spec
   | Some spec' \<Rightarrow> if podSpecRequestsGPU spec' then (True, spec') else first_gpu_spec fs spec')"

definition podSpecFromUnstructured :: "lib \<Rightarrow> amap \<Rightarrow> pod_spec" where
  "podSpecFromUnstructured L obj =
    (case first_gpu_spec (spec_attempts L obj) \<lparr>ps_containers = [], ps_initContainers = []\<rparr> of
       (True, spec) \<Rightarrow> spec
     | (False, spec) \<Rightarrow> (case found (l_Map L obj [''spec'', ''template'', ''spec'']) of
         Some m \<Rightarrow> l_PodSpec L m spec | None \<Rightarrow> spec))"

definition templateLabelsFromUnstructured :: "lib \<Rightarrow> amap \<Rightarrow> smap option" where
  "templateLabelsFromUnstructured L obj =
    (case found (l_StringMap L obj [''spec'', ''template'', ''metadata'', ''labels'']) of
       Some m \<Rightarrow> Some m
     | None \<Rightarrow> found (l_StringMap L obj [''spec'', ''predictor'', ''metadata'', ''labels'']))"

definition replicasFromUnstructured :: "lib \<Rightarrow> amap \<Rightarrow> int" where
  "replicasFromUnstructured L obj = (case found (l_Int64 L obj [''spec'', ''replicas'']) of
     Some r \<Rightarrow> if 0 < r then i32 r else 1 | None \<Rightarrow> 1)"

section \<open>Collecting\<close>

definition unstr_kind :: "gvr \<Rightarrow> unstr \<Rightarrow> string" where
  "unstr_kind g u = (if gvk_kind (u_gvk u) = '''' then gvr_resource g else gvk_kind (u_gvk u))"

definition add_unstructured :: "lib \<Rightarrow> gvr \<Rightarrow> unstr \<Rightarrow> row_map \<Rightarrow> row_map" where
  "add_unstructured L g u byKey =
    (let podSpec = podSpecFromUnstructured L (u_object u) in
     if \<not> shouldIncludeWorkload (u_annotations u) podSpec then byKey
     else addWorkloadRow (u_namespace u) (u_name u) (unstr_kind g u) (GetLabels L u) (u_annotations u)
       (case templateLabelsFromUnstructured L (u_object u) of Some m \<Rightarrow> m | None \<Rightarrow> fmempty)
       (replicasFromUnstructured L (u_object u)) podSpec byKey)"

definition collectUnstructured ::
  "lib \<Rightarrow> (gvr \<Rightarrow> string + unstr list) \<Rightarrow> gvr \<Rightarrow> row_map \<Rightarrow> string + row_map" where
  "collectUnstructured L list_gvr g byKey = (case list_gvr g of
     Inl err \<Rightarrow> Inl (''list '' @ l_gvr_text L (gvr_group g) (gvr_version g) (gvr_resource g) @ '': '' @ err)
   | Inr items \<Rightarrow> Inr (fold (add_unstructured L g) items byKey))"

fun collect_all :: "lib \<Rightarrow> (gvr \<Rightarrow> string + unstr list) \<Rightarrow> gvr list \<Rightarrow> row_map \<Rightarrow> string + row_map" where
  "collect_all L list_gvr [] byKey = Inr byKey"
| "collect_all L list_gvr (g # gs) byKey = (case collectUnstructured L list_gvr g byKey of
     Inl err \<Rightarrow> Inl err | Inr byKey' \<Rightarrow> collect_all L list_gvr gs byKey')"

definition row_less :: "cost_row \<Rightarrow> cost_row \<Rightarrow> bool" where
  "row_less a b = (if cr_namespace a \<noteq> cr_namespace b then cr_namespace a < cr_namespace b
     else cr_name a < cr_name b)"

text \<open>The cluster as one run of the command sees it, for one namespace.\<close>

record cost_source =
  cs_disc1 :: disc_answer
  cs_disc2 :: disc_answer
  cs_deployments :: "string + typed_workload list"
  cs_statefulsets :: "string + typed_workload list"
  cs_dynamic :: "(gvr \<Rightarrow> string + unstr list) option"

definition catalog_gvrs :: "crd_catalog \<Rightarrow> gvr list" where
  "catalog_gvrs cat = cat_kserve cat @ cat_bento cat @ cat_training cat @ cat_ray cat"

definition CollectCostRows ::
  "lib \<Rightarrow> (row_map \<Rightarrow> cost_row list) \<Rightarrow> ((cost_row \<Rightarrow> cost_row \<Rightarrow> bool) \<Rightarrow> cost_row list \<Rightarrow> cost_row list)
     \<Rightarrow> cost_source \<Rightarrow> string + cost_row list" where
  "CollectCostRows L order sort_slice src =
    (case discoverCRDs L (cs_disc1 src) (cs_disc2 src) of Inl err \<Rightarrow> Inl err
     | Inr catalog \<Rightarrow> (case collectDeployments (cs_deployments src) fmempty of Inl err \<Rightarrow> Inl err
     | Inr m1 \<Rightarrow> (case collectStatefulSets (cs_statefulsets src) m1 of Inl err \<Rightarrow> Inl err
     | Inr m2 \<Rightarrow> (case (case cs_dynamic src of None \<Rightarrow> Inr m2
           | Some list_gvr \<Rightarrow> collect_all L list_gvr (catalog_gvrs catalog) m2) of Inl err \<Rightarrow> Inl err
       | Inr m3 \<Rightarrow> Inr (sort_slice row_less (order m3))))))"

section \<open>First come, first listed\<close>

text \<open>The reference: every listed workload that qualifies, as key and row, in the order of the scans.\<close>

definition workload_row ::
  "string \<Rightarrow> string \<Rightarrow> string \<Rightarrow> smap \<Rightarrow> smap \<Rightarrow> int \<Rightarrow> pod_spec \<Rightarrow> cost_row" where
  "workload_row ns name kind labels anns replicas spec =
    (case DetectPlatform labels anns kind of (platform, workloadType) \<Rightarrow>
      case costAnnotationsFromMap anns of (cph, cpt, cphTotal, updated) \<Rightarrow>
        \<lparr>cr_namespace = ns, cr_name = name, cr_platform = platform, cr_workloadType = workloadType,
         cr_workloadKind = kind, cr_gpuCount = i64 (replicas * gpusPerPod spec), cr_replicas = replicas,
         cr_costPerHour = cph, cr_costPerHourTotal = cphTotal, cr_costPerToken = cpt,
         cr_lastUpdated = updated\<rparr>)"

definition row_key :: "cost_row \<Rightarrow> string \<times> string \<times> string" where
  "row_key r = (cr_namespace r, cr_workloadKind r, cr_name r)"

definition typed_row :: "string \<Rightarrow> typed_workload \<Rightarrow> cost_row" where
  "typed_row kind d = workload_row (tw_namespace d) (tw_name d) kind (tw_labels d ++\<^sub>f tw_template_labels d)
     (tw_annotations d) (replicaCount (tw_replicas d)) (tw_spec d)"

definition deployment_rows :: "typed_workload list \<Rightarrow> cost_row list" where
  "deployment_rows ds = map (typed_row ''Deployment'')
     (filter (\<lambda>d. \<not> isKServeChildDeployment d \<and> \<not> isBentoChildDeployment d
        \<and> shouldIncludeWorkload (tw_annotations d) (tw_spec d)) ds)"

definition statefulset_rows :: "typed_workload list \<Rightarrow> cost_row list" where
  "statefulset_rows ds = map (typed_row ''StatefulSet'')
     (filter (\<lambda>d. shouldIncludeWorkload (tw_annotations d) (tw_spec d)) ds)"

definition unstructured_rows :: "lib \<Rightarrow> gvr \<Rightarrow> unstr list \<Rightarrow> cost_row list" where
  "unstructured_rows L g us = map (\<lambda>u. workload_row (u_namespace u) (u_name u) (unstr_kind g u)
       (GetLabels L u ++\<^sub>f (case templateLabelsFromUnstructured L (u_object u) of Some m \<Rightarrow> m | None \<Rightarrow> fmempty))
       (u_annotations u) (replicasFromUnstructured L (u_object u)) (podSpecFromUnstructured L (u_object u)))
     (filter (\<lambda>u. shouldIncludeWorkload (u_annotations u) (podSpecFromUnstructured L (u_object u))) us)"

definition listed :: "string + 'a list \<Rightarrow> 'a list" where
  "listed r = (case r of Inr l \<Rightarrow> l | Inl _ \<Rightarrow> [])"

definition qualifying_rows :: "lib \<Rightarrow> cost_source \<Rightarrow> cost_row list" where
  "qualifying_rows L src = deployment_rows (listed (cs_deployments src))
     @ statefulset_rows (listed (cs_statefulsets src))
     @ (case (cs_dynamic src, discoverCRDs L (cs_disc1 src) (cs_disc2 src)) of
          (Some list_gvr, Inr cat) \<Rightarrow>
            concat (map (\<lambda>g. unstructured_rows L g (listed (list_gvr g))) (catalog_gvrs cat))
        | _ \<Rightarrow> [])"

definition put_first :: "cost_row \<Rightarrow> row_map \<Rightarrow> row_map" where
  "put_first r m = (if fmlookup m (row_key r) \<noteq> None then m else fmupd (row_key r) r m)"

definition key_rows :: "cost_row list \<Rightarrow> ((string \<times> string \<times> string) \<times> cost_row) list" where
  "key_rows rs = map (\<lambda>r. (row_key r, r)) rs"

lemma key_rows_simps [simp]: "key_rows [] = []" "key_rows (r # rs) = (row_key r, r) # key_rows rs"
  "key_rows (rs @ rs') = key_rows rs @ key_rows rs'"
  by (simp_all add: key_rows_def)

lemma row_key_workload_row [simp]: "row_key (workload_row ns name kind l a n spec) = (ns, kind, name)"
  by (simp add: row_key_def workload_row_def split: prod.splits)

lemma addWorkloadRow_put_first:
  "addWorkloadRow ns name kind l a tls n spec m = put_first (workload_row ns name kind (l ++\<^sub>f tls) a n spec) m"
  by (simp add: addWorkloadRow_def put_first_def Let_def) (simp add: workload_row_def split: prod.splits)

lemma lookup_fold_put_first:
  "fmlookup (fold put_first rs m) k = (case fmlookup m k of Some r \<Rightarrow> Some r | None \<Rightarrow> map_of (key_rows rs) k)"
  by (induction rs arbitrary: m) (auto simp: put_first_def split: option.splits)

lemma fold_filter_map: "fold (\<lambda>x m. if P x then put_first (f x) m else m) xs m = fold put_first (map f (filter P xs)) m"
  by (induction xs arbitrary: m) auto

lemma fold_if_rows:
  assumes "\<And>x m. step x m = (if P x then put_first (f x) m else m)"
  shows "fold step xs m = fold put_first (map f (filter P xs)) m"
proof -
  have "step = (\<lambda>x m. if P x then put_first (f x) m else m)" using assms by (intro ext)
  then show ?thesis by (simp add: fold_filter_map)
qed

lemma collectDeployments_rows:
  "collectDeployments l m = (case l of Inl err \<Rightarrow> Inl (''list deployments: '' @ err)
     | Inr ds \<Rightarrow> Inr (fold put_first (deployment_rows ds) m))"
  unfolding collectDeployments_def deployment_rows_def
  by (intro sum.case_cong refl arg_cong [where f = Inr] fold_if_rows)
    (simp add: addWorkloadRow_put_first typed_row_def)

lemma collectStatefulSets_rows:
  "collectStatefulSets l m = (case l of Inl err \<Rightarrow> Inl (''list statefulsets: '' @ err)
     | Inr ds \<Rightarrow> Inr (fold put_first (statefulset_rows ds) m))"
  unfolding collectStatefulSets_def statefulset_rows_def
  by (intro sum.case_cong refl arg_cong [where f = Inr] fold_if_rows)
    (simp add: addWorkloadRow_put_first typed_row_def)

lemma add_unstructured_rows: "fold (add_unstructured L g) us m = fold put_first (unstructured_rows L g us) m"
  unfolding unstructured_rows_def
  by (intro fold_if_rows) (simp add: add_unstructured_def addWorkloadRow_put_first Let_def)

lemma collect_all_rows:
  assumes "collect_all L lg gs m = Inr m'"
  shows "m' = fold put_first (concat (map (\<lambda>g. unstructured_rows L g (listed (lg g))) gs)) m"
  using assms
proof (induction gs arbitrary: m)
  case (Cons g gs)
  then show ?case
    by (cases "lg g") (auto simp: collectUnstructured_def add_unstructured_rows listed_def)
qed simp

text \<open>
  Documented behaviour: ranging over a map visits each entry once, and \<^verbatim>\<open>sort.Slice\<close> permutes the
  slice so that no element is less than one before it; elements that compare equal come in any order.
\<close>

definition range_order :: "(row_map \<Rightarrow> cost_row list) \<Rightarrow> bool" where
  "range_order order \<longleftrightarrow> (\<forall>m. \<exists>ks. distinct ks \<and> set ks = fset (fmdom m) \<and> order m = map (\<lambda>k. the (fmlookup m k)) ks)"

definition sorts :: "((cost_row \<Rightarrow> cost_row \<Rightarrow> bool) \<Rightarrow> cost_row list \<Rightarrow> cost_row list) \<Rightarrow> bool" where
  "sorts sort_slice \<longleftrightarrow> (\<forall>xs. mset (sort_slice row_less xs) = mset xs
     \<and> sorted_wrt (\<lambda>a b. \<not> row_less b a) (sort_slice row_less xs))"

lemma key_rows_lookup: "map_of (key_rows rs) k = Some r \<Longrightarrow> row_key r = k"
  by (auto simp: key_rows_def dest!: map_of_SomeD)

lemma ordered_rows:
  assumes "range_order order" and "\<And>k r. fmlookup m k = Some r \<Longrightarrow> row_key r = k"
  shows "distinct (map row_key (order m))" and "set (order m) = {r. fmlookup m (row_key r) = Some r}"
proof -
  obtain ks where ks: "distinct ks" "set ks = fset (fmdom m)" "order m = map (\<lambda>k. the (fmlookup m k)) ks"
    using assms(1) by (auto simp: range_order_def)
  have key: "row_key (the (fmlookup m k)) = k" if "k \<in> set ks" for k
    using that ks(2) assms(2) [of k] by (cases "fmlookup m k") (auto simp: fmdom_notI)
  then have "map row_key (order m) = ks" by (simp add: ks(3) map_idI)
  then show "distinct (map row_key (order m))" using ks(1) by simp
  show "set (order m) = {r. fmlookup m (row_key r) = Some r}"
  proof (intro set_eqI iffI)
    fix r assume "r \<in> set (order m)"
    then obtain k where k: "k \<in> set ks" "r = the (fmlookup m k)" by (auto simp: ks(3))
    then have "row_key r = k" "fmlookup m k \<noteq> None" using key ks(2) by (auto simp: fmdom_notI)
    with k show "r \<in> {r. fmlookup m (row_key r) = Some r}" by auto
  next
    fix r assume "r \<in> {r. fmlookup m (row_key r) = Some r}"
    then have "row_key r \<in> set ks" "r = the (fmlookup m (row_key r))"
      using ks(2) by (auto intro: fmdomI)
    then show "r \<in> set (order m)" by (force simp: ks(3))
  qed
qed

text \<open>The rows are those of the map that the qualifying rows fill, sorted.\<close>

lemma CollectCostRows_fold:
  assumes "CollectCostRows L order sort_slice src = Inr rows"
  shows "rows = sort_slice row_less (order (fold put_first (qualifying_rows L src) fmempty))"
proof -
  obtain cat ds ss m3 where cat: "discoverCRDs L (cs_disc1 src) (cs_disc2 src) = Inr cat"
    and ds: "cs_deployments src = Inr ds" and ss: "cs_statefulsets src = Inr ss"
    and m3: "(case cs_dynamic src of
          None \<Rightarrow> Inr (fold put_first (statefulset_rows ss) (fold put_first (deployment_rows ds) fmempty))
        | Some lg \<Rightarrow> collect_all L lg (catalog_gvrs cat)
            (fold put_first (statefulset_rows ss) (fold put_first (deployment_rows ds) fmempty))) = Inr m3"
    and rows: "rows = sort_slice row_less (order m3)"
    using assms by (auto simp: CollectCostRows_def collectDeployments_rows collectStatefulSets_rows
        split: sum.splits)
  have "m3 = fold put_first (qualifying_rows L src) fmempty"
    using m3 collect_all_rows [of L _ "catalog_gvrs cat" _ m3]
    by (auto simp: qualifying_rows_def cat ds ss listed_def split: option.splits)
  then show ?thesis by (simp add: rows)
qed

lemma put_first_lookup:
  "fmlookup (fold put_first rs fmempty) k = map_of (key_rows rs) k"
  by (simp add: lookup_fold_put_first)

text \<open>Ranging over the map of the rows and sorting neither loses a row nor invents one.\<close>

lemma sorted_rows:
  fixes rs :: "cost_row list"
  assumes "range_order order" and "sorts sort_slice"
  defines "rows \<equiv> sort_slice row_less (order (fold put_first rs fmempty))"
  shows "sorted_wrt (\<lambda>a b. \<not> row_less b a) rows" and "distinct (map row_key rows)"
    and "r \<in> set rows \<longleftrightarrow> map_of (key_rows rs) (row_key r) = Some r"
proof -
  let ?m = "fold put_first rs fmempty"
  note ord = ordered_rows [OF assms(1), of ?m, unfolded put_first_lookup, OF key_rows_lookup]
  have perm: "mset rows = mset (order ?m)" and srt: "sorted_wrt (\<lambda>a b. \<not> row_less b a) rows"
    using assms(2) by (simp_all add: sorts_def rows_def)
  show "sorted_wrt (\<lambda>a b. \<not> row_less b a) rows" by (rule srt)
  show "distinct (map row_key rows)"
    using ord(1) mset_eq_imp_distinct_iff [of "map row_key rows" "map row_key (order ?m)"] perm by simp
  show "r \<in> set rows \<longleftrightarrow> map_of (key_rows rs) (row_key r) = Some r"
    using mset_eq_setD [OF perm] by (simp add: ord(2))
qed

lemma CollectCostRows_qualify:
  assumes "range_order order" and "sorts sort_slice"
    and "CollectCostRows L order sort_slice src = Inr rows" and "r \<in> set rows"
  shows "r \<in> set (qualifying_rows L src)"
  using assms(4) sorted_rows(3) [OF assms(1,2)] CollectCostRows_fold [OF assms(3)]
  by (auto simp: key_rows_def dest!: map_of_SomeD)

text \<open>C24 The table lists every qualifying workload once: the rows are in namespace and name order, no
  two share a namespace, kind and name, and for each key the row is that of the first qualifying
  object in the order of the scans: Deployments, StatefulSets, then the discovered resources.\<close>

theorem CollectCostRows_first_wins:
  assumes "range_order order" and "sorts sort_slice"
    and "CollectCostRows L order sort_slice src = Inr rows"
  shows "sorted_wrt (\<lambda>a b. \<not> row_less b a) rows \<and> distinct (map row_key rows)
    \<and> (\<forall>r. r \<in> set rows \<longleftrightarrow> map_of (key_rows (qualifying_rows L src)) (row_key r) = Some r)"
  using sorted_rows [OF assms(1,2)] CollectCostRows_fold [OF assms(3)] by simp

text \<open>A cluster with one GPU Deployment and none of the platforms.\<close>

definition demo_workload :: typed_workload where
  "demo_workload = \<lparr>tw_namespace = ''ml'', tw_name = ''llm'', tw_labels = fmempty, tw_annotations = fmempty,
     tw_replicas = Some 2, tw_template_labels = fmempty,
     tw_spec = \<lparr>ps_containers = p_containers demo_pod, ps_initContainers = []\<rparr>\<rparr>"

definition demo_source :: cost_source where
  "demo_source = \<lparr>cs_disc1 = \<lparr>da_lists = [], da_error = None\<rparr>, cs_disc2 = \<lparr>da_lists = [], da_error = None\<rparr>,
     cs_deployments = Inr [demo_workload], cs_statefulsets = Inr [], cs_dynamic = None\<rparr>"

definition key_order :: "row_map \<Rightarrow> cost_row list" where
  "key_order m = map (\<lambda>k. the (fmlookup m k)) (sorted_list_of_set (fset (fmdom m)))"

definition row_place :: "cost_row \<Rightarrow> string \<times> string" where
  "row_place r = (cr_namespace r, cr_name r)"

definition stable_sort :: "(cost_row \<Rightarrow> cost_row \<Rightarrow> bool) \<Rightarrow> cost_row list \<Rightarrow> cost_row list" where
  "stable_sort = (\<lambda>_. sort_key row_place)"

lemma demo_orders: "range_order key_order" "sorts stable_sort"
proof -
  show "range_order key_order"
    unfolding range_order_def key_order_def
    by (intro allI exI [of _ "sorted_list_of_set (fset (fmdom m))" for m]) simp
  have "sorted_wrt (\<lambda>a b. \<not> row_less b a) (stable_sort row_less xs)" for xs
  proof -
    have "sorted_wrt (\<lambda>a b. row_place a \<le> row_place b) (stable_sort row_less xs)"
      using sorted_sort_key [of row_place xs] by (simp add: stable_sort_def sorted_map)
    then show ?thesis
      by (rule sorted_wrt_mono_rel [rotated]) (auto simp: row_less_def row_place_def)
  qed
  then show "sorts stable_sort" by (simp add: sorts_def stable_sort_def)
qed

lemma demo_collect: "CollectCostRows std_lib key_order stable_sort demo_source = Inr [typed_row ''Deployment'' demo_workload]"
proof -
  have inc: "deployment_rows [demo_workload] = [typed_row ''Deployment'' demo_workload]"
    by (simp add: deployment_rows_def demo_workload_def isKServeChildDeployment_def isBentoChildDeployment_def
        shouldIncludeWorkload_def podSpecRequestsGPU_def gpusPerPod_def gpuQty_def demo_pod_def i64_id in_i64_def)
  show ?thesis
    by (simp add: CollectCostRows_def demo_source_def discoverCRDs_def collectDeployments_rows
        collectStatefulSets_rows statefulset_rows_def inc put_first_def key_order_def stable_sort_def)
qed

theorem CollectCostRows_first_wins_witness:
  "map_of (key_rows (qualifying_rows std_lib demo_source)) (''ml'', ''Deployment'', ''llm'')
     = Some (typed_row ''Deployment'' demo_workload)"
proof -
  have k: "row_key (typed_row ''Deployment'' demo_workload) = (''ml'', ''Deployment'', ''llm'')"
    by (simp add: typed_row_def) (simp add: demo_workload_def)
  show ?thesis
    using CollectCostRows_first_wins [OF demo_orders demo_collect] by (metis k list.set_intros(1))
qed

section \<open>Unquoted quantities\<close>

lemma i64_zero: "i64 0 = 0"
  by (simp add: i64_def)

lemma nestedResourceLimits_found:
  "nestedResourceLimits L obj keys = Option.bind (found (l_Map L obj keys))
     (\<lambda>res. resourceListFromMap L (cost_nestedMap res ''limits''))"
  by (auto simp: nestedResourceLimits_def found_def split: sum.splits option.splits)

lemma gpusPerPod_limits:
  "gpusPerPod \<lparr>ps_containers = [\<lparr>c_limits = l, c_requests = fmempty\<rparr>], ps_initContainers = []\<rparr>
    = (let n = i64 (i64 (gpuQty l)) in if 0 < n then n else 0)"
  by (simp add: gpusPerPod_def gpuQty_def [of fmempty] Let_def)

lemma gpuQty_from_map:
  "gpuQty (some_list (resourceListFromMap L (Some (fmupd ''nvidia.com/gpu'' v fmempty)))) =
    (case v of AString s \<Rightarrow> (case l_Quantity L s of Some q \<Rightarrow> quantity_value q | None \<Rightarrow> 0) | _ \<Rightarrow> 0)"
  by (simp add: gpuQty_def some_list_def resourceListFromMap_def Let_def split: aval.splits option.splits)

definition predictor_model :: "aval \<Rightarrow> amap" where
  "predictor_model v = (case nest [''spec'', ''predictor'', ''model'', ''resources'', ''limits'', ''nvidia.com/gpu''] v of
     AMap m \<Rightarrow> m | _ \<Rightarrow> fmempty)"

lemma predictor_model_spec:
  assumes "documented L"
  shows "podSpecFromUnstructured L (predictor_model v) =
    \<lparr>ps_containers = [\<lparr>c_limits = some_list (resourceListFromMap L (Some (fmupd ''nvidia.com/gpu'' v fmempty))),
       c_requests = fmempty\<rparr>], ps_initContainers = []\<rparr>"
  using documented_access [OF assms]
  by (simp add: podSpecFromUnstructured_def spec_attempts_def predictor_model_def nest_def
      nestedResourceLimits_found cost_nestedMap_def as_map_def as_list_def limits_spec_def some_list_def
      resourceListFromMap_def Let_def)

text \<open>The table overlooks unquoted GPU counts: for an InferenceService whose limit is the number n,
  the cost patcher counts n GPUs, the table none, so without a cost annotation it has no row; only
  the quoted form is counted by both.\<close>

theorem unquoted_gpu_not_listed:
  assumes "documented L" and "0 < n" and "in_i64 n" and "\<not> hasCostAnnotation anns"
    and "l_Quantity L s = Some \<lparr>quantity_value = n, quantity_sign = 1\<rparr>" and "ParseQuantity K s = Some n"
  shows "GPUCountFromUnstructured K (predictor_model (AInt64 n)) = n
    \<and> \<not> shouldIncludeWorkload anns (podSpecFromUnstructured L (predictor_model (AInt64 n)))
    \<and> GPUCountFromUnstructured K (predictor_model (AString s)) = n
    \<and> gpusPerPod (podSpecFromUnstructured L (predictor_model (AString s))) = n"
proof -
  have "GPUCountFromUnstructured K (predictor_model v) = parseGPUQuantity K v" if "0 < parseGPUQuantity K v" for v
    using that by (simp add: predictor_model_def nest_def GPUCountFromUnstructured_def defaultPaths_def
        nestedMap_def as_map_def gpuFromLimitsMap_def gpuResourceName_def Let_def)
  then have "GPUCountFromUnstructured K (predictor_model (AInt64 n)) = n"
    "GPUCountFromUnstructured K (predictor_model (AString s)) = n"
    using assms(2,6) by (simp_all add: parseGPUQuantity_def)
  then show ?thesis
    using assms(2-5) by (simp add: predictor_model_spec [OF assms(1)] shouldIncludeWorkload_def
        podSpecRequestsGPU_def gpusPerPod_limits gpuQty_from_map i64_id [OF assms(3)] i64_zero Let_def)
qed

theorem unquoted_gpu_not_listed_witness:
  "GPUCountFromUnstructured demo_kube (predictor_model (AInt64 4)) = 4
   \<and> gpusPerPod (podSpecFromUnstructured std_lib (predictor_model (AString ''4''))) = 4"
  using unquoted_gpu_not_listed [OF std_documented, of 4 fmempty "''4''" demo_kube]
  by (simp add: in_i64_def hasCostAnnotation_def mhas_def std_lib_def demo_kube_def digits_def is_digit_def
      digits_val_def digit_val_def less_eq_char_def)

section \<open>The table\<close>

text \<open>\<open>paint\<close> is the colour library: attributes and a text to the text shown on a terminal.\<close>

type_synonym paint = "string list \<Rightarrow> string \<Rightarrow> string"

definition dash :: string where
  "dash = [CHR 0xE2, CHR 0x80, CHR 0x94]"

definition dimOrPlain :: "paint \<Rightarrow> string \<Rightarrow> bool \<Rightarrow> string" where
  "dimOrPlain paint s colorize = (if \<not> colorize then s else paint [''FgHiBlack''] s)"

definition formatCostPerHour :: "paint \<Rightarrow> f64 option \<Rightarrow> bool \<Rightarrow> string" where
  "formatCostPerHour paint v colorize = (case v of None \<Rightarrow> dimOrPlain paint dash colorize
   | Some x \<Rightarrow> let s = ''$'' @ FormatFixed 2 x @ ''/hr'' in
       if \<not> colorize then s
       else if flt (f64_of_int 5) x then paint [''FgRed'', ''Bold''] s
       else if flt (f64_of_int 2) x then paint [''FgYellow''] s
       else paint [''FgGreen''] s)"

definition formatCostPerToken :: "paint \<Rightarrow> f64 option \<Rightarrow> bool \<Rightarrow> string" where
  "formatCostPerToken paint v colorize = (case v of None \<Rightarrow> dimOrPlain paint dash colorize
   | Some x \<Rightarrow> formatCostPerToken_plain x)"

record cost_table =
  ct_header :: "string list"
  ct_rows :: "string list list"
  ct_footer :: string

definition RenderCostTable :: "paint \<Rightarrow> bool \<Rightarrow> cost_row list \<Rightarrow> cost_table" where
  "RenderCostTable paint colorize rows =
    \<lparr>ct_header = [''NAMESPACE'', ''NAME'', ''PLATFORM'', ''TYPE'', ''REPLICAS'', ''COST/HR (REPLICA)'',
       ''COST/HR (TOTAL)'', ''COST/TOKEN'', ''MONTHLY-EST''],
     ct_rows = map (\<lambda>r. [cr_namespace r, cr_name r, cr_platform r, cr_workloadType r, FormatInt (cr_replicas r),
       formatCostPerHour paint (cr_costPerHour r) colorize, formatCostPerHour paint (cr_costPerHourTotal r) colorize,
       formatCostPerToken paint (cr_costPerToken r) colorize, formatMoney (MonthlyEst r)]) rows,
     ct_footer = (case table_totals rows of (totalHour, totalMonthly) \<Rightarrow>
       [CHR 0x0A] @ ''Total: '' @ formatMoney totalHour @ ''/hr '' @ [CHR 0xC2, CHR 0xB7] @ '' Est. ''
         @ formatMoney totalMonthly @ ''/mo'' @ [CHR 0x0A])\<rparr>"

text \<open>The JSON of the table: an array of the rows. The encoder of the standard library refuses a float that is not
  finite, and then nothing is written.\<close>

definition cost_row_json :: "cost_row \<Rightarrow> amap" where
  "cost_row_json r =
    (let float = (\<lambda>k v m. case v of None \<Rightarrow> m | Some x \<Rightarrow> fmupd k (AFloat x) m);
         m1 = fmap_of_list [(''namespace'', AString (cr_namespace r)), (''name'', AString (cr_name r)),
           (''platform'', AString (cr_platform r)), (''workloadType'', AString (cr_workloadType r)),
           (''workloadKind'', AString (cr_workloadKind r)), (''gpuCount'', AInt (cr_gpuCount r)),
           (''replicas'', AInt (cr_replicas r))];
         m2 = float ''costPerToken'' (cr_costPerToken r)
           (float ''costPerHourTotal'' (cr_costPerHourTotal r) (float ''costPerHour'' (cr_costPerHour r) m1))
     in if cr_lastUpdated r = '''' then m2 else fmupd ''lastUpdated'' (AString (cr_lastUpdated r)) m2)"

definition row_floats :: "cost_row \<Rightarrow> f64 list" where
  "row_floats r = List.map_filter id [cr_costPerHour r, cr_costPerHourTotal r, cr_costPerToken r]"

definition unsupported_float :: "f64 \<Rightarrow> string option" where
  "unsupported_float x = (case x of Fin _ _ \<Rightarrow> None | NaN \<Rightarrow> Some ''NaN'' | Inf neg \<Rightarrow> Some (if neg then ''-Inf'' else ''+Inf''))"

definition RenderCostJSON :: "cost_row list \<Rightarrow> string + amap list" where
  "RenderCostJSON rows = (case List.map_filter unsupported_float (concat (map row_floats rows)) of
     bad # _ \<Rightarrow> Inl (''json: unsupported value: '' @ bad) | [] \<Rightarrow> Inr (map cost_row_json rows))"

lemma RenderCostJSON_fails_iff:
  "(\<exists>err. RenderCostJSON rows = Inl err) \<longleftrightarrow> list_ex (\<lambda>r. list_ex (\<lambda>x. unsupported_float x \<noteq> None) (row_floats r)) rows"
proof -
  have nil: "List.map_filter f xs = [] \<longleftrightarrow> \<not> list_ex (\<lambda>x. f x \<noteq> None) xs" for f :: "f64 \<Rightarrow> string option" and xs
    unfolding List.map_filter_def by (auto simp: list_ex_iff filter_empty_conv)
  have "(\<exists>err. RenderCostJSON rows = Inl err) \<longleftrightarrow> List.map_filter unsupported_float (concat (map row_floats rows)) \<noteq> []"
    by (auto simp: RenderCostJSON_def split: list.split)
  then show ?thesis by (auto simp: nil list_ex_iff)
qed

end
