(* ===== verification/QuotaCommand.thy ===== *)
theory QuotaCommand
  imports Unstructured QuotaReconciler CostCollect
begin

text \<open>
  The quota commands of \<^verbatim>\<open>internal/cli/kubefisher\<close>: the row of a quota (\<^verbatim>\<open>row.go\<close>), the cells of the
  table (\<^verbatim>\<open>output.go\<close>), and \<^verbatim>\<open>quota list\<close>, \<^verbatim>\<open>get\<close> and \<^verbatim>\<open>set\<close> (\<^verbatim>\<open>quota_cmd.go\<close>); and the namespace an operation works in
  (\<^verbatim>\<open>kubeclient.go\<close>).

  The creation time and the time passed since then are arguments; the kubeconfig and the API server's
  answer to an apply are parameters. Flags, spinners and encoders are library calls.
\<close>

section \<open>Ages\<close>

definition Round_second :: "int \<Rightarrow> int" where
  "Round_second d = (let r = d mod ns_per_sec; up = d + ns_per_sec - r in
     if r + r < ns_per_sec then d - r else if in_i64 up then up else 2 ^ 63 - 1)"

definition Seconds :: "int \<Rightarrow> f64" where
  "Seconds d = fadd (f64_of_int (d div ns_per_sec)) (fdiv (f64_of_int (d mod ns_per_sec)) (f64_of_int ns_per_sec))"

definition Minutes :: "int \<Rightarrow> f64" where
  "Minutes d = fadd (f64_of_int (d div (60 * ns_per_sec)))
     (fdiv (f64_of_int (d mod (60 * ns_per_sec))) (f64_of_int (60 * ns_per_sec)))"

definition durationHuman :: "(f64 \<Rightarrow> int) \<Rightarrow> int \<Rightarrow> string" where
  "durationHuman oor d0 =
    (let d = Round_second (if d0 < 0 then 0 else d0);
         int_text = (\<lambda>x. FormatInt (f64_to_i64 oor x))
     in if d < 60 * ns_per_sec then int_text (Seconds d) @ ''s''
        else if d < ns_per_hour then int_text (Minutes d) @ ''m''
        else if d < 24 * ns_per_hour then int_text (Hours d) @ ''h''
        else int_text (fdiv (Hours d) (f64_of_int 24)) @ ''d'')"

section \<open>Rows\<close>

record quota_row =
  qr_namespace :: string
  qr_name :: string
  qr_phase :: string
  qr_tokensUsed :: int
  qr_dailyBudget :: int
  qr_costUsed :: string
  qr_monthlyLimit :: string
  qr_mode :: string
  qr_age :: string
  qr_creationTime :: string
  qr_alertThreshold :: int
  qr_tokenRemainingPct :: int
  qr_costRemainingPct :: int

definition row_string :: "lib \<Rightarrow> amap \<Rightarrow> string list \<Rightarrow> string" where
  "row_string L obj ks = (case found (l_String L obj ks) of Some s \<Rightarrow> s | None \<Rightarrow> '''')"

definition row_float32 :: "lib \<Rightarrow> amap \<Rightarrow> string list \<Rightarrow> int" where
  "row_float32 L obj ks = (case found (l_Float64 L obj ks) of Some v \<Rightarrow> f64_to_i32 (l_oor32 L) v | None \<Rightarrow> 0)"

definition quotaRowFromUnstructured :: "lib \<Rightarrow> (utc \<times> int) option \<Rightarrow> unstr \<Rightarrow> quota_row" where
  "quotaRowFromUnstructured L created u = (let ob = u_object u in
     \<lparr>qr_namespace = u_namespace u, qr_name = u_name u,
      qr_phase = row_string L ob [''status'', ''phase''],
      qr_tokensUsed = (case found (l_Float64 L ob [''status'', ''tokensUsedToday'']) of
        Some v \<Rightarrow> f64_to_i64 (l_oor64 L) v | None \<Rightarrow> 0),
      qr_dailyBudget = (case found (l_Int64 L ob [''spec'', ''dailyTokenBudget'']) of Some v \<Rightarrow> v | None \<Rightarrow> 0),
      qr_costUsed = row_string L ob [''status'', ''costUsedThisMonth''],
      qr_monthlyLimit = row_string L ob [''spec'', ''monthlyCostLimitUSD''],
      qr_mode = row_string L ob [''spec'', ''enforcementMode''],
      qr_age = (case created of Some (t, since) \<Rightarrow> durationHuman (l_oor64 L) since | None \<Rightarrow> ''''),
      qr_creationTime = (case created of Some (t, since) \<Rightarrow> FormatRFC3339 t | None \<Rightarrow> ''''),
      qr_alertThreshold = row_float32 L ob [''spec'', ''alertThresholdPct''],
      qr_tokenRemainingPct = row_float32 L ob [''status'', ''tokenBudgetRemainingPct''],
      qr_costRemainingPct = row_float32 L ob [''status'', ''costBudgetRemainingPct'']\<rparr>)"

section \<open>The table\<close>

definition full_block :: string where
  "full_block = [CHR 0xE2, CHR 0x96, CHR 0x88]"

definition light_block :: string where
  "light_block = [CHR 0xE2, CHR 0x96, CHR 0x91]"

definition pad3 :: "string \<Rightarrow> string" where
  "pad3 s = replicate (3 - length s) CHR '' '' @ s"

definition clamp100 :: "int \<Rightarrow> int" where
  "clamp100 p = (let p1 = (if p < 0 then 0 else p) in if 100 < p1 then 100 else p1)"

definition renderProgressBar :: "int \<Rightarrow> string" where
  "renderProgressBar pct0 =
    (let pct = clamp100 pct0; filled = pct * 8 div 100
     in ''['' @ concat (replicate (nat filled) full_block) @ concat (replicate (nat (8 - filled)) light_block)
        @ ''] '' @ pad3 (FormatInt pct) @ ''%'')"

definition formatPhase :: "paint \<Rightarrow> string \<Rightarrow> bool \<Rightarrow> string" where
  "formatPhase paint ph colorize = (if \<not> colorize \<or> ph = '''' then ph
     else if ph = ''Exceeded'' then paint [''FgRed'', ''Bold''] ph
     else if ph = ''Warning'' then paint [''FgYellow''] ph
     else if ph = ''Active'' then paint [''FgGreen''] ph
     else if ph = ''Unknown'' then paint [''FgHiBlack''] ph
     else ph)"

datatype quota_table = NoQuotas string | QuotaTable "string list" "string list list"

definition RenderQuotaTable :: "paint \<Rightarrow> bool \<Rightarrow> quota_row list \<Rightarrow> quota_table" where
  "RenderQuotaTable paint colorize rows =
    (if rows = [] then NoQuotas ''No quotas found. Run: kubefisher quota set --help''
     else QuotaTable [''NAMESPACE'', ''NAME'', ''PHASE'', ''TOKENS-USED'', ''BUDGET'', ''TOKEN-REM'', ''COST-USED'',
         ''LIMIT'', ''COST-REM'', ''MODE'', ''AGE'']
       (map (\<lambda>r. [qr_namespace r, qr_name r, formatPhase paint (qr_phase r) colorize, FormatInt (qr_tokensUsed r),
          FormatInt (qr_dailyBudget r), renderProgressBar (qr_tokenRemainingPct r), qr_costUsed r,
          qr_monthlyLimit r, renderProgressBar (qr_costRemainingPct r), qr_mode r, qr_age r]) rows))"

text \<open>The documents of the list, with the fields in the JSON names of their tags; a field tagged \<^verbatim>\<open>omitempty\<close> is left
  out when it is empty or zero. The fields have no YAML tags: the YAML encoder derives their keys from the Go names.\<close>

definition opt_field :: "bool \<Rightarrow> string \<Rightarrow> aval \<Rightarrow> amap \<Rightarrow> amap" where
  "opt_field keep k v m = (if keep then fmupd k v m else m)"

definition row_json :: "quota_row \<Rightarrow> amap" where
  "row_json r = opt_field (qr_creationTime r \<noteq> '''') ''creationTimestamp'' (AString (qr_creationTime r))
     (opt_field (qr_alertThreshold r \<noteq> 0) ''alertThresholdPct'' (AInt (qr_alertThreshold r))
     (opt_field (qr_tokenRemainingPct r \<noteq> 0) ''tokenBudgetRemainingPct'' (AInt (qr_tokenRemainingPct r))
     (opt_field (qr_costRemainingPct r \<noteq> 0) ''costBudgetRemainingPct'' (AInt (qr_costRemainingPct r))
     (fmap_of_list [(''namespace'', AString (qr_namespace r)), (''name'', AString (qr_name r)),
        (''phase'', AString (qr_phase r)), (''tokensUsedToday'', AInt (qr_tokensUsed r)),
        (''dailyTokenBudget'', AInt (qr_dailyBudget r)), (''costUsedThisMonth'', AString (qr_costUsed r)),
        (''monthlyCostLimitUSD'', AString (qr_monthlyLimit r)), (''enforcementMode'', AString (qr_mode r)),
        (''age'', AString (qr_age r))]))))"

definition row_yaml :: "(string \<Rightarrow> string) \<Rightarrow> quota_row \<Rightarrow> amap" where
  "row_yaml key r = fmap_of_list [(key ''Namespace'', AString (qr_namespace r)), (key ''Name'', AString (qr_name r)),
     (key ''Phase'', AString (qr_phase r)), (key ''TokensUsed'', AInt (qr_tokensUsed r)),
     (key ''DailyBudget'', AInt (qr_dailyBudget r)), (key ''CostUsed'', AString (qr_costUsed r)),
     (key ''MonthlyLimit'', AString (qr_monthlyLimit r)), (key ''Mode'', AString (qr_mode r)),
     (key ''Age'', AString (qr_age r)), (key ''CreationTime'', AString (qr_creationTime r)),
     (key ''AlertThreshold'', AInt (qr_alertThreshold r)), (key ''TokenRemainingPct'', AInt (qr_tokenRemainingPct r)),
     (key ''CostRemainingPct'', AInt (qr_costRemainingPct r))]"

definition quota_list_doc :: "(quota_row \<Rightarrow> amap) \<Rightarrow> quota_row list \<Rightarrow> amap" where
  "quota_list_doc item rows = fmap_of_list [(''kind'', AString ''TeamInferenceQuotaList''),
     (''apiVersion'', AString ''quota.kubefisher.io/v1alpha1''), (''items'', AList (map (\<lambda>r. AMap (item r)) rows))]"

definition RenderQuotaListJSON :: "quota_row list \<Rightarrow> amap" where
  "RenderQuotaListJSON rows = quota_list_doc row_json rows"

definition RenderQuotaListYAML :: "(string \<Rightarrow> string) \<Rightarrow> quota_row list \<Rightarrow> amap" where
  "RenderQuotaListYAML key rows = quota_list_doc (row_yaml key) rows"

lemma field_keys:
  "ToLower ''Namespace'' = ''namespace''"
  "ToLower ''Name'' = ''name''"
  "ToLower ''Phase'' = ''phase''"
  "ToLower ''TokensUsed'' = ''tokensused''"
  "ToLower ''DailyBudget'' = ''dailybudget''"
  "ToLower ''CostUsed'' = ''costused''"
  "ToLower ''MonthlyLimit'' = ''monthlylimit''"
  "ToLower ''Mode'' = ''mode''"
  "ToLower ''Age'' = ''age''"
  "ToLower ''CreationTime'' = ''creationtime''"
  "ToLower ''AlertThreshold'' = ''alertthreshold''"
  "ToLower ''TokenRemainingPct'' = ''tokenremainingpct''"
  "ToLower ''CostRemainingPct'' = ''costremainingpct''"
  by code_simp+

text \<open>With the documented keys of the YAML encoder, the field names in lower case, the two documents of a list share only
  five of a row's keys: the numbers have other names in each.\<close>

lemma list_documents_differ:
  assumes "key = ToLower"
  shows "fmlookup (row_json r) ''tokensUsedToday'' = Some (AInt (qr_tokensUsed r))"
    and "fmlookup (row_yaml key r) ''tokensUsedToday'' = None"
    and "fmlookup (row_yaml key r) ''tokensused'' = Some (AInt (qr_tokensUsed r))"
    and "fmlookup (row_json r) ''tokensused'' = None"
    and "fmlookup (row_json r) ''tokenBudgetRemainingPct'' =
      (if qr_tokenRemainingPct r = 0 then None else Some (AInt (qr_tokenRemainingPct r)))"
  by (simp_all add: assms row_json_def row_yaml_def opt_field_def fmlookup_of_list field_keys)

section \<open>Namespaces\<close>

definition ResolveNamespace :: "bool \<Rightarrow> string \<Rightarrow> string + string \<Rightarrow> string + string" where
  "ResolveNamespace allNamespaces flag configured =
    (if allNamespaces then Inr ''''
     else if flag \<noteq> '''' then Inr flag
     else case configured of Inl err \<Rightarrow> Inl (''resolve default namespace: '' @ err)
       | Inr ns \<Rightarrow> Inr (if ns = '''' then ''default'' else ns))"

section \<open>Setting a quota\<close>

datatype set_error = BadMode string | NamespaceError string | NamespaceRequired | SetClient string
  | ApplyError string string string

definition quota_object :: "string \<Rightarrow> string \<Rightarrow> int \<Rightarrow> string \<Rightarrow> string \<Rightarrow> int \<Rightarrow> amap" where
  "quota_object ns name dailyTokens monthlyCost mode alertThreshold = fmap_of_list
     [(''apiVersion'', AString ''quota.kubefisher.io/v1alpha1''), (''kind'', AString ''TeamInferenceQuota''),
      (''metadata'', AMap (fmap_of_list [(''name'', AString name), (''namespace'', AString ns)])),
      (''spec'', AMap (fmap_of_list
         [(''dailyTokenBudget'', AInt64 dailyTokens), (''monthlyCostLimitUSD'', AString monthlyCost),
          (''enforcementMode'', AString mode), (''alertThresholdPct'', AInt64 alertThreshold)]))]"

type_synonym 'c apply_api = "'c \<Rightarrow> string \<Rightarrow> string \<Rightarrow> amap \<Rightarrow> string option \<times> 'c"

definition runQuotaSet ::
  "'c apply_api \<Rightarrow> string option \<Rightarrow> string + string \<Rightarrow> string \<Rightarrow> int \<Rightarrow> string \<Rightarrow> string \<Rightarrow> int \<Rightarrow> 'c \<Rightarrow> set_error option \<times> 'c" where
  "runQuotaSet api client_error resolved name dailyTokens monthlyCost mode alertThreshold c =
    (if mode \<noteq> ''Enforce'' \<and> mode \<noteq> ''Audit'' then (Some (BadMode mode), c)
     else case resolved of Inl err \<Rightarrow> (Some (NamespaceError err), c)
     | Inr ns \<Rightarrow> if ns = '''' then (Some NamespaceRequired, c)
         else if client_error \<noteq> None then (Some (SetClient (the client_error)), c)
         else (case api c ns name (quota_object ns name dailyTokens monthlyCost mode alertThreshold) of
             (Some err, c') \<Rightarrow> (Some (ApplyError ns name err), c') | (None, c') \<Rightarrow> (None, c')))"

section \<open>Listing and getting\<close>

datatype list_error = AllNamespacesUnsupported | ListNamespace string | ClientError string
  | ListFailed string | GetFailed string string string | UnsupportedOutput string

datatype quota_output = TableOutput quota_table | JSONObject amap | YAMLObject amap

text \<open>The effective \<^verbatim>\<open>--output\<close>; the creation time of an object is read by the library.\<close>

definition output_format :: "string \<Rightarrow> string" where
  "output_format flag = (if flag = '''' then ''table'' else flag)"

definition runQuotaList ::
  "lib \<Rightarrow> paint \<Rightarrow> bool \<Rightarrow> (unstr \<Rightarrow> (utc \<times> int) option) \<Rightarrow> string + string \<Rightarrow> string option
     \<Rightarrow> (string \<Rightarrow> string + unstr list) \<Rightarrow> string \<Rightarrow> list_error + quota_output" where
  "runQuotaList L paint terminal created resolved client_error list_api out =
    (case resolved of Inl err \<Rightarrow> Inl (ListNamespace err)
     | Inr ns \<Rightarrow> (case client_error of Some err \<Rightarrow> Inl (ClientError err)
       | None \<Rightarrow> (case list_api ns of Inl err \<Rightarrow> Inl (ListFailed err)
         | Inr items \<Rightarrow> (let rows = map (\<lambda>u. quotaRowFromUnstructured L (created u) u) items; format = output_format out in
             if format = ''table'' then Inr (TableOutput (RenderQuotaTable paint terminal rows))
             else if format = ''json'' then Inr (JSONObject (RenderQuotaListJSON rows))
             else if format = ''yaml'' then Inr (YAMLObject (RenderQuotaListYAML (l_yaml_key L) rows))
             else Inl (UnsupportedOutput out)))))"

definition writeUnstructuredJSON :: "unstr \<Rightarrow> amap" where
  "writeUnstructuredJSON u = fmupd ''kind'' (AString ''TeamInferenceQuota'')
     (fmupd ''apiVersion'' (AString ''quota.kubefisher.io/v1alpha1'') (u_object u))"

definition runQuotaGet ::
  "lib \<Rightarrow> paint \<Rightarrow> bool \<Rightarrow> (unstr \<Rightarrow> (utc \<times> int) option) \<Rightarrow> bool \<Rightarrow> string + string \<Rightarrow> string option
     \<Rightarrow> (string \<Rightarrow> string \<Rightarrow> string + unstr) \<Rightarrow> string \<Rightarrow> string \<Rightarrow> list_error + quota_output" where
  "runQuotaGet L paint terminal created allNamespaces resolved client_error get_api name out =
    (if allNamespaces then Inl AllNamespacesUnsupported
     else case resolved of Inl err \<Rightarrow> Inl (ListNamespace err)
     | Inr ns \<Rightarrow> (case client_error of Some err \<Rightarrow> Inl (ClientError err)
       | None \<Rightarrow> (case get_api ns name of Inl err \<Rightarrow> Inl (GetFailed ns name err)
         | Inr u \<Rightarrow> (let format = output_format out in
             if format = ''table'' then Inr (TableOutput (RenderQuotaTable paint terminal
               [quotaRowFromUnstructured L (created u) u]))
             else if format = ''json'' then Inr (JSONObject (writeUnstructuredJSON u))
             else if format = ''yaml'' then Inr (YAMLObject (u_object u))
             else Inl (UnsupportedOutput out)))))"

section \<open>The API group\<close>

text \<open>The group and kinds the operator registers (\<^verbatim>\<open>groupversion_info.go\<close>) and the resource the commands ask for
  (\<^verbatim>\<open>gvr.go\<close>).\<close>

definition SchemeGroupVersion :: "string \<times> string" where
  "SchemeGroupVersion = (''quota.kubefisher.io'', ''v1alpha1'')"

definition registered_kinds :: "string list" where
  "registered_kinds = [''TeamInferenceQuota'', ''TeamInferenceQuotaList'']"

definition TeamInferenceQuotaGVR :: gvr where
  "TeamInferenceQuotaGVR = \<lparr>gvr_group = ''quota.kubefisher.io'', gvr_version = ''v1alpha1'', gvr_resource = ''teaminferencequotas''\<rparr>"

definition api_version :: "string \<times> string \<Rightarrow> string" where
  "api_version gv = fst gv @ ''/'' @ snd gv"

text \<open>What the commands ask for, send and print is of the group and kinds the operator serves.\<close>

lemma commands_speak_group:
  "(gvr_group TeamInferenceQuotaGVR, gvr_version TeamInferenceQuotaGVR) = SchemeGroupVersion"
  "fmlookup (writeUnstructuredJSON u) ''apiVersion'' = Some (AString (api_version SchemeGroupVersion))"
  "fmlookup (writeUnstructuredJSON u) ''kind'' = Some (AString (hd registered_kinds))"
  "fmlookup (RenderQuotaListJSON rows) ''apiVersion'' = Some (AString (api_version SchemeGroupVersion))"
  "fmlookup (RenderQuotaListJSON rows) ''kind'' = Some (AString (last registered_kinds))"
  by (simp_all add: TeamInferenceQuotaGVR_def SchemeGroupVersion_def registered_kinds_def api_version_def
      writeUnstructuredJSON_def RenderQuotaListJSON_def quota_list_doc_def fmlookup_of_list)

section \<open>The stored object\<close>

text \<open>The JSON tags of \<^verbatim>\<open>teaminferencequota_types.go\<close>: how the API server stores, and the dynamic client
  returns, a quota. A field tagged \<^verbatim>\<open>omitempty\<close> is left out when it has the zero value; the decoder reads every
  integer as an \<^verbatim>\<open>int64\<close>.\<close>

definition mode_text :: "enforcement_mode \<Rightarrow> string" where
  "mode_text m = (case m of ModeUnset \<Rightarrow> '''' | EnforcementModeEnforce \<Rightarrow> ''Enforce''
     | EnforcementModeAudit \<Rightarrow> ''Audit'')"

definition put_string :: "string \<Rightarrow> string \<Rightarrow> amap \<Rightarrow> amap" where
  "put_string k s m = (if s = '''' then m else fmupd k (AString s) m)"

definition put_int :: "string \<Rightarrow> int \<Rightarrow> amap \<Rightarrow> amap" where
  "put_int k n m = (if n = 0 then m else fmupd k (AInt64 n) m)"

definition put_time :: "string \<Rightarrow> utc option \<Rightarrow> amap \<Rightarrow> amap" where
  "put_time k t m = (case t of None \<Rightarrow> m | Some u \<Rightarrow> fmupd k (AString (FormatRFC3339 u)) m)"

definition spec_json :: "quota_spec \<Rightarrow> amap" where
  "spec_json s = put_string ''enforcementMode'' (mode_text (enforcementMode s))
     ((case alertThresholdPct s of None \<Rightarrow> id | Some t \<Rightarrow> fmupd ''alertThresholdPct'' (AInt64 t))
       (fmap_of_list [(''dailyTokenBudget'', AInt64 (dailyTokenBudget s)),
         (''monthlyCostLimitUSD'', AString (monthlyCostLimitUSD s))]))"

definition status_json :: "aval list \<Rightarrow> quota_status \<Rightarrow> amap" where
  "status_json conds st = put_string ''phase'' (phase_text (phase st))
     (put_string ''costUsedThisMonth'' (costUsedThisMonth st)
       (put_int ''tokenBudgetRemainingPct'' (tokenBudgetRemainingPct st)
         (put_int ''costBudgetRemainingPct'' (costBudgetRemainingPct st)
           (put_time ''lastEvaluationTime'' (lastEvaluationTime st)
             (put_time ''nextResetTime'' (nextResetTime st)
               ((if conds = [] then id else fmupd ''conditions'' (AList conds))
                 (fmap_of_list [(''tokensUsedToday'', AInt64 (tokensUsedToday st))])))))))"

text \<open>A status tagged \<^verbatim>\<open>omitzero\<close>: nothing was ever written to it.\<close>

definition status_zero :: "aval list \<Rightarrow> quota_status \<Rightarrow> bool" where
  "status_zero conds st \<longleftrightarrow> phase st = PhaseUnset \<and> tokensUsedToday st = 0 \<and> costUsedThisMonth st = []
     \<and> tokenBudgetRemainingPct st = 0 \<and> costBudgetRemainingPct st = 0 \<and> lastEvaluationTime st = None
     \<and> nextResetTime st = None \<and> conds = []"

definition quota_json :: "amap \<Rightarrow> aval list \<Rightarrow> quota \<Rightarrow> amap" where
  "quota_json metadata conds q =
     (if status_zero conds (status q) then id else fmupd ''status'' (AMap (status_json conds (status q))))
     (fmap_of_list [(''apiVersion'', AString ''quota.kubefisher.io/v1alpha1''), (''kind'', AString ''TeamInferenceQuota''),
       (''metadata'', AMap metadata), (''spec'', AMap (spec_json (spec q)))])"

definition stored :: "amap \<Rightarrow> aval list \<Rightarrow> quota \<Rightarrow> unstr" where
  "stored metadata conds q = \<lparr>u_gvk = \<lparr>gvk_group = ''quota.kubefisher.io'', gvk_version = ''v1alpha1'',
       gvk_kind = ''TeamInferenceQuota''\<rparr>,
     u_namespace = q_namespace q, u_name = q_name q, u_annotations = fmempty,
     u_object = quota_json metadata conds q\<rparr>"

lemma lookup_put:
  "fmlookup (put_string k s m) k' = (if k' = k \<and> s \<noteq> '''' then Some (AString s) else fmlookup m k')"
  "fmlookup (put_int k n m) k' = (if k' = k \<and> n \<noteq> 0 then Some (AInt64 n) else fmlookup m k')"
  "fmlookup (put_time k t m) k' = (case t of None \<Rightarrow> fmlookup m k'
     | Some u \<Rightarrow> if k' = k then Some (AString (FormatRFC3339 u)) else fmlookup m k')"
  by (auto simp: put_string_def put_int_def put_time_def split: option.splits)

lemma spec_json_lookup:
  "fmlookup (spec_json s) ''dailyTokenBudget'' = Some (AInt64 (dailyTokenBudget s))"
  "fmlookup (spec_json s) ''monthlyCostLimitUSD'' = Some (AString (monthlyCostLimitUSD s))"
  "fmlookup (spec_json s) ''alertThresholdPct'' = map_option AInt64 (alertThresholdPct s)"
  "fmlookup (spec_json s) ''enforcementMode'' =
     (if mode_text (enforcementMode s) = '''' then None else Some (AString (mode_text (enforcementMode s))))"
  by (auto simp: spec_json_def lookup_put split: option.splits)

lemma status_json_lookup:
  "fmlookup (status_json cs st) ''tokensUsedToday'' = Some (AInt64 (tokensUsedToday st))"
  "fmlookup (status_json cs st) ''phase'' =
     (if phase_text (phase st) = '''' then None else Some (AString (phase_text (phase st))))"
  "fmlookup (status_json cs st) ''costUsedThisMonth'' =
     (if costUsedThisMonth st = '''' then None else Some (AString (costUsedThisMonth st)))"
  "fmlookup (status_json cs st) ''tokenBudgetRemainingPct'' =
     (if tokenBudgetRemainingPct st = 0 then None else Some (AInt64 (tokenBudgetRemainingPct st)))"
  "fmlookup (status_json cs st) ''costBudgetRemainingPct'' =
     (if costBudgetRemainingPct st = 0 then None else Some (AInt64 (costBudgetRemainingPct st)))"
  by (auto simp: status_json_def lookup_put split: option.splits)

section \<open>What the commands show\<close>

lemma row_string_path:
  assumes "documented L" and "fmlookup ob a = Some (AMap m)"
  shows "row_string L ob [a, b] = as_string (fmlookup m b)"
  using assms
  by (auto simp: row_string_def lib_access as_string_def val_string_def split: option.splits aval.splits)

lemma row_float32_int:
  assumes "documented L" and "fmlookup ob a = Some (AMap m)" and "\<And>x. fmlookup m b \<noteq> Some (AFloat x)"
  shows "row_float32 L ob [a, b] = 0"
  using assms
  by (auto simp: row_float32_def lib_access val_float_def split: option.splits aval.splits)

text \<open>A stored status holds no float, and its strings read back whether or not it was left out.\<close>

lemma status_json_no_float: "fmlookup (status_json cs st) k \<noteq> Some (AFloat x)"
  by (auto simp: status_json_def lookup_put split: option.splits if_splits)

lemma stored_status_float:
  assumes "documented L"
  shows "found (l_Float64 L (quota_json meta conds q) [''status'', k]) = None"
  using status_json_no_float [of conds "status q" k]
  by (auto simp: lib_access assms quota_json_def val_float_def split: option.splits aval.splits)

lemma stored_status_string:
  assumes "documented L"
  shows "row_string L (quota_json meta conds q) [''status'', k] =
    (if status_zero conds (status q) then [] else as_string (fmlookup (status_json conds (status q)) k))"
  by (auto simp: row_string_def lib_access assms quota_json_def as_string_def val_string_def
      split: option.splits aval.splits)

text \<open>C40 The quota table shows a stored quota's phase, cost, limit, mode and token budget exactly, and
  loses every other number: tokens used, the alert threshold and both remaining percentages are always
  shown as 0, because they are integers in the object and the row reads them as floats.\<close>

theorem stored_quota_row:
  assumes "documented L"
  shows "quotaRowFromUnstructured L created (stored meta conds q) =
    \<lparr>qr_namespace = q_namespace q, qr_name = q_name q, qr_phase = phase_text (phase (status q)),
     qr_tokensUsed = 0, qr_dailyBudget = dailyTokenBudget (spec q),
     qr_costUsed = costUsedThisMonth (status q), qr_monthlyLimit = monthlyCostLimitUSD (spec q),
     qr_mode = mode_text (enforcementMode (spec q)),
     qr_age = (case created of Some (t, since) \<Rightarrow> durationHuman (l_oor64 L) since | None \<Rightarrow> ''''),
     qr_creationTime = (case created of Some (t, since) \<Rightarrow> FormatRFC3339 t | None \<Rightarrow> ''''),
     qr_alertThreshold = 0, qr_tokenRemainingPct = 0, qr_costRemainingPct = 0\<rparr>"
proof -
  let ?ob = "quota_json meta conds q"
  have ob: "fmlookup ?ob ''spec'' = Some (AMap (spec_json (spec q)))" by (simp add: quota_json_def)
  have str: "row_string L ?ob [''status'', ''phase''] = phase_text (phase (status q))"
    "row_string L ?ob [''status'', ''costUsedThisMonth''] = costUsedThisMonth (status q)"
    by (simp_all add: stored_status_string [OF assms] status_json_lookup status_zero_def as_string_def phase_text_def)
  have num: "found (l_Float64 L ?ob [''status'', k]) = None" for k
    by (simp add: stored_status_float [OF assms])
  then have g: "row_float32 L ?ob [''status'', k] = 0" for k by (simp add: row_float32_def)
  have f: "row_float32 L ?ob [''spec'', ''alertThresholdPct''] = 0"
    by (rule row_float32_int [OF assms ob]) (auto simp: spec_json_lookup)
  have n: "found (l_Int64 L ?ob [''spec'', ''dailyTokenBudget'']) = Some (dailyTokenBudget (spec q))"
    by (simp add: lib_access assms ob spec_json_lookup val_int_def)
  show ?thesis
    by (simp add: quotaRowFromUnstructured_def Let_def stored_def row_string_path [OF assms ob] str num f g n
        spec_json_lookup as_string_def)
qed

theorem stored_quota_row_witness:
  "qr_tokensUsed (quotaRowFromUnstructured std_lib None (stored fmempty []
     (demo_quota\<lparr>status := (status demo_quota)\<lparr>tokensUsedToday := 90, phase := QuotaPhaseWarning\<rparr>\<rparr>))) = 0
   \<and> qr_phase (quotaRowFromUnstructured std_lib None (stored fmempty []
     (demo_quota\<lparr>status := (status demo_quota)\<lparr>tokensUsedToday := 90, phase := QuotaPhaseWarning\<rparr>\<rparr>))) = ''Warning''"
  by (simp add: stored_quota_row [OF std_documented] phase_text_def)

text \<open>The bar has eight cells for every percentage; it is full only at 100 and empty below 13.\<close>

definition bar_filled :: "int \<Rightarrow> nat" where
  "bar_filled pct = nat (clamp100 pct * 8 div 100)"

lemma renderProgressBar_cells:
  "renderProgressBar pct = ''['' @ concat (replicate (bar_filled pct) full_block)
     @ concat (replicate (8 - bar_filled pct) light_block) @ ''] '' @ pad3 (FormatInt (clamp100 pct)) @ ''%''"
  "bar_filled pct \<le> 8" "bar_filled pct = 8 \<longleftrightarrow> 100 \<le> pct" "bar_filled pct = 0 \<longleftrightarrow> pct < 13"
  "pct \<le> pct' \<Longrightarrow> bar_filled pct \<le> bar_filled pct'"
  by (auto simp: renderProgressBar_def bar_filled_def clamp100_def Let_def nat_diff_distrib'
      intro!: nat_mono zdiv_mono1)

section \<open>Setting and showing\<close>

text \<open>A refused \<^verbatim>\<open>quota set\<close> makes no call.\<close>

lemma runQuotaSet_refused:
  assumes "mode \<notin> {''Enforce'', ''Audit''} \<or> isl resolved \<or> resolved = Inr '''' \<or> client_error \<noteq> None"
  shows "\<exists>e. runQuotaSet api client_error resolved name d cost mode th c = (Some e, c)"
  using assms by (cases resolved) (auto simp: runQuotaSet_def)

text \<open>\<^verbatim>\<open>quota set\<close> and the table: a set that succeeds made one call in a named namespace, with an
  object whose spec is the encoding of the typed spec the controller reads: the budget, the limit, the
  mode, and the threshold as given. The row of that object shows budget, limit and mode as they were set,
  but the threshold as 0.\<close>

theorem quota_set_shown:
  assumes "documented L" and "runQuotaSet api client_error resolved name d cost mode th c = (None, c')"
  shows "\<exists>ns obj m. resolved = Inr ns \<and> ns \<noteq> '''' \<and> api c ns name obj = (None, c') \<and> mode = mode_text m
    \<and> fmlookup obj ''spec'' = Some (AMap (spec_json \<lparr>dailyTokenBudget = d, monthlyCostLimitUSD = cost,
        alertThresholdPct = Some th, enforcementMode = m\<rparr>))
    \<and> (\<forall>u created. u_object u = obj \<longrightarrow> (let r = quotaRowFromUnstructured L created u in
        qr_dailyBudget r = d \<and> qr_monthlyLimit r = cost \<and> qr_mode r = mode \<and> qr_alertThreshold r = 0))"
proof -
  obtain ns where ns: "resolved = Inr ns" "ns \<noteq> ''''" and mode: "mode = ''Enforce'' \<or> mode = ''Audit''"
    and call: "api c ns name (quota_object ns name d cost mode th) = (None, c')"
    using assms(2) by (auto simp: runQuotaSet_def split: if_splits sum.splits prod.splits option.splits)
  let ?obj = "quota_object ns name d cost mode th"
  from mode obtain m where m: "mode = mode_text m"
    by (auto simp: mode_text_def intro: that [of EnforcementModeEnforce] that [of EnforcementModeAudit])
  have "fmlookup ?obj ''spec'' = Some (AMap (spec_json \<lparr>dailyTokenBudget = d, monthlyCostLimitUSD = cost,
        alertThresholdPct = Some th, enforcementMode = m\<rparr>))" (is "_ = Some (AMap ?s)")
    using mode by (auto simp: quota_object_def spec_json_def put_string_def m intro!: fmap_ext)
  note spec = this and s = row_string_path [OF assms(1) this]
  have "row_float32 L ?obj [''spec'', ''alertThresholdPct''] = 0"
    by (rule row_float32_int [OF assms(1) spec]) (simp add: spec_json_lookup)
  moreover have "found (l_Int64 L ?obj [''spec'', ''dailyTokenBudget'']) = Some d"
    by (simp add: lib_access assms(1) spec spec_json_lookup val_int_def)
  moreover have ne: "mode \<noteq> []" using mode by auto
  ultimately have "let r = quotaRowFromUnstructured L created u in
        qr_dailyBudget r = d \<and> qr_monthlyLimit r = cost \<and> qr_mode r = mode \<and> qr_alertThreshold r = 0"
    if "u_object u = ?obj" for u created
    by (simp add: quotaRowFromUnstructured_def Let_def that s spec_json_lookup as_string_def ne flip: m)
  with ns call m spec show ?thesis by blast
qed

definition recording_apply :: "(string \<times> string \<times> amap) list \<Rightarrow> string \<Rightarrow> string \<Rightarrow> amap
    \<Rightarrow> string option \<times> (string \<times> string \<times> amap) list" where
  "recording_apply c ns name obj = (None, c @ [(ns, name, obj)])"

theorem quota_set_shown_witness:
  "\<exists>obj. recording_apply [] ''ml'' ''team'' obj
     = (None, snd (runQuotaSet recording_apply None (Inr ''ml'') ''team'' 1000 ''50.00'' ''Audit'' 90 []))"
  using quota_set_shown [OF std_documented, of recording_apply None "Inr ''ml''" "''team''" 1000 "''50.00''" "''Audit''"
      90 "[]" "snd (runQuotaSet recording_apply None (Inr ''ml'') ''team'' 1000 ''50.00'' ''Audit'' 90 [])"]
  by (simp add: runQuotaSet_def recording_apply_def)

end
