(* ===== verification/MergePatch.thy ===== *)
theory MergePatch
  imports QuotaCommand
begin

text \<open>
  The status patch of the controller, \<^verbatim>\<open>client.MergeFrom(base)\<close> in \<^verbatim>\<open>patchStatus\<close>: a JSON merge patch (RFC 7386) with
  the members of the status that differ between the quota as it was read and the quota as it was evaluated.

  \<open>create_patch\<close> and \<open>apply_patch\<close> are merge patches on the members of one object, \<open>merge_status\<close> is the same on the
  typed status, and \<open>merge_refines\<close> says that they agree through \<open>status_json\<close>. Times travel as RFC 3339 texts,
  so what is stored has no fraction of a second.
\<close>

section \<open>Merge patches of an object\<close>

text \<open>A patch sets members and, by the value null, removes members. The status has no nested objects: its list of
  conditions is replaced as a whole.\<close>

record merge_patch =
  mp_set :: amap
  mp_null :: "string fset"

definition create_patch :: "amap \<Rightarrow> amap \<Rightarrow> merge_patch" where
  "create_patch a b = \<lparr>mp_set = fmfilter (\<lambda>k. fmlookup a k \<noteq> fmlookup b k) b, mp_null = fmdom a |-| fmdom b\<rparr>"

definition apply_patch :: "merge_patch \<Rightarrow> amap \<Rightarrow> amap" where
  "apply_patch p c = fmdrop_fset (mp_null p) c ++\<^sub>f mp_set p"

lemma apply_create:
  "fmlookup (apply_patch (create_patch a b) c) k = (if fmlookup a k = fmlookup b k then fmlookup c k else fmlookup b k)"
proof -
  have set_part: "k |\<in>| fmdom (fmfilter (\<lambda>k. fmlookup a k \<noteq> fmlookup b k) b)
      \<longleftrightarrow> fmlookup a k \<noteq> fmlookup b k \<and> fmlookup b k \<noteq> None"
    by (auto simp: fmlookup_dom_iff)
  have null_part: "k |\<in>| fmdom a |-| fmdom b \<longleftrightarrow> fmlookup a k \<noteq> None \<and> fmlookup b k = None"
    by (auto simp: fmlookup_dom_iff)
  show ?thesis
    by (simp add: apply_patch_def create_patch_def set_part null_part del: fmdom_filter fminus_iff) fastforce?
qed

section \<open>The typed status\<close>

definition wire_time :: "utc \<Rightarrow> utc" where
  "wire_time t = t\<lparr>nsec := 0\<rparr>"

lemma wire_time_text [simp]: "FormatRFC3339 (wire_time t) = FormatRFC3339 t"
  by (simp add: wire_time_def FormatRFC3339_def date_text_def)

definition wire_condition :: "condition \<Rightarrow> condition" where
  "wire_condition c = c\<lparr>cond_lastTransitionTime := wire_time (cond_lastTransitionTime c)\<rparr>"

definition wire_status :: "quota_status \<Rightarrow> quota_status" where
  "wire_status st = st\<lparr>lastEvaluationTime := map_option wire_time (lastEvaluationTime st),
     nextResetTime := map_option wire_time (nextResetTime st), conditions := map wire_condition (conditions st)\<rparr>"

text \<open>What the encoding of a condition shows.\<close>

definition condition_text :: "condition \<Rightarrow> string \<times> condition_status \<times> string \<times> string \<times> string \<times> int" where
  "condition_text c = (cond_type c, cond_status c, cond_reason c, cond_message c,
     FormatRFC3339 (cond_lastTransitionTime c), cond_observedGeneration c)"

text \<open>A member that is the same in the quota read and in the quota evaluated keeps what is stored.\<close>

definition merge_member :: "('a \<Rightarrow> 'b) \<Rightarrow> 'a \<Rightarrow> 'a \<Rightarrow> 'a \<Rightarrow> 'a" where
  "merge_member text base q cur = (if text base = text q then cur else q)"

definition merge_status :: "quota_status \<Rightarrow> quota_status \<Rightarrow> quota_status \<Rightarrow> quota_status" where
  "merge_status base st cur =
    \<lparr>phase = merge_member id (phase base) (phase st) (phase cur),
     tokensUsedToday = merge_member id (tokensUsedToday base) (tokensUsedToday st) (tokensUsedToday cur),
     costUsedThisMonth = merge_member id (costUsedThisMonth base) (costUsedThisMonth st) (costUsedThisMonth cur),
     tokenBudgetRemainingPct = merge_member id (tokenBudgetRemainingPct base) (tokenBudgetRemainingPct st)
       (tokenBudgetRemainingPct cur),
     costBudgetRemainingPct = merge_member id (costBudgetRemainingPct base) (costBudgetRemainingPct st)
       (costBudgetRemainingPct cur),
     lastEvaluationTime = merge_member (map_option FormatRFC3339) (lastEvaluationTime base)
       (map_option wire_time (lastEvaluationTime st)) (lastEvaluationTime cur),
     nextResetTime = merge_member (map_option FormatRFC3339) (nextResetTime base)
       (map_option wire_time (nextResetTime st)) (nextResetTime cur),
     conditions = merge_member (map condition_text) (conditions base) (map wire_condition (conditions st))
       (conditions cur)\<rparr>"

lemma wire_idem [simp]:
  "wire_time (wire_time t) = wire_time t" "wire_condition (wire_condition c) = wire_condition c"
  "map_option wire_time (map_option wire_time u) = map_option wire_time u"
  "map wire_condition (map wire_condition cs) = map wire_condition cs"
proof -
  show t: "wire_time (wire_time t) = wire_time t" for t by (simp add: wire_time_def)
  show c: "wire_condition (wire_condition c) = wire_condition c" for c by (simp add: wire_condition_def t)
  show "map_option wire_time (map_option wire_time u) = map_option wire_time u" by (cases u) (simp_all add: t)
  show "map wire_condition (map wire_condition cs) = map wire_condition cs" by (simp add: c)
qed

lemma merge_member_cases: "merge_member f b q c = q \<or> merge_member f b q c = c"
  by (simp add: merge_member_def)

section \<open>Agreement with the JSON patch\<close>

text \<open>The JSON tags of \<^verbatim>\<open>metav1.Condition\<close>.\<close>

definition condition_status_text :: "condition_status \<Rightarrow> string" where
  "condition_status_text st = (case st of ConditionTrue \<Rightarrow> ''True'' | ConditionFalse \<Rightarrow> ''False''
     | ConditionUnknown \<Rightarrow> ''Unknown'')"

definition condition_json :: "condition \<Rightarrow> aval" where
  "condition_json c = AMap (put_int ''observedGeneration'' (cond_observedGeneration c) (fmap_of_list
     [(''type'', AString (cond_type c)), (''status'', AString (condition_status_text (cond_status c))),
      (''lastTransitionTime'', AString (FormatRFC3339 (cond_lastTransitionTime c))),
      (''reason'', AString (cond_reason c)), (''message'', AString (cond_message c))]))"

lemma condition_json_text: "condition_json c = condition_json d \<longleftrightarrow> condition_text c = condition_text d"
proof
  assume eq: "condition_json c = condition_json d"
  have at: "fmlookup m k = fmlookup m' k" if "AMap m = AMap m'" for m m' k using that by simp
  note look = at [OF eq [unfolded condition_json_def], unfolded lookup_put]
  from look [of "''status''"] have "condition_status_text (cond_status c) = condition_status_text (cond_status d)" by simp
  then have "cond_status c = cond_status d"
    by (cases "cond_status c"; cases "cond_status d") (simp_all add: condition_status_text_def)
  with look [of "''type''"] look [of "''lastTransitionTime''"] look [of "''reason''"] look [of "''message''"]
    look [of "''observedGeneration''"]
  show "condition_text c = condition_text d" by (auto simp: condition_text_def split: if_splits)
next
  assume "condition_text c = condition_text d"
  then show "condition_json c = condition_json d" by (simp add: condition_text_def condition_json_def)
qed

lemma conditions_json_text: "map condition_json cs = map condition_json ds \<longleftrightarrow> map condition_text cs = map condition_text ds"
  by (auto simp: list_eq_iff_nth_eq condition_json_text)

lemma condition_text_wire [simp]: "condition_text (wire_condition c) = condition_text c"
  by (simp add: condition_text_def wire_condition_def)

lemma phase_text_inj: "phase_text p = phase_text q \<longleftrightarrow> p = q"
  by (cases p; cases q) (simp_all add: phase_text_def)

lemma phase_text_empty: "phase_text p = '''' \<longleftrightarrow> p = PhaseUnset"
  by (cases p) (simp_all add: phase_text_def)

definition status_members :: "quota_status \<Rightarrow> amap" where
  "status_members st = status_json (map condition_json (conditions st)) st"

text \<open>The member \<open>k\<close> of an encoded status.\<close>

definition status_member :: "string \<Rightarrow> quota_status \<Rightarrow> aval option" where
  "status_member k st =
    (if k = ''phase'' then if phase_text (phase st) = '''' then None else Some (AString (phase_text (phase st)))
     else if k = ''costUsedThisMonth'' then if costUsedThisMonth st = '''' then None else Some (AString (costUsedThisMonth st))
     else if k = ''tokenBudgetRemainingPct'' then
       if tokenBudgetRemainingPct st = 0 then None else Some (AInt64 (tokenBudgetRemainingPct st))
     else if k = ''costBudgetRemainingPct'' then
       if costBudgetRemainingPct st = 0 then None else Some (AInt64 (costBudgetRemainingPct st))
     else if k = ''lastEvaluationTime'' then map_option (\<lambda>t. AString (FormatRFC3339 t)) (lastEvaluationTime st)
     else if k = ''nextResetTime'' then map_option (\<lambda>t. AString (FormatRFC3339 t)) (nextResetTime st)
     else if k = ''conditions'' then if conditions st = [] then None else Some (AList (map condition_json (conditions st)))
     else if k = ''tokensUsedToday'' then Some (AInt64 (tokensUsedToday st))
     else None)"

lemma status_members_lookup:
  "fmlookup (status_members st) k = status_member k st"
  by (cases "lastEvaluationTime st"; cases "nextResetTime st")
    (simp_all add: status_members_def status_json_def lookup_put status_member_def)

lemma time_members:
  "map_option (\<lambda>t. AString (FormatRFC3339 t)) t = map_option (\<lambda>t. AString (FormatRFC3339 t)) u
    \<longleftrightarrow> map_option FormatRFC3339 t = map_option FormatRFC3339 u"
  "map_option (\<lambda>t. AString (FormatRFC3339 t)) (map_option wire_time t) = map_option (\<lambda>t. AString (FormatRFC3339 t)) t"
  "map_option FormatRFC3339 (map_option wire_time t) = map_option FormatRFC3339 t"
  by (cases t; cases u; simp) (simp_all add: option.map_comp comp_def)

lemma status_member_at:
  "status_member ''phase'' st = (if phase st = PhaseUnset then None else Some (AString (phase_text (phase st))))"
  "status_member ''costUsedThisMonth'' st =
     (if costUsedThisMonth st = '''' then None else Some (AString (costUsedThisMonth st)))"
  "status_member ''tokenBudgetRemainingPct'' st =
     (if tokenBudgetRemainingPct st = 0 then None else Some (AInt64 (tokenBudgetRemainingPct st)))"
  "status_member ''costBudgetRemainingPct'' st =
     (if costBudgetRemainingPct st = 0 then None else Some (AInt64 (costBudgetRemainingPct st)))"
  "status_member ''lastEvaluationTime'' st = map_option (\<lambda>t. AString (FormatRFC3339 t)) (lastEvaluationTime st)"
  "status_member ''nextResetTime'' st = map_option (\<lambda>t. AString (FormatRFC3339 t)) (nextResetTime st)"
  "status_member ''conditions'' st = (if conditions st = [] then None else Some (AList (map condition_json (conditions st))))"
  "status_member ''tokensUsedToday'' st = Some (AInt64 (tokensUsedToday st))"
  by (simp_all add: status_member_def phase_text_empty)

lemma merge_status_member:
  "status_member k (merge_status base st cur) =
    (if status_member k base = status_member k st then status_member k cur else status_member k st)"
proof -
  have cw: "map condition_json (map wire_condition cs) = map condition_json cs" for cs by (simp add: condition_json_text)
  have conds: "(if cs = [] then None else Some (AList (map condition_json cs)))
      = (if ds = [] then None else Some (AList (map condition_json ds))) \<longleftrightarrow> map condition_text cs = map condition_text ds" for cs ds
    by (auto simp: conditions_json_text simp del: map_map)
  consider "k = ''phase''" | "k = ''costUsedThisMonth''" | "k = ''tokenBudgetRemainingPct''"
    | "k = ''costBudgetRemainingPct''" | "k = ''lastEvaluationTime''" | "k = ''nextResetTime''" | "k = ''conditions''"
    | "k = ''tokensUsedToday''" | "k \<notin> {''phase'', ''costUsedThisMonth'', ''tokenBudgetRemainingPct'',
        ''costBudgetRemainingPct'', ''lastEvaluationTime'', ''nextResetTime'', ''conditions'', ''tokensUsedToday''}"
    unfolding insert_iff empty_iff by satx
  then show ?thesis
  proof cases
    case 1
    show ?thesis unfolding 1 status_member_at by (simp add: merge_status_def merge_member_def phase_text_inj)
  next
    case 2
    show ?thesis unfolding 2 status_member_at by (simp add: merge_status_def merge_member_def)
  next
    case 3
    show ?thesis unfolding 3 status_member_at by (simp add: merge_status_def merge_member_def)
  next
    case 4
    show ?thesis unfolding 4 status_member_at by (simp add: merge_status_def merge_member_def)
  next
    case 5
    show ?thesis unfolding 5 status_member_at by (simp add: merge_status_def merge_member_def time_members)
  next
    case 6
    show ?thesis unfolding 6 status_member_at by (simp add: merge_status_def merge_member_def time_members)
  next
    case 7
    have "conditions (merge_status base st cur) = (if map condition_text (conditions base) = map condition_text (conditions st)
        then conditions cur else map wire_condition (conditions st))"
      by (simp add: merge_status_def merge_member_def comp_def)
    then show ?thesis unfolding 7 status_member_at conds by (auto simp: cw simp del: map_map)
  next
    case 8
    show ?thesis unfolding 8 status_member_at by (simp add: merge_status_def merge_member_def)
  next
    case 9
    then show ?thesis by (simp add: status_member_def)
  qed
qed

text \<open>What the API server stores for the patch is the encoding of the merged status.\<close>

theorem merge_refines:
  "apply_patch (create_patch (status_members base) (status_members st)) (status_members cur)
    = status_members (merge_status base st cur)"
  by (rule fmap_ext) (simp add: apply_create status_members_lookup merge_status_member)

text \<open>A patch between statuses of the same encoding changes nothing.\<close>

lemma status_members_eq:
  assumes "status_members a = status_members b"
  shows "phase a = phase b" "tokensUsedToday a = tokensUsedToday b" "costUsedThisMonth a = costUsedThisMonth b"
    "tokenBudgetRemainingPct a = tokenBudgetRemainingPct b" "costBudgetRemainingPct a = costBudgetRemainingPct b"
    "map_option FormatRFC3339 (lastEvaluationTime a) = map_option FormatRFC3339 (lastEvaluationTime b)"
    "map_option FormatRFC3339 (nextResetTime a) = map_option FormatRFC3339 (nextResetTime b)"
    "map condition_text (conditions a) = map condition_text (conditions b)"
proof -
  have same: "status_member k a = status_member k b" for k
    using assms by (simp flip: status_members_lookup)
  show "phase a = phase b" using same [of "''phase''"] by (auto simp: status_member_at phase_text_inj split: if_splits)
  show "tokensUsedToday a = tokensUsedToday b" using same [of "''tokensUsedToday''"] by (simp add: status_member_at)
  show "costUsedThisMonth a = costUsedThisMonth b"
    using same [of "''costUsedThisMonth''"] by (auto simp: status_member_at split: if_splits)
  show "tokenBudgetRemainingPct a = tokenBudgetRemainingPct b"
    using same [of "''tokenBudgetRemainingPct''"] by (auto simp: status_member_at split: if_splits)
  show "costBudgetRemainingPct a = costBudgetRemainingPct b"
    using same [of "''costBudgetRemainingPct''"] by (auto simp: status_member_at split: if_splits)
  show "map_option FormatRFC3339 (lastEvaluationTime a) = map_option FormatRFC3339 (lastEvaluationTime b)"
    using same [of "''lastEvaluationTime''"] unfolding status_member_at time_members .
  show "map_option FormatRFC3339 (nextResetTime a) = map_option FormatRFC3339 (nextResetTime b)"
    using same [of "''nextResetTime''"] unfolding status_member_at time_members .
  show "map condition_text (conditions a) = map condition_text (conditions b)"
    using same [of "''conditions''"] unfolding status_member_at conditions_json_text [symmetric]
    by (cases "conditions a"; cases "conditions b") simp_all
qed

lemma merge_status_same:
  assumes "status_members a = status_members b"
  shows "merge_status a b cur = cur"
  using status_members_eq [OF assms] by (simp add: merge_status_def merge_member_def comp_def time_members)

end
