(* ===== verification/Pricing.thy ===== *)
theory Pricing
  imports Kube "HOL-Library.Multiset"
begin

text \<open>
  GPU list prices: \<^verbatim>\<open>internal/costpatcher/pricing\<close> (loader, node matching, the Prometheus
  collector) and the refresh loop body of \<^verbatim>\<open>internal/costpatcher/app.go\<close>.

  The YAML decoder, the API server and the order in which Go ranges over a map are parameters.
  The collector's state is a record; its exchange sort is translated as written and proved to
  sort.
\<close>

section \<open>Documents\<close>

record price_rule =
  pr_description :: string
  pr_node_labels :: smap
  pr_price :: f64
  pr_effective_from :: string

record price_doc =
  pd_version :: int
  pd_currency :: string
  pd_gpus :: "price_rule list"

datatype pricing_error =
    ParseError string | InvalidVersion int | CurrencyRequired | GPUsEmpty
  | NodeLabelsRequired nat | PriceNotPositive nat | MissingDataKey string string string | ApiError string

fun check_rules :: "nat \<Rightarrow> price_rule list \<Rightarrow> pricing_error option" where
  "check_rules i [] = None"
| "check_rules i (g # gs) =
     (if fmdom (pr_node_labels g) = {||} then Some (NodeLabelsRequired i)
      else if fle (pr_price g) fzero then Some (PriceNotPositive i)
      else check_rules (Suc i) gs)"

definition LoadFromConfigMapData ::
  "(string \<Rightarrow> string + price_doc) \<Rightarrow> string \<Rightarrow> pricing_error + price_doc" where
  "LoadFromConfigMapData unmarshal data = (case unmarshal data of
     Inl err \<Rightarrow> Inl (ParseError err)
   | Inr doc \<Rightarrow>
       if pd_version doc < 1 then Inl (InvalidVersion (pd_version doc))
       else if TrimSpace (pd_currency doc) = '''' then Inl CurrencyRequired
       else if pd_gpus doc = [] then Inl GPUsEmpty
       else case check_rules 0 (pd_gpus doc) of Some err \<Rightarrow> Inl err | None \<Rightarrow> Inr doc)"

definition FetchConfigMap ::
  "(string \<Rightarrow> string + price_doc) \<Rightarrow> (string \<Rightarrow> string \<Rightarrow> string + smap) \<Rightarrow> string \<Rightarrow> string \<Rightarrow> string
     \<Rightarrow> pricing_error + price_doc" where
  "FetchConfigMap unmarshal get_cm ns name dataKey0 =
    (let dataKey = (if dataKey0 = '''' then ''pricing.yaml'' else dataKey0) in
     case get_cm ns name of
       Inl err \<Rightarrow> Inl (ApiError err)
     | Inr data \<Rightarrow> if \<not> mhas data dataKey \<or> TrimSpace (mget data dataKey) = ''''
         then Inl (MissingDataKey ns name dataKey)
         else LoadFromConfigMapData unmarshal (mget data dataKey))"

section \<open>Node prices\<close>

definition matchAll :: "smap \<Rightarrow> smap \<Rightarrow> bool" where
  "matchAll nodeLabels want \<longleftrightarrow>
     fmdom want \<noteq> {||} \<and> fmpred (\<lambda>k v. mget nodeLabels k = v) want"

fun first_price :: "smap \<Rightarrow> price_rule list \<Rightarrow> f64 option" where
  "first_price labels [] = None"
| "first_price labels (rule # rules) =
     (if matchAll labels (pr_node_labels rule) then Some (pr_price rule) else first_price labels rules)"

definition PriceForNode :: "price_doc option \<Rightarrow> smap option \<Rightarrow> f64 option" where
  "PriceForNode doc node = (case (doc, node) of
     (Some d, Some labels) \<Rightarrow> first_price labels (pd_gpus d) | _ \<Rightarrow> None)"

section \<open>Sorting\<close>

definition swap_if_less :: "nat \<Rightarrow> nat \<Rightarrow> string list \<Rightarrow> string list" where
  "swap_if_less i j a = (if a ! j < a ! i then a[i := a ! j, j := a ! i] else a)"

definition sort_pass :: "nat \<Rightarrow> string list \<Rightarrow> string list" where
  "sort_pass i a = fold (swap_if_less i) [Suc i..<length a] a"

definition sortStrings :: "string list \<Rightarrow> string list" where
  "sortStrings a = fold sort_pass [0..<length a] a"

section \<open>Collector\<close>

text \<open>\<open>rng\<close> is the order in which a range statement visits the keys of a map.\<close>

type_synonym rng = "string fset \<Rightarrow> string list"

record collector =
  gc_doc :: "price_doc option"
  gc_union :: "string list"
  gc_nodePrice :: "(string, f64) fmap"

definition NewGaugeCollector :: collector where
  "NewGaugeCollector = \<lparr>gc_doc = None, gc_union = [], gc_nodePrice = fmempty\<rparr>"

definition unionKeysFromDoc :: "rng \<Rightarrow> price_doc option \<Rightarrow> string list" where
  "unionKeysFromDoc rng doc = (case doc of None \<Rightarrow> []
   | Some d \<Rightarrow> sortStrings (rng (fold (\<lambda>g s. s |\<union>| fmdom (pr_node_labels g)) (pd_gpus d) {||})))"

definition mergeSortedUnique :: "rng \<Rightarrow> string list \<Rightarrow> string list \<Rightarrow> string list" where
  "mergeSortedUnique rng existing incoming =
     sortStrings (rng (fset_of_list existing |\<union>| fset_of_list incoming))"

definition SetDocument :: "rng \<Rightarrow> price_doc option \<Rightarrow> collector \<Rightarrow> collector" where
  "SetDocument rng doc c =
     c\<lparr>gc_doc := doc, gc_union := mergeSortedUnique rng (gc_union c) (unionKeysFromDoc rng doc)\<rparr>"

definition SetNodePrices :: "(string, f64) fmap \<Rightarrow> collector \<Rightarrow> collector" where
  "SetNodePrices nodePrice c = c\<lparr>gc_nodePrice := nodePrice\<rparr>"

definition KSMLabelName :: "string \<Rightarrow> string" where
  "KSMLabelName k = ''label_'' @ replace_char CHR ''-'' CHR ''_'' (replace_char CHR ''.'' CHR ''_''
     (replace_char CHR ''/'' CHR ''_'' k))"

definition metricLabelNames :: "collector \<Rightarrow> string list" where
  "metricLabelNames c = ''currency'' # map KSMLabelName (gc_union c)"

record series =
  se_metric :: string
  se_label_names :: "string list"
  se_label_values :: "string list"
  se_value :: f64

definition Describe :: "collector \<Rightarrow> (string \<times> string list) list" where
  "Describe c = [(''kubefisher_gpu_price_per_hour'', metricLabelNames c),
     (''kubefisher_gpu_price_per_hour_by_node'', [''currency'', ''node''])]"

text \<open>
  \<open>desc_ok\<close> says which label name lists the metrics library accepts; \<open>None\<close> is the panic of
  \<^verbatim>\<open>MustNewConstMetric\<close> on a descriptor it refuses.
\<close>

definition rule_series :: "collector \<Rightarrow> price_doc \<Rightarrow> price_rule \<Rightarrow> series" where
  "rule_series c doc g = \<lparr>se_metric = ''kubefisher_gpu_price_per_hour'', se_label_names = metricLabelNames c,
     se_label_values = pd_currency doc # map (mget (pr_node_labels g)) (gc_union c), se_value = pr_price g\<rparr>"

definition node_series :: "collector \<Rightarrow> price_doc \<Rightarrow> string \<Rightarrow> series" where
  "node_series c doc node = \<lparr>se_metric = ''kubefisher_gpu_price_per_hour_by_node'',
     se_label_names = [''currency'', ''node''], se_label_values = [pd_currency doc, node],
     se_value = (case fmlookup (gc_nodePrice c) node of Some p \<Rightarrow> p | None \<Rightarrow> fzero)\<rparr>"

definition Collect :: "(string list \<Rightarrow> bool) \<Rightarrow> rng \<Rightarrow> collector \<Rightarrow> series list option" where
  "Collect desc_ok rng c = (case gc_doc c of None \<Rightarrow> Some []
   | Some doc \<Rightarrow>
       let by_rule = (if gc_union c \<noteq> [] then map (rule_series c doc) (pd_gpus doc) else []);
           by_node = map (node_series c doc) (rng (fmdom (gc_nodePrice c)))
       in if list_all (\<lambda>s. desc_ok (se_label_names s)) (by_rule @ by_node)
          then Some (by_rule @ by_node) else None)"

text \<open>One refresh: the answers of the two API calls, then the collector.\<close>

definition refresh ::
  "rng \<Rightarrow> pricing_error + price_doc \<Rightarrow> string + (string \<times> smap) list \<Rightarrow> collector \<Rightarrow> collector" where
  "refresh rng fetched nodes c = (case fetched of Inl _ \<Rightarrow> c
   | Inr doc \<Rightarrow> let c1 = SetDocument rng (Some doc) c in
       case nodes of Inl _ \<Rightarrow> c1
       | Inr ns \<Rightarrow> SetNodePrices (fold (\<lambda>(name, labels) m.
           case PriceForNode (Some doc) (Some labels) of Some p \<Rightarrow> fmupd name p m | None \<Rightarrow> m) ns fmempty) c1)"

section \<open>The exchange sort\<close>

lemma mset_swap2: "i < length a \<Longrightarrow> j < length a \<Longrightarrow> mset (a[i := a ! j, j := a ! i]) = mset a"
  using mset_swap [of j a i] by simp

lemma swap_if_less_props:
  assumes "i < length a" and "j < length a"
  shows "mset (swap_if_less i j a) = mset a" and "length (swap_if_less i j a) = length a"
  using assms by (simp_all add: swap_if_less_def mset_swap2)

text \<open>A pass puts a least element of the rest at position \<open>i\<close> and leaves the part before it alone.\<close>

lemma fold_swap_invariant:
  assumes "i < m" and "m \<le> length a"
  defines "b \<equiv> fold (swap_if_less i) [Suc i..<m] a"
  shows "mset b = mset a \<and> length b = length a \<and> take i b = take i a
    \<and> (\<forall>k. i < k \<and> k < m \<longrightarrow> b ! i \<le> b ! k) \<and> drop m b = drop m a \<and> b ! i \<le> a ! i"
  using assms(1,2) unfolding b_def
proof (induction m)
  case (Suc m)
  show ?case
  proof (cases "i = m")
    case False
    define c where "c = fold (swap_if_less i) [Suc i..<m] a"
    have IH: "mset c = mset a" "length c = length a" "take i c = take i a"
      "\<And>k. i < k \<Longrightarrow> k < m \<Longrightarrow> c ! i \<le> c ! k" "drop m c = drop m a" "c ! i \<le> a ! i"
      using Suc False unfolding c_def by auto
    have e: "fold (swap_if_less i) [Suc i..<Suc m] a = swap_if_less i m c"
      using Suc.prems False by (simp add: c_def)
    have im: "i < length c" "m < length c" "i < m" using Suc.prems False IH(2) by auto
    have d: "drop (Suc m) (swap_if_less i m c) = drop (Suc m) a"
    proof -
      have "drop (Suc m) c = drop (Suc m) a" using arg_cong [OF IH(5), of "drop 1"] by simp
      then show ?thesis using im by (simp add: swap_if_less_def)
    qed
    have le: "swap_if_less i m c ! i \<le> swap_if_less i m c ! k" if "i < k" "k < Suc m" for k
    proof (cases "k = m")
      case True
      with im show ?thesis by (auto simp: swap_if_less_def)
    next
      case km: False
      with that have "c ! i \<le> c ! k" by (intro IH(4)) auto
      with km im that show ?thesis by (auto simp: swap_if_less_def)
    qed
    have "swap_if_less i m c ! i \<le> a ! i"
      using IH(6) im by (auto simp: swap_if_less_def)
    then show ?thesis
      unfolding e using IH im d le swap_if_less_props [OF im(1,2)]
      by (simp add: swap_if_less_def)
  qed (use Suc.prems in auto)
qed simp

lemma sort_pass_props:
  assumes "i < length a"
  shows "mset (sort_pass i a) = mset a" and "length (sort_pass i a) = length a"
    and "take i (sort_pass i a) = take i a"
    and "\<And>k. i < k \<Longrightarrow> k < length a \<Longrightarrow> sort_pass i a ! i \<le> sort_pass i a ! k"
  using fold_swap_invariant [OF assms le_refl] by (simp_all add: sort_pass_def)

lemma sort_prefix:
  assumes "m \<le> length a"
  defines "b \<equiv> fold sort_pass [0..<m] a"
  shows "mset b = mset a \<and> length b = length a \<and> sorted (take m b)
    \<and> (\<forall>x \<in> set (take m b). \<forall>y \<in> set (drop m b). x \<le> y)"
  using assms(1) unfolding b_def
proof (induction m)
  case (Suc m)
  define c where "c = fold sort_pass [0..<m] a"
  define d where "d = sort_pass m c"
  have IH: "mset c = mset a" "length c = length a" "sorted (take m c)"
    "\<And>x y. x \<in> set (take m c) \<Longrightarrow> y \<in> set (drop m c) \<Longrightarrow> x \<le> y"
    using Suc unfolding c_def by auto
  have m: "m < length c" using Suc.prems IH(2) by simp
  note P = sort_pass_props [OF m, folded d_def]
  have split: "drop m d = d ! m # drop (Suc m) d" "take (Suc m) d = take m d @ [d ! m]"
    using m P(2) by (simp_all add: Cons_nth_drop_Suc take_Suc_conv_app_nth)
  have "mset (take m d) + mset (drop m d) = mset (take m c) + mset (drop m c)"
    using P(1) by (metis append_take_drop_id mset_append)
  then have same: "set (drop m d) = set (drop m c)" by (metis P(3) add_left_cancel mset_eq_setD)
  have least: "d ! m \<le> y" if "y \<in> set (drop (Suc m) d)" for y
    using that P(2,4) by (auto simp: in_set_conv_nth)
  have below: "x \<le> y" if "x \<in> set (take m d)" "y \<in> set (drop m d)" for x y
    using that IH(4) same by (simp add: P(3))
  have "sorted (take (Suc m) d)"
    using IH(3) below split by (simp add: sorted_append P(3))
  moreover have "x \<le> y" if "x \<in> set (take (Suc m) d)" "y \<in> set (drop (Suc m) d)" for x y
    using that below least split by auto
  ultimately show ?case
    using P(1,2) IH(1,2) by (simp add: d_def c_def)
qed simp

lemma sortStrings_sorts: "sorted (sortStrings a)" "mset (sortStrings a) = mset a"
  using sort_prefix [of "length a" a] unfolding sortStrings_def by (metis order_refl take_all)+

text \<open>What the collector needs from its sort: on distinct names the result is canonical.\<close>

locale string_sorter =
  fixes srt :: "string list \<Rightarrow> string list"
  assumes srt_sorted: "sorted (srt xs)" and srt_mset: "mset (srt xs) = mset xs"
begin

lemma srt_set: "set (srt xs) = set xs"
  using srt_mset by (rule mset_eq_setD)

lemma srt_distinct: "distinct (srt xs) = distinct xs"
  using srt_mset by (metis mset_eq_imp_distinct_iff)

lemma canonical: "distinct xs \<Longrightarrow> srt xs = sorted_list_of_set (set xs)"
  by (metis srt_sorted srt_set srt_distinct sorted_list_of_set.idem_if_sorted_distinct)

end

interpretation exchange: string_sorter sortStrings
  by unfold_locales (rule sortStrings_sorts)+

text \<open>What a range statement promises: every key once, in some order.\<close>

definition ranges :: "rng \<Rightarrow> bool" where
  "ranges rng \<longleftrightarrow> (\<forall>S. set (rng S) = fset S \<and> distinct (rng S))"

text \<open>The collector's exchange sort sorts: its result is in byte order and has the same
  elements with the same multiplicities.\<close>

theorem sortStrings_correct: "sorted (sortStrings a) \<and> mset (sortStrings a) = mset a"
  by (simp add: sortStrings_sorts)

lemma union_keys_doc:
  assumes "ranges rng"
  shows "set (unionKeysFromDoc rng (Some d)) = (\<Union>g \<in> set (pd_gpus d). fset (fmdom (pr_node_labels g)))"
proof -
  have "fset (fold (\<lambda>g s. s |\<union>| fmdom (pr_node_labels g)) gs S)
      = fset S \<union> (\<Union>g \<in> set gs. fset (fmdom (pr_node_labels g)))" for gs :: "price_rule list" and S
    by (induction gs arbitrary: S) auto
  then show ?thesis
    using assms by (simp add: unionKeysFromDoc_def exchange.srt_set ranges_def)
qed

text \<open>The node label keys of a document's rules.\<close>

definition doc_keys :: "price_doc \<Rightarrow> string set" where
  "doc_keys d = (\<Union>g \<in> set (pd_gpus d). fset (fmdom (pr_node_labels g)))"

lemma SetDocument_keys:
  assumes "ranges rng"
  shows "gc_union (SetDocument rng (Some d) c) = sorted_list_of_set (set (gc_union c) \<union> doc_keys d)"
proof -
  have "mergeSortedUnique rng xs ys = sorted_list_of_set (set xs \<union> set ys)" for xs ys
    using assms exchange.canonical [of "rng (fset_of_list xs |\<union>| fset_of_list ys)"]
    by (simp add: mergeSortedUnique_def ranges_def fset_of_list.rep_eq)
  then show ?thesis
    using union_keys_doc [OF assms, of d] by (simp add: SetDocument_def doc_keys_def)
qed

text \<open>Label names never depend on Go's map order and never disappear: after loading a document
  the collector's keys are the sorted union of the keys it had and those of the document's rules.\<close>

theorem SetDocument_union:
  assumes "ranges rng"
  shows "gc_union (SetDocument rng (Some d) c) = sorted_list_of_set
    (set (gc_union c) \<union> (\<Union>g \<in> set (pd_gpus d). fset (fmdom (pr_node_labels g))))"
  by (simp add: SetDocument_keys [OF assms] doc_keys_def)

definition demo_doc :: price_doc where
  "demo_doc = \<lparr>pd_version = 1, pd_currency = ''USD'', pd_gpus =
     [\<lparr>pr_description = '''', pr_node_labels = fmupd ''gpu/model'' ''a10g'' fmempty, pr_price = f64_of_int 2,
       pr_effective_from = ''''\<rparr>]\<rparr>"

lemma demo_ranges: "ranges sorted_list_of_fset"
  by (simp add: ranges_def sorted_list_of_fset.rep_eq)

theorem SetDocument_union_witness:
  "gc_union (SetDocument sorted_list_of_fset (Some demo_doc) (NewGaugeCollector\<lparr>gc_union := [''b'']\<rparr>))
    = sorted_list_of_set {''b'', ''gpu/model''}"
  using SetDocument_union [OF demo_ranges, of demo_doc "NewGaugeCollector\<lparr>gc_union := [''b'']\<rparr>"]
  by (simp add: demo_doc_def)

section \<open>Rules and prices\<close>

lemma check_rules_ok:
  "check_rules i gs = None \<longleftrightarrow> (\<forall>g \<in> set gs. fmdom (pr_node_labels g) \<noteq> {||} \<and> \<not> fle (pr_price g) fzero)"
  by (induction i gs rule: check_rules.induct) auto

lemma first_price_find:
  "first_price labels gs = map_option pr_price (List.find (\<lambda>g. matchAll labels (pr_node_labels g)) gs)"
  by (induction gs) auto

text \<open>A node of a loaded document is priced by the first rule all of whose labels it carries, and
  the price is positive unless the document gave NaN; a node no rule matches has no price.\<close>

theorem PriceForNode_first_rule:
  assumes "LoadFromConfigMapData unmarshal data = Inr doc"
  shows "PriceForNode (Some doc) (Some labels) =
      map_option pr_price (List.find (\<lambda>g. matchAll labels (pr_node_labels g)) (pd_gpus doc))
    \<and> pd_gpus doc \<noteq> [] \<and> 1 \<le> pd_version doc
    \<and> (case PriceForNode (Some doc) (Some labels) of None \<Rightarrow> True | Some p \<Rightarrow> p = NaN \<or> flt fzero p)"
proof -
  have doc: "pd_gpus doc \<noteq> []" "1 \<le> pd_version doc" "check_rules 0 (pd_gpus doc) = None"
    using assms by (auto simp: LoadFromConfigMapData_def split: sum.splits if_splits option.splits)
  have "p = NaN \<or> flt fzero p" if "first_price labels (pd_gpus doc) = Some p" for p
  proof -
    from that obtain g where "g \<in> set (pd_gpus doc)" "p = pr_price g"
      by (auto simp: first_price_find dest: find_Some_in)
    then have "\<not> fle p fzero" using doc(3) by (simp add: check_rules_ok)
    then show ?thesis using not_flt [of fzero p] by (auto simp: fzero_def)
  qed
  then show ?thesis
    using doc by (auto simp: PriceForNode_def first_price_find split: option.splits)
qed

theorem PriceForNode_first_rule_witness:
  "PriceForNode (Some demo_doc) (Some (fmupd ''gpu/model'' ''a10g'' fmempty)) = Some (f64_of_int 2)"
proof -
  have "LoadFromConfigMapData (\<lambda>_. Inr demo_doc) ''yaml'' = Inr demo_doc"
    by (simp add: LoadFromConfigMapData_def demo_doc_def check_rules_ok f64_simps fzero_def)
      (simp add: TrimSpace_graphic graphic_def less_eq_char_def)
  from PriceForNode_first_rule [OF this, of "fmupd ''gpu/model'' ''a10g'' fmempty"] show ?thesis
    by (simp add: demo_doc_def matchAll_def fmpred_iff)
qed

text \<open>A rule that asks for a label with an empty value also matches nodes without that label.\<close>

lemma empty_label_value_matches_absent:
  "matchAll fmempty (fmupd k '''' fmempty) \<and> PriceForNode (Some (demo_doc\<lparr>pd_gpus :=
     [\<lparr>pr_description = '''', pr_node_labels = fmupd k '''' fmempty, pr_price = p, pr_effective_from = ''''\<rparr>]\<rparr>))
     (Some fmempty) = Some p"
  by (simp add: PriceForNode_def matchAll_def fmpred_iff)

section \<open>Exported series\<close>

text \<open>Two node label keys that differ only in the characters the exporter rewrites make it panic:
  the label names of the rule series then repeat, and the metrics library refuses them.\<close>

theorem colliding_label_keys_panic:
  assumes "\<And>ls. desc_ok ls \<Longrightarrow> distinct ls"
    and "gc_doc c = Some doc" and "pd_gpus doc \<noteq> []"
    and "gc_union c = xs @ ''gpu.model'' # ys @ ''gpu/model'' # zs"
  shows "Collect desc_ok rng c = None"
proof -
  have "KSMLabelName ''gpu.model'' = KSMLabelName ''gpu/model''"
    by (simp add: KSMLabelName_def replace_char_def)
  then have "\<not> distinct (metricLabelNames c)"
    using assms(4) by (simp add: metricLabelNames_def)
  then have "\<not> desc_ok (metricLabelNames c)" using assms(1) by blast
  then show ?thesis
    using assms(2-4) by (cases "pd_gpus doc") (simp_all add: Collect_def Let_def rule_series_def)
qed

theorem colliding_label_keys_panic_witness:
  "Collect distinct sorted_list_of_fset \<lparr>gc_doc = Some demo_doc, gc_union = [''gpu.model'', ''gpu/model''],
     gc_nodePrice = fmempty\<rparr> = None"
  by (rule colliding_label_keys_panic [where xs = "[]" and ys = "[]" and zs = "[]" and doc = demo_doc])
    (simp_all add: demo_doc_def)

text \<open>When the pricing document loads but the nodes cannot be listed, the collector keeps the
  node prices of the old document and exports them under the new document's currency.\<close>

theorem stale_prices_under_new_currency:
  assumes "ranges rng" and "fmlookup (gc_nodePrice c) node = Some p"
    and "Collect (\<lambda>_. True) rng (refresh rng (Inr doc) (Inl err) c) = Some ss"
  shows "\<exists>s \<in> set ss. se_metric s = ''kubefisher_gpu_price_per_hour_by_node''
    \<and> se_label_values s = [pd_currency doc, node] \<and> se_value s = p"
proof
  let ?c = "refresh rng (Inr doc) (Inl err) c"
  have "node \<in> set (rng (fmdom (gc_nodePrice c)))"
    using assms(1,2) by (simp add: ranges_def fmdomI)
  then show "node_series ?c doc node \<in> set ss"
    using assms(3) by (auto simp: Collect_def Let_def refresh_def SetDocument_def list_all_iff)
  show "se_metric (node_series ?c doc node) = ''kubefisher_gpu_price_per_hour_by_node''
    \<and> se_label_values (node_series ?c doc node) = [pd_currency doc, node]
    \<and> se_value (node_series ?c doc node) = p"
    using assms(2) by (simp add: node_series_def refresh_def Let_def SetDocument_def)
qed

theorem stale_prices_under_new_currency_witness:
  "\<exists>ss. Collect (\<lambda>_. True) sorted_list_of_fset
      (refresh sorted_list_of_fset (Inr (demo_doc\<lparr>pd_currency := ''EUR''\<rparr>)) (Inl ''timeout'')
        \<lparr>gc_doc = Some demo_doc, gc_union = [''gpu/model''], gc_nodePrice = fmupd ''n1'' (f64_of_int 2) fmempty\<rparr>) = Some ss
    \<and> (\<exists>s \<in> set ss. se_label_values s = [''EUR'', ''n1''] \<and> se_value s = f64_of_int 2)"
proof -
  let ?c = "\<lparr>gc_doc = Some demo_doc, gc_union = [''gpu/model''], gc_nodePrice = fmupd ''n1'' (f64_of_int 2) fmempty\<rparr>"
  obtain ss where ss: "Collect (\<lambda>_. True) sorted_list_of_fset
      (refresh sorted_list_of_fset (Inr (demo_doc\<lparr>pd_currency := ''EUR''\<rparr>)) (Inl ''timeout'') ?c) = Some ss"
    by (simp add: Collect_def Let_def refresh_def SetDocument_def list_all_iff)
  have "fmlookup (gc_nodePrice ?c) ''n1'' = Some (f64_of_int 2)" by simp
  from stale_prices_under_new_currency [OF demo_ranges this ss] ss show ?thesis by auto
qed

section \<open>A run of refreshes\<close>

text \<open>The refresh loop of \<^verbatim>\<open>app.go\<close>: one refresh at the start and one for each tick, with what the two API calls
  answered each time.\<close>

type_synonym refresh_answers = "(pricing_error + price_doc) \<times> (string + (string \<times> smap) list)"

fun run_refreshes :: "rng \<Rightarrow> refresh_answers list \<Rightarrow> collector \<Rightarrow> collector" where
  "run_refreshes rng [] c = c"
| "run_refreshes rng ((fetched, nodes) # rest) c = run_refreshes rng rest (refresh rng fetched nodes c)"

text \<open>The history as seen from outside: the documents that could be loaded, and those of them after which the
  nodes could be listed too.\<close>

definition loaded :: "refresh_answers list \<Rightarrow> price_doc list" where
  "loaded xs = concat (map (\<lambda>(f, n). case f of Inr d \<Rightarrow> [d] | Inl _ \<Rightarrow> []) xs)"

definition complete_refreshes :: "refresh_answers list \<Rightarrow> (price_doc \<times> (string \<times> smap) list) list" where
  "complete_refreshes xs = concat (map (\<lambda>(f, n). case (f, n) of (Inr d, Inr ns) \<Rightarrow> [(d, ns)] | _ \<Rightarrow> []) xs)"

definition prices_of :: "price_doc \<Rightarrow> (string \<times> smap) list \<Rightarrow> (string, f64) fmap" where
  "prices_of doc ns = fold (\<lambda>(name, labels) m.
     case PriceForNode (Some doc) (Some labels) of Some p \<Rightarrow> fmupd name p m | None \<Rightarrow> m) ns fmempty"

lemma run_refreshes_snoc:
  "run_refreshes rng (xs @ [(f, n)]) c = refresh rng f n (run_refreshes rng xs c)"
  by (induction xs arbitrary: c) auto

lemma history_snoc:
  "loaded (xs @ [(f, n)]) = loaded xs @ (case f of Inr d \<Rightarrow> [d] | Inl _ \<Rightarrow> [])"
  "complete_refreshes (xs @ [(f, n)]) =
     complete_refreshes xs @ (case (f, n) of (Inr d, Inr ns) \<Rightarrow> [(d, ns)] | _ \<Rightarrow> [])"
  by (simp_all add: loaded_def complete_refreshes_def)

lemma refresh_fields:
  assumes "ranges rng"
  shows "gc_doc (refresh rng f n c) = (case f of Inr d \<Rightarrow> Some d | Inl _ \<Rightarrow> gc_doc c)"
    "gc_nodePrice (refresh rng f n c) = (case (f, n) of (Inr d, Inr ns) \<Rightarrow> prices_of d ns | _ \<Rightarrow> gc_nodePrice c)"
    "gc_union (refresh rng f n c) = (case f of Inr d \<Rightarrow> sorted_list_of_set (set (gc_union c) \<union> doc_keys d)
       | Inl _ \<Rightarrow> gc_union c)"
  using SetDocument_keys [OF assms]
  by (simp_all add: refresh_def SetNodePrices_def SetDocument_def prices_of_def Let_def split: sum.split)

lemma finite_doc_keys [simp]: "finite (doc_keys d)"
  by (simp add: doc_keys_def)

text \<open>C34 The collector shows the last good answers: after any run of refreshes, whatever failed in between, it
  holds the last document that could be loaded, the node prices of the last refresh in which the nodes could be
  listed as well, and the sorted label keys of all documents ever loaded. A failed refresh never takes prices
  away.\<close>

theorem run_refreshes_last_good:
  fixes xs :: "refresh_answers list"
  assumes "ranges rng"
  defines "c \<equiv> run_refreshes rng xs NewGaugeCollector"
  shows "gc_doc c = (if loaded xs = [] then None else Some (last (loaded xs)))
    \<and> gc_nodePrice c = (if complete_refreshes xs = [] then fmempty
        else case last (complete_refreshes xs) of (d, ns) \<Rightarrow> prices_of d ns)
    \<and> gc_union c = sorted_list_of_set (\<Union>d \<in> set (loaded xs). doc_keys d)"
  unfolding c_def
proof (induction xs rule: rev_induct)
  case Nil
  show ?case by (simp add: NewGaugeCollector_def loaded_def complete_refreshes_def)
next
  case (snoc x xs)
  obtain f n where x: "x = (f, n)" by (cases x)
  show ?case
    using snoc unfolding x run_refreshes_snoc history_snoc refresh_fields [OF assms(1)]
    by (auto split: sum.split simp: Un_commute)
qed

theorem run_refreshes_last_good_witness:
  "gc_union (run_refreshes sorted_list_of_fset [(Inr demo_doc, Inl ''timeout''), (Inl GPUsEmpty, Inr [])] NewGaugeCollector)
     = [''gpu/model'']
   \<and> gc_nodePrice (run_refreshes sorted_list_of_fset [(Inr demo_doc, Inl ''timeout''), (Inl GPUsEmpty, Inr [])]
       NewGaugeCollector) = fmempty"
  using run_refreshes_last_good [OF demo_ranges, of "[(Inr demo_doc, Inl ''timeout''), (Inl GPUsEmpty, Inr [])]"]
  by (simp add: loaded_def complete_refreshes_def doc_keys_def demo_doc_def)

end
