(* ===== verification/CostReconcile.thy ===== *)
theory CostReconcile
  imports Adapters Promclient
begin

text \<open>
  The cost patcher's tick, \<^verbatim>\<open>internal/costpatcher/reconcile.go\<close>: for every GPU pod choose an
  adapter, resolve its owner, query Prometheus and write or remove the cost annotations; then
  let the adapters that can reconcile owners without pods.

  A tick is a function on the API server's state; its error is the one that ends the tick. Each
  pod has its own clock reading. Log lines are left out.
\<close>

section \<open>Definitions\<close>

definition cost_per_hour_query :: "pod \<Rightarrow> prom_query" where
  "cost_per_hour_query p = \<lparr>pq_format = ''kubefisher:cost_per_hour{namespace=%q,pod=%q}'',
     pq_args = [QStr (p_namespace p), QStr (p_name p)]\<rparr>"

definition cost_per_token_query :: "pod \<Rightarrow> prom_query" where
  "cost_per_token_query p = \<lparr>pq_format = ''kubefisher:cost_per_token{namespace=%q,pod=%q}'',
     pq_args = [QStr (p_namespace p), QStr (p_name p)]\<rparr>"

definition waiting_reasons :: "string list" where
  "waiting_reasons = [''ContainerCreating'', ''ImagePullBackOff'', ''ErrImagePull'', ''PodInitializing'']"

definition isPodLoading :: "pod \<Rightarrow> bool" where
  "isPodLoading p \<longleftrightarrow> p_phase p \<noteq> ''Running''
     \<and> (list_ex (\<lambda>w. case w of None \<Rightarrow> False | Some r \<Rightarrow> List.member waiting_reasons r) (p_waiting p)
        \<or> p_phase p = ''Pending'')"

definition choose_adapter :: "adapter list \<Rightarrow> pod \<Rightarrow> adapter option" where
  "choose_adapter adapters p = List.find (\<lambda>a. Detect a p) adapters"

datatype tick_error = ListPods string | HourQuery string string string | TokenQuery string string string

text \<open>What a tick does for one pod: \<open>Inl\<close> ends the tick.\<close>

definition tick_pod ::
  "'c kube \<Rightarrow> prom_api \<Rightarrow> adapter list \<Rightarrow> utc \<Rightarrow> pod \<Rightarrow> 'c \<Rightarrow> tick_error option \<times> 'c" where
  "tick_pod K api adapters now p c =
    (if p_namespace p = '''' \<or> p_name p = '''' then (None, c)
     else let gpus = GPUCountFromPod p in
     if gpus \<le> 0 then (None, c)
     else case choose_adapter adapters p of
       None \<Rightarrow> (None, c)
     | Some chosen \<Rightarrow> (case ResolveTarget chosen K c p of
         Inl _ \<Rightarrow> (None, c)
       | Inr target \<Rightarrow> (case QueryInstant api (cost_per_hour_query p) of
           Inl err \<Rightarrow> (Some (HourQuery (p_namespace p) (p_name p) err), c)
         | Inr None \<Rightarrow> (None, snd (RemoveCostAnnotations (ka_patch K) target rate_keys c))
         | Inr (Some cph) \<Rightarrow>
             (case (if isPodLoading p then Inr None else QueryInstant api (cost_per_token_query p)) of
                Inl err \<Rightarrow> (Some (TokenQuery (p_namespace p) (p_name p) err), c)
              | Inr cpt \<Rightarrow>
                  (None, snd (WriteCost chosen K target
                    \<lparr>CostPerHour = Some cph, CostPerToken = cpt, GPUCount = Some gpus,
                     ReplicaCount = Some (ReplicasFromTarget K target), LastUpdatedAt = now\<rparr> c))))))"

fun tick_pods ::
  "'c kube \<Rightarrow> prom_api \<Rightarrow> adapter list \<Rightarrow> (pod \<Rightarrow> utc) \<Rightarrow> pod list \<Rightarrow> 'c \<Rightarrow> tick_error option \<times> 'c" where
  "tick_pods K api adapters now [] c = (None, c)"
| "tick_pods K api adapters now (p # ps) c = (case tick_pod K api adapters (now p) p c of
     (Some err, c') \<Rightarrow> (Some err, c')
   | (None, c') \<Rightarrow> tick_pods K api adapters now ps c')"

definition tick_owners :: "'c kube \<Rightarrow> utc \<Rightarrow> adapter list \<Rightarrow> 'c \<Rightarrow> 'c" where
  "tick_owners K now adapters c = fold (\<lambda>a c. case ReconcileOwners a of
     None \<Rightarrow> c | Some f \<Rightarrow> snd (f K now c)) adapters c"

definition tick ::
  "'c kube \<Rightarrow> prom_api \<Rightarrow> adapter list \<Rightarrow> (pod \<Rightarrow> utc) \<Rightarrow> utc \<Rightarrow> 'c \<Rightarrow> tick_error option \<times> 'c" where
  "tick K api adapters now owners_now c = (case ka_list_pods K c of
     Inl err \<Rightarrow> (Some (ListPods err), c)
   | Inr pods \<Rightarrow> (case tick_pods K api adapters now pods c of
       (Some err, c') \<Rightarrow> (Some err, c')
     | (None, c') \<Rightarrow> (None, tick_owners K owners_now adapters c')))"

text \<open>\<^verbatim>\<open>Run\<close>: the first tick and one per timer event; a failed tick is logged and forgotten.\<close>

record tick_input =
  ti_api :: prom_api
  ti_now :: "pod \<Rightarrow> utc"
  ti_owners_now :: utc

definition run_ticks :: "'c kube \<Rightarrow> adapter list \<Rightarrow> tick_input list \<Rightarrow> 'c \<Rightarrow> 'c" where
  "run_ticks K adapters inputs c =
     fold (\<lambda>i c. snd (tick K (ti_api i) adapters (ti_now i) (ti_owners_now i) c)) inputs c"

section \<open>What a tick may write\<close>

lemma tick_pod_keeps:
  assumes "cost_writes_keep K I" and "I c"
  shows "I (snd (tick_pod K api adapters now p c))"
  using assms WriteCost_keeps [OF assms] RemoveCostAnnotations_keeps [OF assms, of rate_keys]
  by (simp add: tick_pod_def Let_def split: option.split sum.split)

lemma tick_pods_keeps:
  assumes "cost_writes_keep K I" and "I c"
  shows "I (snd (tick_pods K api adapters now ps c))"
  using assms(2)
proof (induction ps arbitrary: c)
  case (Cons p ps)
  then have "I (snd (tick_pod K api adapters (now p) p c))" by (simp add: tick_pod_keeps [OF assms(1)])
  with Cons.IH show ?case by (auto split: prod.split option.split)
qed simp

lemma owner_list_keeps:
  assumes "cost_writes_keep K I" and "I c"
  shows "I (snd (reconcile_owner_list K now us c))"
  using assms(2)
proof (induction us arbitrary: c)
  case (Cons u us)
  then have "I (snd (PatchTargetAnnotations (ka_patch K) (KUnstructured u) (zero_result K now u) c))"
    by (simp add: PatchTargetAnnotations_keeps [OF assms(1)])
  with Cons show ?case by (auto split: prod.split option.split sum.split)
qed simp

lemma tick_owners_keeps:
  assumes "cost_writes_keep K I" and "I c"
  shows "I (tick_owners K now adapters c)"
  unfolding tick_owners_def using assms(2)
proof (induction adapters arbitrary: c)
  case (Cons a adapters)
  have "I (snd (KServe_ReconcileOwners K now c))"
    using Cons.prems owner_list_keeps [OF assms(1)] by (simp add: KServe_ReconcileOwners_def split: sum.split)
  with Cons show ?case by (cases a) (simp_all add: ReconcileOwners_def)
qed simp

lemma tick_keeps:
  assumes "cost_writes_keep K I" and "I c"
  shows "I (snd (tick K api adapters now onow c))"
  using assms(2) tick_pods_keeps [OF assms, of api adapters now] tick_owners_keeps [OF assms(1)]
  by (auto simp: tick_def split: sum.split prod.split option.split) (metis snd_conv)+

text \<open>C19 The patcher writes nothing but costs: whatever the pods, Prometheus and the API server
  answer, every write of every tick of a run changes only annotations under the cost keys of a
  supported object, and never a total job cost that is already set. So any property of the cluster
  that such writes preserve holds at the end of the run if it held at the start.\<close>

theorem run_ticks_cost_writes_only:
  assumes "\<And>c orig t. I c \<Longrightarrow> cost_only orig t \<Longrightarrow> I (snd (ka_patch K c orig t))" and "I c"
  shows "I (run_ticks K adapters inputs c)"
proof -
  have K: "cost_writes_keep K I" using assms(1) by (simp add: cost_writes_keep_def)
  show ?thesis
    unfolding run_ticks_def using assms(2)
    by (induction inputs arbitrary: c) (simp_all add: tick_keeps [OF K])
qed

text \<open>The annotations a merge patch leaves: what differs between the object read and the object sent is written over
  the stored ones.\<close>

definition merge_annotations :: "smap \<Rightarrow> smap \<Rightarrow> smap \<Rightarrow> smap" where
  "merge_annotations orig new cur = fmfilter (\<lambda>k. fmlookup orig k = fmlookup new k) cur
     ++\<^sub>f fmfilter (\<lambda>k. fmlookup orig k \<noteq> fmlookup new k) new"

lemma merge_lookup [simp]:
  "fmlookup (merge_annotations orig new cur) k = (if fmlookup orig k = fmlookup new k then fmlookup cur k else fmlookup new k)"
  by (auto simp: merge_annotations_def fmlookup_dom_iff)

text \<open>An API server whose state is one Deployment and which applies merge patches to it.\<close>

definition merge_patch :: "kobject patch_api" where
  "merge_patch c orig t = (Inr t, SetAnnotations (merge_annotations (GetAnnotations orig) (GetAnnotations t) (GetAnnotations c)) c)"

definition one_kube :: "kobject kube" where
  "one_kube = \<lparr>ka_get_deployment = (\<lambda>c ns n. case c of KDeployment d \<Rightarrow> Inr d | _ \<Rightarrow> Inl ErrNotFound),
     ka_get_statefulset = (\<lambda>c ns n. Inl ErrNotFound),
     ka_get_replicaset = (\<lambda>c ns n. Inr \<lparr>rs_namespace = ns, rs_name = n,
       rs_controller = Some \<lparr>or_kind = ''Deployment'', or_name = ''llm''\<rparr>\<rparr>),
     ka_get_unstructured = (\<lambda>c g ns n. Inl ErrNotFound),
     ka_list_unstructured = (\<lambda>c g ns. Inr []), ka_list_pods = (\<lambda>c. Inr [demo_pod]),
     ka_list_pods_labelled = (\<lambda>c ns k v. Inr []), ka_patch = merge_patch,
     NestedInt64 = NestedInt64 demo_kube, NestedString = NestedString demo_kube,
     NestedSlice = NestedSlice demo_kube, NestedMap = NestedMap demo_kube,
     ParseQuantity = ParseQuantity demo_kube, k_oor64 = (\<lambda>_. 0)\<rparr>"

lemma merge_patch_foreign:
  assumes "k \<notin> set cost_keys" and "cost_only orig t"
  shows "fmlookup (GetAnnotations (snd (merge_patch c orig t))) k = fmlookup (GetAnnotations c) k"
proof -
  have "fmlookup (GetAnnotations orig) k = fmlookup (GetAnnotations t) k"
    using assms by (auto simp: cost_only_def)
  then show ?thesis by (simp add: merge_patch_def)
qed

theorem run_ticks_cost_writes_only_witness:
  "fmlookup (GetAnnotations (run_ticks one_kube Registry
      [\<lparr>ti_api = (\<lambda>_. Inr (PScalar (f64_of_int 2))), ti_now = (\<lambda>_. LastUpdatedAt demo_result),
        ti_owners_now = LastUpdatedAt demo_result\<rparr>] demo_target)) ''owner'' = Some ''me''"
proof (rule run_ticks_cost_writes_only)
  show "fmlookup (GetAnnotations (snd (ka_patch one_kube c orig t))) ''owner'' = Some ''me''"
    if "fmlookup (GetAnnotations c) ''owner'' = Some ''me''" "cost_only orig t" for c orig t
    using that merge_patch_foreign [of "''owner''" orig t c]
    by (simp add: one_kube_def cost_keys_def ann_defs)
  show "fmlookup (GetAnnotations demo_target) ''owner'' = Some ''me''"
    by (simp add: demo_target_def GetAnnotations_def ann_defs)
qed

text \<open>Every pod has an adapter, the first of the registry that detects it: KServe, the trainer, Ray
  Serve and BentoML in this order, and the generic owner walk only for pods none of them claims.\<close>

lemma choose_adapter_registry:
  "choose_adapter Registry p = Some
    (if KServe_Detect p then KServe else if KubeflowTrainer_Detect p then KubeflowTrainer
     else if RayServe_Detect p then RayServe else if BentoML_Detect p then BentoML else Generic)"
  by (simp add: choose_adapter_def Registry_def Detect_def)

end
