(* ===== verification/Deploy.thy ===== *)
theory Deploy
  imports CostTable
begin

text \<open>
  Names and objects of a deployment: \<^verbatim>\<open>internal/deploy/names.go\<close>, \<^verbatim>\<open>strategy.go\<close> and the
  \<^verbatim>\<open>Build\<close> method of \<^verbatim>\<open>generic.go\<close>.

  \<open>ModelSlug\<close> turns a model reference into a resource name. Of the Unicode lower-case mapping only
  the part that yields an ASCII letter matters (\<open>lower_to_ascii\<close>), because every other character
  outside \<^verbatim>\<open>[a-z0-9-]\<close> is replaced.
\<close>

section \<open>Slugs\<close>

definition slug_char :: "char \<Rightarrow> bool" where
  "slug_char c \<longleftrightarrow> CHR ''a'' \<le> c \<and> c \<le> CHR ''z'' \<or> is_digit c \<or> c = CHR ''-''"

text \<open>The regular expression \<^verbatim>\<open>[^a-z0-9-]+\<close> replaced by one hyphen per match.\<close>

function sanitize :: "string \<Rightarrow> string" where
  "sanitize [] = []"
| "sanitize (c # s) = (if slug_char c then c # sanitize s
     else CHR ''-'' # sanitize (dropWhile (\<lambda>c. \<not> slug_char c) s))"
  by pat_completeness auto
termination
  by (relation "measure length") (auto simp: le_imp_less_Suc length_dropWhile_le)

definition ModelSlug :: "string \<Rightarrow> string" where
  "ModelSlug model =
    (let s1 = lower_to_ascii (TrimSpace model);
         s2 = replace_char CHR ''/'' CHR ''-'' s1;
         s3 = sanitize s2;
         s4 = trim_both CHR ''-'' s3;
         s5 = (if s4 = '''' then ''model'' else s4)
     in if 63 < length s5 then trim_right CHR ''-'' (take 63 s5) else s5)"

section \<open>Options and objects\<close>

record deploy_options =
  do_model :: string
  do_gpu :: string
  do_namespace :: string
  do_team :: string
  do_replicas :: int
  do_image :: string
  do_dryRun :: bool

datatype deploy_error = ModelRequired | ReplicasTooSmall

definition validateDeployOptions :: "deploy_options \<Rightarrow> deploy_error option" where
  "validateDeployOptions opts =
     (if TrimSpace (do_model opts) = '''' then Some ModelRequired
      else if do_replicas opts < 1 then Some ReplicasTooSmall else None)"

record probe =
  pb_path :: string
  pb_port :: string
  pb_initialDelay :: int
  pb_period :: int

record built_deployment =
  bd_name :: string
  bd_namespace :: string
  bd_labels :: smap
  bd_replicas :: int
  bd_selector :: smap
  bd_template_labels :: smap
  bd_container_name :: string
  bd_image :: string
  bd_args :: "string list"
  bd_port :: "string \<times> int"
  bd_container :: container
  bd_readiness :: probe
  bd_liveness :: probe
  bd_nodeSelector :: smap

record built_service =
  bs_name :: string
  bs_namespace :: string
  bs_labels :: smap
  bs_selector :: smap
  bs_port :: "string \<times> int \<times> string"
  bs_type :: string

definition LabelModel :: string where
  "LabelModel = ''kubefisher.io/model''"

definition LabelTeam :: string where
  "LabelTeam = ''kubefisher.io/team''"

definition LabelWorkloadType :: string where
  "LabelWorkloadType = ''kubefisher.io/workload-type''"

definition one_gpu :: resource_list where
  "one_gpu = fmupd ''nvidia.com/gpu'' \<lparr>quantity_value = 1, quantity_sign = 1\<rparr> fmempty"

definition Generic_Build :: "deploy_options \<Rightarrow> deploy_error + built_deployment \<times> built_service" where
  "Generic_Build opts = (case validateDeployOptions opts of Some err \<Rightarrow> Inl err
   | None \<Rightarrow>
     let name = ModelSlug (do_model opts);
         image = (if do_image opts = '''' then ''vllm/vllm-openai:latest'' else do_image opts);
         replicas = (if do_replicas opts < 1 then 1 else do_replicas opts);
         team = (if do_team opts = '''' then ''default'' else do_team opts);
         labels = fmap_of_list [(''app.kubernetes.io/name'', name), (AnnPlatform, ''vllm''),
           (LabelModel, do_model opts), (LabelTeam, team), (LabelWorkloadType, ''inference'')];
         selector = fmupd ''app.kubernetes.io/name'' name fmempty
     in Inr (\<lparr>bd_name = name, bd_namespace = do_namespace opts, bd_labels = labels, bd_replicas = replicas,
          bd_selector = selector, bd_template_labels = labels, bd_container_name = ''vllm'', bd_image = image,
          bd_args = [''python3'', ''-m'', ''vllm.entrypoints.openai.api_server'', ''--host'', ''0.0.0.0'',
            ''--port'', ''8000'', ''--model'', do_model opts],
          bd_port = (''http'', 8000), bd_container = \<lparr>c_limits = one_gpu, c_requests = one_gpu\<rparr>,
          bd_readiness = \<lparr>pb_path = ''/health'', pb_port = ''http'', pb_initialDelay = 30, pb_period = 10\<rparr>,
          bd_liveness = \<lparr>pb_path = ''/health'', pb_port = ''http'', pb_initialDelay = 60, pb_period = 20\<rparr>,
          bd_nodeSelector = (if do_gpu opts \<noteq> '''' then fmupd ''accelerator'' (do_gpu opts) fmempty else fmempty)\<rparr>,
        \<lparr>bs_name = name, bs_namespace = do_namespace opts, bs_labels = labels, bs_selector = selector,
          bs_port = (''http'', 8000, ''http''), bs_type = ''ClusterIP''\<rparr>))"

section \<open>Slugs are resource names\<close>

text \<open>The Kubernetes rule for object names that are DNS labels.\<close>

definition dns_label :: "string \<Rightarrow> bool" where
  "dns_label s \<longleftrightarrow> s \<noteq> [] \<and> length s \<le> 63 \<and> list_all slug_char s \<and> hd s \<noteq> CHR ''-'' \<and> last s \<noteq> CHR ''-''"

lemma sanitize_chars: "c \<in> set (sanitize s) \<Longrightarrow> slug_char c"
  by (induction s rule: sanitize.induct) (auto simp: slug_char_def split: if_splits)

lemma trim_right_subset: "set (trim_right c s) \<subseteq> set s"
  by (metis set_append sup_ge1 trim_right_decomp)

lemma trim_right_last: "trim_right c s \<noteq> [] \<Longrightarrow> last (trim_right c s) \<noteq> c"
  by (induction s rule: rev_induct) (auto split: if_splits)

lemma trim_right_hd: "trim_right c s \<noteq> [] \<Longrightarrow> hd (trim_right c s) = hd s"
  by (metis hd_append2 trim_right_decomp)

lemma trim_right_Nil_iff: "trim_right c s = [] \<longleftrightarrow> set s \<subseteq> {c}"
  by (induction s rule: rev_induct) auto

lemma trim_left_hd: "trim_left c s \<noteq> [] \<Longrightarrow> hd (trim_left c s) \<noteq> c"
  using hd_dropWhile [of "\<lambda>x. x = c" s] by (simp add: trim_left_def del: dropWhile_eq_Nil_conv)

lemma trim_both_props:
  assumes "trim_both c s \<noteq> []"
  shows "hd (trim_both c s) \<noteq> c" "last (trim_both c s) \<noteq> c" "set (trim_both c s) \<subseteq> set s"
proof -
  have ne: "trim_left c s \<noteq> []" using assms by (auto simp: trim_both_def)
  show "hd (trim_both c s) \<noteq> c"
    using assms trim_left_hd [OF ne] by (simp add: trim_both_def trim_right_hd)
  show "last (trim_both c s) \<noteq> c" using assms by (simp add: trim_both_def trim_right_last)
  show "set (trim_both c s) \<subseteq> set s"
    using trim_right_subset [of c "trim_left c s"] by (auto simp: trim_both_def trim_left_def dest: set_dropWhileD)
qed

lemma slug_is_dns_label: "dns_label (ModelSlug model)"
proof -
  define s3 where "s3 = sanitize (replace_char CHR ''/'' CHR ''-'' (lower_to_ascii (TrimSpace model)))"
  define s4 where "s4 = trim_both CHR ''-'' s3"
  define s5 where "s5 = (if s4 = '''' then ''model'' else s4)"
  have slug: "ModelSlug model = (if 63 < length s5 then trim_right CHR ''-'' (take 63 s5) else s5)"
    by (simp add: ModelSlug_def s5_def s4_def s3_def Let_def)
  have "s5 \<noteq> [] \<and> hd s5 \<noteq> CHR ''-'' \<and> last s5 \<noteq> CHR ''-'' \<and> (\<forall>c \<in> set s5. slug_char c)"
  proof (cases "s4 = ''''")
    case True
    then show ?thesis
      by (simp add: s5_def slug_char_def less_eq_char_def)
  next
    case False
    have "slug_char c" if "c \<in> set s3" for c using that by (auto simp: s3_def dest: sanitize_chars)
    with False trim_both_props [of "CHR ''-''" s3, folded s4_def]
    show ?thesis by (auto simp: s5_def)
  qed
  then have s5: "s5 \<noteq> []" "hd s5 \<noteq> CHR ''-''" "last s5 \<noteq> CHR ''-''" "\<And>c. c \<in> set s5 \<Longrightarrow> slug_char c"
    by auto
  show ?thesis
  proof (cases "63 < length s5")
    case True
    let ?t = "take 63 s5"
    have "hd s5 \<in> set ?t" using s5(1) by (cases s5) auto
    then have ne: "trim_right CHR ''-'' ?t \<noteq> []" using s5(2) by (auto simp: trim_right_Nil_iff)
    have "length (trim_right CHR ''-'' ?t) \<le> 63"
      using trim_right_decomp [of ?t "CHR ''-''"] by (metis le_add1 length_append length_take min.bounded_iff order_trans)
    moreover have "slug_char c" if "c \<in> set (trim_right CHR ''-'' ?t)" for c
      using that trim_right_subset [of "CHR ''-''" ?t] s5(4) by (meson in_set_takeD subsetD)
    moreover have "hd ?t = hd s5" using s5(1) by (cases s5) auto
    ultimately show ?thesis
      using True ne s5(2) trim_right_hd [OF ne] trim_right_last [OF ne]
      by (simp add: slug dns_label_def list_all_iff)
  qed (use s5 in \<open>simp add: slug dns_label_def list_all_iff\<close>)
qed

text \<open>C37 A model slug is always a valid DNS label, whatever the model reference: non-empty, at most 63
  characters from a-z, 0-9 and the hyphen, with no hyphen at either end.\<close>

theorem ModelSlug_dns_label: "dns_label (ModelSlug model)"
  by (rule slug_is_dns_label)

section \<open>Labels\<close>

text \<open>
  The Kubernetes rule for label values: empty, or at most 63 letters, digits, hyphens,
  underscores and dots, beginning and ending with a letter or digit.
\<close>

definition alnum :: "char \<Rightarrow> bool" where
  "alnum c \<longleftrightarrow> is_digit c \<or> (let l = lower_char c in CHR ''a'' \<le> l \<and> l \<le> CHR ''z'')"

definition valid_label_value :: "string \<Rightarrow> bool" where
  "valid_label_value s \<longleftrightarrow> s = [] \<or> (length s \<le> 63 \<and> alnum (hd s) \<and> alnum (last s)
     \<and> list_all (\<lambda>c. alnum c \<or> c = CHR ''-'' \<or> c = CHR ''_'' \<or> c = CHR ''.'') s)"

text \<open>Every model reference with an organisation part makes an object the API server refuses: the
  model label of the Deployment, its pod template and the Service is the reference itself, slash
  included, which is no valid label value.\<close>

theorem deploy_model_label_invalid:
  assumes "Generic_Build opts = Inr (dep, svc)" and "CHR ''/'' \<in> set (do_model opts)"
  shows "\<not> valid_label_value (mget (bd_labels dep) LabelModel)
    \<and> \<not> valid_label_value (mget (bd_template_labels dep) LabelModel)
    \<and> \<not> valid_label_value (mget (bs_labels svc) LabelModel)
    \<and> dns_label (bd_name dep)"
proof -
  have "\<not> alnum CHR ''/''" by (simp add: alnum_def is_digit_def less_eq_char_def lower_char_def)
  then have "\<not> valid_label_value (do_model opts)"
    using assms(2) by (auto simp: valid_label_value_def list_all_iff)
  moreover have "mget (bd_labels dep) LabelModel = do_model opts" "bd_template_labels dep = bd_labels dep"
    "bs_labels svc = bd_labels dep" "bd_name dep = ModelSlug (do_model opts)"
    using assms(1) by (auto simp: Generic_Build_def Let_def mget_def LabelModel_def LabelTeam_def
        LabelWorkloadType_def AnnPlatform_def fmlookup_of_list split: option.splits)
  ultimately show ?thesis by (simp add: slug_is_dns_label)
qed

definition demo_options :: deploy_options where
  "demo_options = \<lparr>do_model = ''org/m'', do_gpu = ''a10g'', do_namespace = ''ml'', do_team = '''', do_replicas = 1,
     do_image = '''', do_dryRun = False\<rparr>"

theorem deploy_model_label_invalid_witness:
  "case Generic_Build demo_options of Inr (dep, svc) \<Rightarrow> \<not> valid_label_value (mget (bs_labels svc) LabelModel)
     | Inl _ \<Rightarrow> False"
proof -
  have "validateDeployOptions demo_options = None"
    by (simp add: validateDeployOptions_def demo_options_def TrimSpace_graphic graphic_def less_eq_char_def)
  then obtain dep svc where b: "Generic_Build demo_options = Inr (dep, svc)"
    by (simp add: Generic_Build_def Let_def)
  moreover have "CHR ''/'' \<in> set (do_model demo_options)" by (simp add: demo_options_def)
  ultimately show ?thesis using deploy_model_label_invalid [OF b] by simp
qed

end
