(* ===== verification/Workload.thy ===== *)
theory Workload
  imports CostCollect
begin

text \<open>
  Status of one workload, \<^verbatim>\<open>internal/workload\<close>: lookup by name across the platforms' resources and
  the typed kinds, the status shown, its endpoint, and the pods behind it.

  The answers of the API server are functions in the record \<open>cluster_view\<close>.
\<close>

section \<open>Objects and answers\<close>

record live_workload =
  lw_namespace :: string
  lw_name :: string
  lw_labels :: smap
  lw_annotations :: smap
  lw_template_labels :: smap
  lw_specReplicas :: "int option"
  lw_availableReplicas :: int
  lw_readyReplicas :: int
  lw_matchLabels :: "smap option"

record cluster_view =
  cv_dynamic :: "(gvr \<Rightarrow> string \<Rightarrow> string \<Rightarrow> kube_error + unstr) option"
  cv_deployment :: "string \<Rightarrow> string \<Rightarrow> kube_error + live_workload"
  cv_statefulset :: "string \<Rightarrow> string \<Rightarrow> kube_error + live_workload"
  cv_service_ports :: "string \<Rightarrow> string \<Rightarrow> kube_error + int list"
  cv_pods :: "string \<Rightarrow> smap \<Rightarrow> string + pod list"

record workload_status =
  ws_name :: string
  ws_namespace :: string
  ws_kind :: string
  ws_phase :: string
  ws_endpoint :: string
  ws_replicas :: string
  ws_costPerHour :: string
  ws_costPerToken :: string
  ws_workloadType :: string
  ws_platform :: string
  ws_lastUpdated :: string

section \<open>Formats\<close>

definition dashIfEmpty :: "string \<Rightarrow> string" where
  "dashIfEmpty s = (if TrimSpace s = '''' then dash else s)"

definition cost_text_per_hour :: "string \<Rightarrow> string" where
  "cost_text_per_hour v = (if v = '''' then dash
     else case ParseFloat (TrimSpace v) of Some f \<Rightarrow> ''$'' @ FormatFixed 2 f @ ''/hr'' | None \<Rightarrow> v)"

definition cost_text_per_token :: "string \<Rightarrow> string" where
  "cost_text_per_token v = (if v = '''' then dash
     else case ParseFloat (TrimSpace v) of Some f \<Rightarrow> formatCostPerToken_plain f | None \<Rightarrow> v)"

definition populateCostFields :: "smap \<Rightarrow> workload_status \<Rightarrow> workload_status" where
  "populateCostFields anns st = st\<lparr>ws_costPerHour := cost_text_per_hour (mget anns AnnCostPerHour),
     ws_costPerToken := cost_text_per_token (mget anns AnnCostPerToken),
     ws_lastUpdated := dashIfEmpty (mget anns AnnLastUpdated)\<rparr>"

section \<open>Statuses\<close>

definition deploymentPhase :: "int \<Rightarrow> int \<Rightarrow> string" where
  "deploymentPhase ready want = (if want = 0 then ''ScaledToZero'' else if want \<le> ready then ''Available''
     else if 0 < ready then ''Progressing'' else ''Unavailable'')"

definition readyConditionTrue :: "lib \<Rightarrow> amap \<Rightarrow> bool" where
  "readyConditionTrue L obj = (case found (l_Slice L obj [''status'', ''conditions'']) of None \<Rightarrow> False
   | Some conds \<Rightarrow> list_ex (\<lambda>c. case c of
       AMap m \<Rightarrow> EqualFold (as_string (fmlookup m ''type'')) ''Ready'' \<and> EqualFold (as_string (fmlookup m ''status'')) ''True''
     | _ \<Rightarrow> False) conds)"

definition phaseFromUnstructured :: "lib \<Rightarrow> amap \<Rightarrow> string" where
  "phaseFromUnstructured L obj = (if readyConditionTrue L obj then ''Ready''
     else case found (l_String L obj [''status'', ''phase'']) of
       Some ph \<Rightarrow> if ph \<noteq> '''' then ph else ''Unknown'' | None \<Rightarrow> ''Unknown'')"

definition endpointFromUnstructured :: "lib \<Rightarrow> amap \<Rightarrow> string" where
  "endpointFromUnstructured L obj = (case found (l_String L obj [''status'', ''url'']) of
     Some url \<Rightarrow> url | None \<Rightarrow> '''')"

definition replicasFromUnstructuredStatus :: "lib \<Rightarrow> amap \<Rightarrow> string" where
  "replicasFromUnstructuredStatus L obj = (case found (l_Int64 L obj [''status'', ''replicas'']) of
     Some r \<Rightarrow> FormatInt (case found (l_Int64 L obj [''status'', ''readyReplicas'']) of Some n \<Rightarrow> n | None \<Rightarrow> 0)
       @ ''/'' @ FormatInt r
   | None \<Rightarrow> dash)"

definition mergeMaps :: "smap list \<Rightarrow> smap" where
  "mergeMaps parts = fold (\<lambda>m acc. acc ++\<^sub>f m) parts fmempty"

definition statusFromUnstructured :: "lib \<Rightarrow> unstr \<Rightarrow> workload_status" where
  "statusFromUnstructured L u =
    (let kind = gvk_kind (u_gvk u);
         templateLabels = (case templateLabelsFromUnstructured L (u_object u) of Some m \<Rightarrow> m | None \<Rightarrow> fmempty);
         (platform, workloadType) = DetectPlatform (mergeMaps [GetLabels L u, templateLabels]) (u_annotations u) kind
     in populateCostFields (u_annotations u)
       \<lparr>ws_name = u_name u, ws_namespace = u_namespace u, ws_kind = kind,
        ws_phase = phaseFromUnstructured L (u_object u),
        ws_endpoint = dashIfEmpty (endpointFromUnstructured L (u_object u)),
        ws_replicas = replicasFromUnstructuredStatus L (u_object u), ws_costPerHour = '''', ws_costPerToken = '''',
        ws_workloadType = workloadType, ws_platform = platform, ws_lastUpdated = ''''\<rparr>)"

definition typed_status :: "string \<Rightarrow> int \<Rightarrow> live_workload \<Rightarrow> workload_status" where
  "typed_status kind have_replicas d =
    (let want = (case lw_specReplicas d of Some n \<Rightarrow> n | None \<Rightarrow> 1);
         (platform, workloadType) =
           DetectPlatform (mergeMaps [lw_labels d, lw_template_labels d]) (lw_annotations d) kind
     in populateCostFields (lw_annotations d)
       \<lparr>ws_name = lw_name d, ws_namespace = lw_namespace d, ws_kind = kind,
        ws_phase = deploymentPhase have_replicas want, ws_endpoint = dash,
        ws_replicas = FormatInt have_replicas @ ''/'' @ FormatInt want, ws_costPerHour = '''', ws_costPerToken = '''',
        ws_workloadType = workloadType, ws_platform = platform, ws_lastUpdated = ''''\<rparr>)"

definition statusFromDeployment :: "live_workload \<Rightarrow> workload_status" where
  "statusFromDeployment d = typed_status ''Deployment'' (lw_availableReplicas d) d"

definition statusFromStatefulSet :: "live_workload \<Rightarrow> workload_status" where
  "statusFromStatefulSet d = typed_status ''StatefulSet'' (lw_readyReplicas d) d"

section \<open>Lookup\<close>

definition trainingKindForResource :: "string \<Rightarrow> string" where
  "trainingKindForResource r = (if r = ''trainjobs'' then ''TrainJob'' else if r = ''pytorchjobs'' then ''PyTorchJob''
     else if r = ''tfjobs'' then ''TFJob'' else if r = ''xgboostjobs'' then ''XGBoostJob''
     else if r = ''mpijobs'' then ''MPIJob'' else if r = ''paddlejobs'' then ''PaddleJob'' else ''TrainJob'')"

definition rayKindForResource :: "string \<Rightarrow> string" where
  "rayKindForResource r = (if r = ''rayclusters'' then ''RayCluster''
     else if r = ''rayservices'' then ''RayService'' else ''RayJob'')"

definition getUnstructured ::
  "lib \<Rightarrow> (gvr \<Rightarrow> string \<Rightarrow> string \<Rightarrow> kube_error + unstr) \<Rightarrow> string \<Rightarrow> string \<Rightarrow> gvr \<times> string
     \<Rightarrow> kube_error + workload_status" where
  "getUnstructured L get ns name gk = (case get (fst gk) ns name of Inl err \<Rightarrow> Inl err
   | Inr u \<Rightarrow> Inr (statusFromUnstructured L (if gvk_kind (u_gvk u) = ''''
       then u\<lparr>u_gvk := (u_gvk u)\<lparr>gvk_kind := snd gk\<rparr>\<rparr> else u)))"

text \<open>The four loops over the catalog, as one list of resources with the kind each one assumes.\<close>

definition lookup_order :: "crd_catalog \<Rightarrow> (gvr \<times> string) list" where
  "lookup_order cat = map (\<lambda>g. (g, ''InferenceService'')) (cat_kserve cat)
     @ map (\<lambda>g. (g, ''BentoDeployment'')) (cat_bento cat)
     @ map (\<lambda>g. (g, trainingKindForResource (gvr_resource g))) (cat_training cat)
     @ map (\<lambda>g. (g, rayKindForResource (gvr_resource g))) (cat_ray cat)"

text \<open>The discovery of this package repeats the one of \<^verbatim>\<open>internal/cost\<close> line by line.\<close>

definition discoverResources :: "lib \<Rightarrow> disc_answer \<Rightarrow> disc_answer \<Rightarrow> string + crd_catalog" where
  "discoverResources = discoverCRDs"

datatype find_error = Discovery string | ApiFailure kube_error | GetDeployment kube_error
  | GetStatefulSet kube_error | ResourceNotFound string string

fun find_dynamic ::
  "lib \<Rightarrow> (gvr \<Rightarrow> string \<Rightarrow> string \<Rightarrow> kube_error + unstr) \<Rightarrow> string \<Rightarrow> string \<Rightarrow> (gvr \<times> string) list
     \<Rightarrow> (kube_error + workload_status) option" where
  "find_dynamic L get ns name [] = None"
| "find_dynamic L get ns name (g # gs) = (case getUnstructured L get ns name g of
     Inr st \<Rightarrow> Some (Inr st)
   | Inl ErrNotFound \<Rightarrow> find_dynamic L get ns name gs
   | Inl err \<Rightarrow> Some (Inl err))"

definition find_typed :: "cluster_view \<Rightarrow> string \<Rightarrow> string \<Rightarrow> find_error + workload_status" where
  "find_typed V name ns = (case cv_deployment V ns name of
     Inr dep \<Rightarrow> Inr (statusFromDeployment dep)
   | Inl (ErrOther e) \<Rightarrow> Inl (GetDeployment (ErrOther e))
   | Inl ErrNotFound \<Rightarrow> (case cv_statefulset V ns name of
       Inr sts \<Rightarrow> Inr (statusFromStatefulSet sts)
     | Inl (ErrOther e) \<Rightarrow> Inl (GetStatefulSet (ErrOther e))
     | Inl ErrNotFound \<Rightarrow> Inl (ResourceNotFound name ns)))"

definition FindResource ::
  "lib \<Rightarrow> disc_answer \<Rightarrow> disc_answer \<Rightarrow> cluster_view \<Rightarrow> string \<Rightarrow> string \<Rightarrow> find_error + workload_status" where
  "FindResource L d1 d2 V name ns = (case discoverResources L d1 d2 of Inl err \<Rightarrow> Inl (Discovery err)
   | Inr cat \<Rightarrow> (case Option.bind (cv_dynamic V) (\<lambda>get. find_dynamic L get ns name (lookup_order cat)) of
       Some (Inr st) \<Rightarrow> Inr st
     | Some (Inl err) \<Rightarrow> Inl (ApiFailure err)
     | None \<Rightarrow> find_typed V name ns))"

definition endpoint_url :: "string \<Rightarrow> string \<Rightarrow> int \<Rightarrow> string" where
  "endpoint_url name ns port = ''http://'' @ name @ ''.'' @ ns @ ''.svc:'' @ FormatInt port @ ''/v1/completions''"

definition ResolveDeploymentEndpoint :: "cluster_view \<Rightarrow> workload_status \<Rightarrow> workload_status" where
  "ResolveDeploymentEndpoint V st =
    (if ws_kind st \<noteq> ''Deployment'' \<and> ws_kind st \<noteq> ''StatefulSet'' then st
     else case cv_service_ports V (ws_namespace st) (ws_name st) of
       Inl _ \<Rightarrow> st\<lparr>ws_endpoint := endpoint_url (ws_name st) (ws_namespace st) 8000\<rparr>
     | Inr ports \<Rightarrow> st\<lparr>ws_endpoint := endpoint_url (ws_name st) (ws_namespace st)
         (case List.find (\<lambda>p. 0 < p) ports of Some p \<Rightarrow> p | None \<Rightarrow> 8000)\<rparr>)"

section \<open>Pods\<close>

definition one_label :: "string \<Rightarrow> string \<Rightarrow> smap" where
  "one_label k v = fmupd k v fmempty"

definition training_kinds :: "string list" where
  "training_kinds = [''TrainJob'', ''PyTorchJob'', ''TFJob'', ''XGBoostJob'', ''MPIJob'', ''PaddleJob'']"

definition typed_selector :: "kube_error + live_workload \<Rightarrow> string \<Rightarrow> kube_error + smap" where
  "typed_selector r name = (case r of Inl err \<Rightarrow> Inl err
   | Inr d \<Rightarrow> Inr (case lw_matchLabels d of
       Some m \<Rightarrow> if fmdom m \<noteq> {||} then m else one_label ''app.kubernetes.io/name'' name
     | None \<Rightarrow> one_label ''app.kubernetes.io/name'' name))"

definition podLabelSelector :: "cluster_view \<Rightarrow> workload_status \<Rightarrow> kube_error + smap" where
  "podLabelSelector V st = (let k = ws_kind st; name = ws_name st in
     if k = ''Deployment'' then typed_selector (cv_deployment V (ws_namespace st) name) name
     else if k = ''StatefulSet'' then typed_selector (cv_statefulset V (ws_namespace st) name) name
     else Inr (if k = ''InferenceService'' then one_label ''serving.kserve.io/inferenceservice'' name
       else if k = ''BentoDeployment'' then one_label ''yatai.bentoml.com/bento-deployment'' name
       else if List.member training_kinds k then one_label ''training.kubeflow.org/job-name'' name
       else if k = ''RayService'' then one_label ''ray.io/serve-deployment'' name
       else if k = ''RayJob'' then one_label ''ray.io/job-name'' name
       else if k = ''RayCluster'' then one_label ''ray.io/cluster-name'' name
       else one_label ''app.kubernetes.io/name'' name))"

datatype pods_error = Selector kube_error | NoSelector string string | ListPodsFailed string | NoPods string string

definition FindPodsForResource :: "cluster_view \<Rightarrow> workload_status \<Rightarrow> pods_error + pod list" where
  "FindPodsForResource V st = (case podLabelSelector V st of Inl err \<Rightarrow> Inl (Selector err)
   | Inr selector \<Rightarrow> if fmdom selector = {||} then Inl (NoSelector (ws_kind st) (ws_name st))
     else (case cv_pods V (ws_namespace st) selector of Inl err \<Rightarrow> Inl (ListPodsFailed err)
       | Inr pods \<Rightarrow> let out = filter (\<lambda>p. p_phase p = ''Running'' \<or> p_phase p = ''Pending'') pods
           in if out = [] then Inl (NoPods (ws_kind st) (ws_name st)) else Inr out))"

section \<open>What a lookup finds\<close>

lemma populate_name [simp]:
  "ws_name (populateCostFields a st) = ws_name st" "ws_namespace (populateCostFields a st) = ws_namespace st"
  "ws_kind (populateCostFields a st) = ws_kind st"
  by (simp_all add: populateCostFields_def)

lemma status_name [simp]:
  "ws_name (statusFromUnstructured L u) = u_name u" "ws_namespace (statusFromUnstructured L u) = u_namespace u"
  "ws_name (typed_status k n d) = lw_name d" "ws_namespace (typed_status k n d) = lw_namespace d"
  by (simp_all add: statusFromUnstructured_def typed_status_def Let_def split: prod.splits)

lemma find_dynamic_None:
  "find_dynamic L get ns name gs = None \<longleftrightarrow> (\<forall>g \<in> set gs. get (fst g) ns name = Inl ErrNotFound)"
  by (induction gs) (auto simp: getUnstructured_def split: sum.splits kube_error.splits)

lemma find_dynamic_found:
  assumes "find_dynamic L get ns name gs = Some (Inr st)"
  shows "\<exists>g u. g \<in> set gs \<and> get (fst g) ns name = Inr u \<and> ws_name st = u_name u \<and> ws_namespace st = u_namespace u"
  using assms
proof (induction gs)
  case (Cons g gs)
  show ?case
  proof (cases "get (fst g) ns name")
    case (Inl err)
    then have "find_dynamic L get ns name gs = Some (Inr st)"
      using Cons.prems by (cases err) (simp_all add: getUnstructured_def)
    with Cons.IH obtain g' u where "g' \<in> set gs" "get (fst g') ns name = Inr u"
      "ws_name st = u_name u" "ws_namespace st = u_namespace u" by blast
    then show ?thesis by (intro exI [of _ g'] exI [of _ u]) simp
  next
    case (Inr u)
    then show ?thesis
      using Cons.prems by (intro exI [of _ g] exI [of _ u]) (auto simp: getUnstructured_def)
  qed
qed simp

text \<open>The API server answers a request for an object with an object of that name and namespace.\<close>

definition answers_named :: "cluster_view \<Rightarrow> bool" where
  "answers_named V \<longleftrightarrow>
     (\<forall>get g ns n u. cv_dynamic V = Some get \<and> get g ns n = Inr u \<longrightarrow> u_name u = n \<and> u_namespace u = ns)
   \<and> (\<forall>ns n d. cv_deployment V ns n = Inr d \<or> cv_statefulset V ns n = Inr d \<longrightarrow> lw_name d = n \<and> lw_namespace d = ns)"

text \<open>C25 A lookup is sound and complete: a status it returns is that of an object with the asked name
  and namespace, and it reports that nothing was found exactly when discovery worked and the API
  server has no such Deployment, StatefulSet or object of a discovered platform resource.\<close>

theorem FindResource_sound_complete:
  assumes "answers_named V" and "discoverResources L d1 d2 = Inr cat"
  shows "(\<forall>st. FindResource L d1 d2 V name ns = Inr st \<longrightarrow> ws_name st = name \<and> ws_namespace st = ns)
    \<and> (FindResource L d1 d2 V name ns = Inl (ResourceNotFound name ns) \<longleftrightarrow>
        cv_deployment V ns name = Inl ErrNotFound \<and> cv_statefulset V ns name = Inl ErrNotFound
        \<and> (\<forall>get. cv_dynamic V = Some get \<longrightarrow>
            (\<forall>g \<in> set (catalog_gvrs cat). get g ns name = Inl ErrNotFound)))"
proof -
  have typed: "find_typed V name ns = Inr st \<Longrightarrow> ws_name st = name \<and> ws_namespace st = ns" for st
    using assms(1) by (auto simp: find_typed_def answers_named_def statusFromDeployment_def
        statusFromStatefulSet_def split: sum.splits kube_error.splits)
  have none: "find_typed V name ns = Inl (ResourceNotFound name ns) \<longleftrightarrow>
      cv_deployment V ns name = Inl ErrNotFound \<and> cv_statefulset V ns name = Inl ErrNotFound"
    by (auto simp: find_typed_def split: sum.splits kube_error.splits)
  have gvrs: "fst ` set (lookup_order cat) = set (catalog_gvrs cat)"
    by (auto simp: lookup_order_def catalog_gvrs_def image_Un image_image)
  show ?thesis
  proof (cases "cv_dynamic V")
    case None
    then show ?thesis by (auto simp: FindResource_def assms(2) typed none)
  next
    case (Some get)
    show ?thesis
    proof (cases "find_dynamic L get ns name (lookup_order cat)")
      case None
      then have "\<forall>g \<in> set (catalog_gvrs cat). get g ns name = Inl ErrNotFound"
        by (simp add: find_dynamic_None flip: gvrs)
      with None Some show ?thesis by (auto simp: FindResource_def assms(2) typed none)
    next
      case fd: (Some r)
      then have "\<not> (\<forall>g \<in> set (catalog_gvrs cat). get g ns name = Inl ErrNotFound)"
        using find_dynamic_None [of L get ns name "lookup_order cat"] by (simp flip: gvrs)
      moreover have "ws_name st = name \<and> ws_namespace st = ns" if "r = Inr st" for st
        using find_dynamic_found [of L get ns name "lookup_order cat" st] fd that assms(1) Some
        by (auto simp: answers_named_def)
      ultimately show ?thesis using fd Some
        by (cases r) (auto simp: FindResource_def assms(2))
    qed
  qed
qed

definition demo_live :: "string \<Rightarrow> string \<Rightarrow> live_workload" where
  "demo_live ns n = \<lparr>lw_namespace = ns, lw_name = n, lw_labels = fmempty, lw_annotations = fmempty,
     lw_template_labels = fmempty, lw_specReplicas = Some 2, lw_availableReplicas = 1, lw_readyReplicas = 1,
     lw_matchLabels = None\<rparr>"

definition matching :: "smap \<Rightarrow> pod \<Rightarrow> bool" where
  "matching selector p \<longleftrightarrow> fmpred (\<lambda>k v. fmlookup (p_labels p) k = Some v) selector"

text \<open>A cluster with one Deployment per namespace and the given pods, listed by their labels.\<close>

definition view_of :: "pod list \<Rightarrow> cluster_view" where
  "view_of pods = \<lparr>cv_dynamic = None,
     cv_deployment = (\<lambda>ns n. if n = ''llm'' then Inr (demo_live ns n) else Inl ErrNotFound),
     cv_statefulset = (\<lambda>ns n. Inl ErrNotFound), cv_service_ports = (\<lambda>ns n. Inl ErrNotFound),
     cv_pods = (\<lambda>ns selector. Inr (filter (\<lambda>p. p_namespace p = ns \<and> matching selector p) pods))\<rparr>"

lemma demo_discovery: "discoverResources L \<lparr>da_lists = [], da_error = None\<rparr> d2 = Inr empty_catalog"
  by (simp add: discoverResources_def discoverCRDs_def catalog_of_def)

theorem FindResource_sound_complete_witness:
  "FindResource std_lib \<lparr>da_lists = [], da_error = None\<rparr> \<lparr>da_lists = [], da_error = None\<rparr> (view_of []) ''gone'' ''ml''
    = Inl (ResourceNotFound ''gone'' ''ml'')"
proof -
  have "answers_named (view_of [])"
    by (auto simp: answers_named_def view_of_def demo_live_def split: if_splits)
  from FindResource_sound_complete [OF this demo_discovery, of std_lib "\<lparr>da_lists = [], da_error = None\<rparr>" "''gone''" "''ml''"]
  show ?thesis by (simp add: view_of_def empty_catalog_def catalog_gvrs_def)
qed

section \<open>Costs in the status\<close>

text \<open>C38 The status shows the cost the patcher wrote: after a patch the hourly cost is that cost to two
  decimals, the token cost to eight (a dash without one), and the time is the patch's.\<close>

theorem status_shows_patched_costs:
  assumes "CostPerHour res = Some c" and "f64_ok c" and "CostPerToken res = None \<or> f64_ok (the (CostPerToken res))"
  shows "let st' = populateCostFields (updated_annotations anns res) st in
    ws_costPerHour st' = ''$'' @ FormatFixed 2 (annotated c) @ ''/hr''
    \<and> ws_costPerToken st' = (case CostPerToken res of None \<Rightarrow> dash | Some t \<Rightarrow> formatCostPerToken_plain (annotated t))
    \<and> ws_lastUpdated st' = dashIfEmpty (FormatRFC3339 (LastUpdatedAt res))"
proof -
  have ne: "formatCost x \<noteq> ''''" for x by (simp add: formatCost_def Let_def)
  have read: "ParseFloat (TrimSpace (formatCost x)) = Some (annotated x)" if "f64_ok x" for x
    using read_formatCost [OF that] by simp
  show ?thesis
    using assms ne read by (auto simp: populateCostFields_def cost_text_per_hour_def cost_text_per_token_def
        updated_get build_has build_get Let_def split: option.splits)
qed

definition demo_job_status :: workload_status where
  "demo_job_status = \<lparr>ws_name = ''ft'', ws_namespace = ''ml'', ws_kind = ''TrainJob'', ws_phase = '''', ws_endpoint = '''',
     ws_replicas = '''', ws_costPerHour = '''', ws_costPerToken = '''', ws_workloadType = '''', ws_platform = '''',
     ws_lastUpdated = ''''\<rparr>"

theorem status_shows_patched_costs_witness:
  "ws_costPerHour (populateCostFields (updated_annotations fmempty demo_result) demo_job_status)
     = ''$'' @ FormatFixed 2 (annotated (f64_of_int 2)) @ ''/hr''"
  using status_shows_patched_costs [of demo_result "f64_of_int 2" fmempty demo_job_status]
  by (simp add: demo_result_def Let_def)

section \<open>Pods of a training job\<close>

text \<open>The logs command cannot find the pods of a TrainJob: pods that the Kubeflow Trainer labels, and
  that the trainer adapter maps to the job, are not matched by the selector, which asks for the label
  of the older training operator. The pods of an InferenceService are found by the label the KServe
  adapter reads.\<close>

theorem training_pods_not_found:
  assumes "p_labels p = fmupd label name fmempty" and "name \<noteq> ''''" and "p_phase p = ''Running''"
    and "ws_name st = name" and "ws_namespace st = p_namespace p"
  shows "(label = ''trainer.kubeflow.org/trainjob-name'' \<and> ws_kind st = ''TrainJob'' \<longrightarrow>
      KubeflowTrainer_Detect p \<and> trainJobNameFromPod p = name
      \<and> FindPodsForResource (view_of [p]) st = Inl (NoPods ''TrainJob'' name))
    \<and> (label = ''serving.kserve.io/inferenceservice'' \<and> ws_kind st = ''InferenceService'' \<longrightarrow>
      KServe_Detect p \<and> inferenceServiceNameFromPod p = name \<and> FindPodsForResource (view_of [p]) st = Inr [p])"
  using assms
  by (auto simp: KubeflowTrainer_Detect_def trainJobNameFromPod_def KServe_Detect_def
      inferenceServiceNameFromPod_def labelInferenceService_def mget_def FindPodsForResource_def
      podLabelSelector_def one_label_def training_kinds_def view_of_def matching_def Let_def)

definition demo_train_pod :: pod where
  "demo_train_pod = demo_pod\<lparr>p_labels := fmupd ''trainer.kubeflow.org/trainjob-name'' ''ft'' fmempty\<rparr>"

theorem training_pods_not_found_witness:
  "FindPodsForResource (view_of [demo_train_pod]) demo_job_status = Inl (NoPods ''TrainJob'' ''ft'')"
  using training_pods_not_found [of demo_train_pod "''trainer.kubeflow.org/trainjob-name''" "''ft''" demo_job_status]
  by (simp add: demo_train_pod_def demo_pod_def demo_job_status_def)

end
