(* ===== verification/DeployRun.thy ===== *)
theory DeployRun
  imports Deploy CostCollect
begin

text \<open>
  The rest of \<^verbatim>\<open>internal/deploy\<close> and the deploy command of \<^verbatim>\<open>internal/cli/kubefisher/deploy_cmd.go\<close>:
  the KServe strategy, the choice of a strategy, readiness, polling, and the run of the command.

  The API server at one moment is a \<open>deploy_view\<close>; errors are their texts, because the poll decides by
  searching them. A poll is a function of the round: \<open>wait i\<close> is the readiness check of round \<open>i\<close>, and
  \<open>expired i\<close> says that the wait after it was ended by the context rather than by the ticker.
\<close>

section \<open>KServe objects\<close>

record built_inference_service =
  bi_apiVersion :: string
  bi_kind :: string
  bi_name :: string
  bi_namespace :: string
  bi_labels :: smap
  bi_spec :: amap

definition default_team :: string where
  "default_team = ''default''"

definition gpu_one :: aval where
  "gpu_one = AMap (fmupd ''nvidia.com/gpu'' (AString ''1'') fmempty)"

definition KServe_Build :: "deploy_options \<Rightarrow> deploy_error + built_inference_service" where
  "KServe_Build opts = (case validateDeployOptions opts of Some err \<Rightarrow> Inl err
   | None \<Rightarrow>
     let name = ModelSlug (do_model opts);
         team = (if do_team opts = '''' then default_team else do_team opts);
         labels = fmap_of_list [(AnnPlatform, ''kserve''), (LabelModel, do_model opts), (LabelTeam, team),
           (LabelWorkloadType, ''inference'')];
         model = fmap_of_list
           [(''modelFormat'', AMap (fmupd ''name'' (AString ''vllm'') fmempty)),
            (''storageUri'', AString (''hf://'' @ do_model opts)),
            (''resources'', AMap (fmap_of_list [(''requests'', gpu_one), (''limits'', gpu_one)]))]
     in Inr \<lparr>bi_apiVersion = ''serving.kserve.io/v1beta1'', bi_kind = ''InferenceService'', bi_name = name,
          bi_namespace = do_namespace opts, bi_labels = labels,
          bi_spec = fmupd ''predictor'' (AMap (fmupd ''model'' (AMap model) fmempty)) fmempty\<rparr>)"

section \<open>Readiness\<close>

record deploy_view =
  dv_deployment :: "string \<Rightarrow> string \<Rightarrow> string + int option \<times> int \<times> smap"
  dv_pods :: "string \<Rightarrow> string \<Rightarrow> string + (string \<times> string) list"
  dv_events :: "string \<Rightarrow> string \<Rightarrow> string + (string \<times> string) list"
  dv_inference :: "(string \<Rightarrow> string \<Rightarrow> string + unstr) option"

text \<open>
  A Deployment is its wanted replicas, its available replicas and its annotations; the pods are those
  with the application label, by name and phase; the events of a pod are reason and message.
\<close>

definition pod_scheduling_failure :: "deploy_view \<Rightarrow> string \<Rightarrow> string \<times> string \<Rightarrow> string option" where
  "pod_scheduling_failure V ns p = (if snd p \<noteq> ''Pending'' then None
     else case dv_events V ns (fst p) of Inl _ \<Rightarrow> None
     | Inr evs \<Rightarrow> map_option snd (List.find (\<lambda>ev. fst ev = ''FailedScheduling'') evs))"

fun first_some :: "('a \<Rightarrow> 'b option) \<Rightarrow> 'a list \<Rightarrow> 'b option" where
  "first_some f [] = None"
| "first_some f (x # xs) = (case f x of Some y \<Rightarrow> Some y | None \<Rightarrow> first_some f xs)"

definition checkSchedulingFailure :: "deploy_view \<Rightarrow> string \<Rightarrow> string \<Rightarrow> string option" where
  "checkSchedulingFailure V ns appName = (case dv_pods V ns appName of Inl _ \<Rightarrow> None
     | Inr pods \<Rightarrow> first_some (pod_scheduling_failure V ns) pods)"

definition newline :: string where
  "newline = [CHR 0x0A]"

definition Generic_WaitReady :: "deploy_view \<Rightarrow> string \<Rightarrow> string \<Rightarrow> string + string" where
  "Generic_WaitReady V ns name = (case dv_deployment V ns name of
     Inl err \<Rightarrow> Inl (''get deployment '' @ ns @ ''/'' @ name @ '': '' @ err)
   | Inr (replicas, available, anns) \<Rightarrow>
       let want = (case replicas of Some n \<Rightarrow> n | None \<Rightarrow> 1) in
       if available < want
       then (case checkSchedulingFailure V ns name of
           Some msg \<Rightarrow> Inl (''pod scheduling failed: '' @ msg @ newline @ newline
             @ ''Tip: check node labels with: kubectl get nodes --show-labels'')
         | None \<Rightarrow> Inl ''deployment not ready'')
       else Inr (''http://'' @ name @ ''.'' @ ns @ ''.svc:8000/v1/completions''))"

definition formatCostAnnotation :: "string \<Rightarrow> string" where
  "formatCostAnnotation v = (if v = '''' then dash
     else case ParseFloat v of Some f \<Rightarrow> ''$'' @ FormatFixed 2 f @ ''/hr'' | None \<Rightarrow> v)"

definition Generic_ReadCostPerHour :: "deploy_view \<Rightarrow> string \<Rightarrow> string \<Rightarrow> string" where
  "Generic_ReadCostPerHour V ns name = (case dv_deployment V ns name of Inl _ \<Rightarrow> dash
     | Inr (replicas, available, anns) \<Rightarrow> formatCostAnnotation (mget anns AnnCostPerHour))"

definition inferenceServiceReady :: "lib \<Rightarrow> amap \<Rightarrow> bool" where
  "inferenceServiceReady L obj = (case found (l_Slice L obj [''status'', ''conditions'']) of None \<Rightarrow> False
   | Some conds \<Rightarrow> list_ex (\<lambda>c. case c of
       AMap m \<Rightarrow> EqualFold (as_string (fmlookup m ''type'')) ''Ready'' \<and> EqualFold (as_string (fmlookup m ''status'')) ''True''
     | _ \<Rightarrow> False) conds)"

definition KServe_WaitReady :: "lib \<Rightarrow> deploy_view \<Rightarrow> string \<Rightarrow> string \<Rightarrow> string + string" where
  "KServe_WaitReady L V ns name = (case dv_inference V of None \<Rightarrow> Inl ''dynamic client required for KServe''
   | Some get \<Rightarrow> (case get ns name of
       Inl err \<Rightarrow> Inl (''get InferenceService '' @ ns @ ''/'' @ name @ '': '' @ err)
     | Inr u \<Rightarrow> if \<not> inferenceServiceReady L (u_object u) then Inl ''inference service not ready''
         else (case found (l_String L (u_object u) [''status'', ''url'']) of
             Some url \<Rightarrow> if url = '''' then Inl ''inference service ready but status.url is empty'' else Inr url
           | None \<Rightarrow> Inl ''inference service ready but status.url is empty'')))"

definition KServe_ReadCostPerHour :: "deploy_view \<Rightarrow> string \<Rightarrow> string \<Rightarrow> string" where
  "KServe_ReadCostPerHour V ns name = (case dv_inference V of None \<Rightarrow> dash
   | Some get \<Rightarrow> (case get ns name of Inl _ \<Rightarrow> dash
     | Inr u \<Rightarrow> formatCostAnnotation (mget (u_annotations u) AnnCostPerHour)))"

section \<open>Strategy\<close>

datatype strategy = KServeStrategy gvr | GenericStrategy

text \<open>The first resource list of the group that has the resource.\<close>

definition kserve_gvr_in :: "lib \<Rightarrow> resource_group \<Rightarrow> gvr option" where
  "kserve_gvr_in L rl = (case l_GroupVersion L (rg_groupVersion rl) of None \<Rightarrow> None
   | Some (grp, version) \<Rightarrow>
       if \<not> Contains grp ''serving.kserve.io'' then None
       else map_option (\<lambda>r. \<lparr>gvr_group = grp, gvr_version = version, gvr_resource = ar_name r\<rparr>)
         (List.find (\<lambda>r. ar_name r = ''inferenceservices'' \<and> \<not> Contains (ar_name r) ''/'') (rg_resources rl)))"

definition findKServeGVR :: "lib \<Rightarrow> disc_answer \<Rightarrow> disc_answer \<Rightarrow> gvr option" where
  "findKServeGVR L first_answer second_answer = (case da_error first_answer of
     None \<Rightarrow> first_some (kserve_gvr_in L) (da_lists first_answer)
   | Some GroupDiscoveryFailed \<Rightarrow> first_some (kserve_gvr_in L) (da_lists second_answer)
   | Some (DiscoveryError _) \<Rightarrow> None)"

definition DetectServingPlatform :: "lib \<Rightarrow> disc_answer \<Rightarrow> disc_answer \<Rightarrow> strategy" where
  "DetectServingPlatform L d1 d2 = (case findKServeGVR L d1 d2 of Some g \<Rightarrow> KServeStrategy g | None \<Rightarrow> GenericStrategy)"

definition PrimaryName :: "strategy \<Rightarrow> deploy_options \<Rightarrow> string" where
  "PrimaryName s opts = ModelSlug (do_model opts)"

definition WaitReady :: "lib \<Rightarrow> strategy \<Rightarrow> deploy_view \<Rightarrow> string \<Rightarrow> string \<Rightarrow> string + string" where
  "WaitReady L s = (case s of KServeStrategy _ \<Rightarrow> KServe_WaitReady L | GenericStrategy \<Rightarrow> Generic_WaitReady)"

definition ReadCostPerHour :: "strategy \<Rightarrow> deploy_view \<Rightarrow> string \<Rightarrow> string \<Rightarrow> string" where
  "ReadCostPerHour s = (case s of KServeStrategy _ \<Rightarrow> KServe_ReadCostPerHour | GenericStrategy \<Rightarrow> Generic_ReadCostPerHour)"

section \<open>Polling\<close>

definition isTerminalError :: "string \<Rightarrow> bool" where
  "isTerminalError msg \<longleftrightarrow> Contains msg ''pod scheduling failed'' \<or> Contains msg ''FailedScheduling''"

definition timed_out :: "string \<Rightarrow> string" where
  "timed_out ctx_err = ''timed out waiting for workload to become ready: '' @ ctx_err"

partial_function (option) PollUntilReady ::
  "(nat \<Rightarrow> string + string) \<Rightarrow> (nat \<Rightarrow> bool) \<Rightarrow> string \<Rightarrow> nat \<Rightarrow> (string + string) option" where
  "PollUntilReady wait expired ctx_err i = (case wait i of
     Inr endpoint \<Rightarrow> Some (Inr endpoint)
   | Inl err \<Rightarrow> if isTerminalError err then Some (Inl err)
       else if expired i then Some (Inl (timed_out ctx_err))
       else PollUntilReady wait expired ctx_err (Suc i))"

section \<open>The deploy command\<close>

datatype built_object = BDeployment built_deployment | BService built_service | BInference built_inference_service

datatype create_answer = Created | AlreadyExists | CreateFailed string

type_synonym 'c create_api = "'c \<Rightarrow> built_object \<Rightarrow> create_answer \<times> 'c"

definition Build :: "strategy \<Rightarrow> deploy_options \<Rightarrow> deploy_error + built_object list" where
  "Build s opts = (case s of
     KServeStrategy _ \<Rightarrow> map_sum id (\<lambda>u. [BInference u]) (KServe_Build opts)
   | GenericStrategy \<Rightarrow> map_sum id (\<lambda>(dep, svc). [BDeployment dep, BService svc]) (Generic_Build opts))"

definition IsKServeObject :: "built_object \<Rightarrow> bool" where
  "IsKServeObject ob = (case ob of
     BInference u \<Rightarrow> bi_apiVersion u = ''serving.kserve.io/v1beta1'' \<and> bi_kind u = ''InferenceService'' | _ \<Rightarrow> False)"

text \<open>An object named by kind, namespace and name in an error.\<close>

datatype run_error = BuildError deploy_error | ObjectExists string string string
  | CreateError string string string string | CreateInferenceService string | PollError string

definition object_id :: "built_object \<Rightarrow> string \<times> string \<times> string" where
  "object_id ob = (case ob of BDeployment d \<Rightarrow> (''Deployment'', bd_namespace d, bd_name d)
     | BService s \<Rightarrow> (''Service'', bs_namespace s, bs_name s) | BInference u \<Rightarrow> (bi_kind u, bi_namespace u, bi_name u))"

definition createObject :: "'c create_api \<Rightarrow> strategy \<Rightarrow> built_object \<Rightarrow> 'c \<Rightarrow> run_error option \<times> 'c" where
  "createObject api s ob c = (case api c ob of (answer, c') \<Rightarrow>
     (if IsKServeObject ob \<and> s \<noteq> GenericStrategy
      then (case answer of CreateFailed err \<Rightarrow> Some (CreateInferenceService err) | _ \<Rightarrow> None)
      else (case object_id ob of (kind, ns, name) \<Rightarrow> (case answer of Created \<Rightarrow> None
          | AlreadyExists \<Rightarrow> Some (ObjectExists kind ns name)
          | CreateFailed err \<Rightarrow> Some (CreateError kind ns name err))), c'))"

fun create_all :: "'c create_api \<Rightarrow> strategy \<Rightarrow> built_object list \<Rightarrow> 'c \<Rightarrow> run_error option \<times> 'c" where
  "create_all api s [] c = (None, c)"
| "create_all api s (ob # obs) c = (case createObject api s ob c of
     (Some err, c') \<Rightarrow> (Some err, c') | (None, c') \<Rightarrow> create_all api s obs c')"

datatype deploy_outcome = Printed "built_object list" | Ready string string

text \<open>
  The command after the flags are read: \<open>watch\<close> is the cluster the poll sees in each round, from the
  state the creations left; \<open>None\<close> means that the poll never ends.
\<close>

definition runDeploy ::
  "lib \<Rightarrow> 'c create_api \<Rightarrow> ('c \<Rightarrow> nat \<Rightarrow> deploy_view) \<Rightarrow> (nat \<Rightarrow> bool) \<Rightarrow> string \<Rightarrow> ('c \<Rightarrow> deploy_view)
     \<Rightarrow> disc_answer \<Rightarrow> disc_answer \<Rightarrow> deploy_options \<Rightarrow> 'c \<Rightarrow> (run_error + deploy_outcome) option \<times> 'c" where
  "runDeploy L api watch expired ctx_err after_poll d1 d2 opts c =
    (let s = DetectServingPlatform L d1 d2 in
     case Build s opts of Inl err \<Rightarrow> (Some (Inl (BuildError err)), c)
     | Inr objects \<Rightarrow>
         if do_dryRun opts then (Some (Inr (Printed objects)), c)
         else (case create_all api s objects c of
           (Some err, c') \<Rightarrow> (Some (Inl err), c')
         | (None, c') \<Rightarrow>
             let name = PrimaryName s opts; ns = do_namespace opts in
             (case PollUntilReady (\<lambda>i. WaitReady L s (watch c' i) ns name) expired ctx_err 0 of
                None \<Rightarrow> (None, c')
              | Some (Inl err) \<Rightarrow> (Some (Inl (PollError err)), c')
              | Some (Inr endpoint) \<Rightarrow> (Some (Inr (Ready endpoint (ReadCostPerHour s (after_poll c') ns name))), c'))))"

text \<open>The whole command: the namespace and the clients come first, and the namespace goes into the options.\<close>

datatype command_error = DeployNamespace string | DeployClient string | DeployFailed run_error

definition deploy_command ::
  "lib \<Rightarrow> 'c create_api \<Rightarrow> ('c \<Rightarrow> nat \<Rightarrow> deploy_view) \<Rightarrow> (nat \<Rightarrow> bool) \<Rightarrow> string \<Rightarrow> ('c \<Rightarrow> deploy_view)
     \<Rightarrow> disc_answer \<Rightarrow> disc_answer \<Rightarrow> string + string \<Rightarrow> string option \<Rightarrow> deploy_options \<Rightarrow> 'c
     \<Rightarrow> (command_error + deploy_outcome) option \<times> 'c" where
  "deploy_command L api watch expired ctx_err after_poll d1 d2 resolved client_error opts c =
    (case resolved of Inl err \<Rightarrow> (Some (Inl (DeployNamespace err)), c)
     | Inr ns \<Rightarrow> (case client_error of Some err \<Rightarrow> (Some (Inl (DeployClient err)), c)
       | None \<Rightarrow> apfst (map_option (map_sum DeployFailed id))
           (runDeploy L api watch expired ctx_err after_poll d1 d2 (opts\<lparr>do_namespace := ns\<rparr>) c)))"

section \<open>When the poll ends\<close>

text \<open>What a round decides, if it decides anything.\<close>

definition poll_decision ::
  "(nat \<Rightarrow> string + string) \<Rightarrow> (nat \<Rightarrow> bool) \<Rightarrow> string \<Rightarrow> nat \<Rightarrow> (string + string) option" where
  "poll_decision wait expired ctx_err i = (case wait i of
     Inr endpoint \<Rightarrow> Some (Inr endpoint)
   | Inl err \<Rightarrow> if isTerminalError err then Some (Inl err)
       else if expired i then Some (Inl (timed_out ctx_err)) else None)"

lemma poll_unfold:
  "PollUntilReady w x e i = (case poll_decision w x e i of Some r \<Rightarrow> Some r | None \<Rightarrow> PollUntilReady w x e (Suc i))"
  by (subst PollUntilReady.simps) (simp add: poll_decision_def split: sum.split)

lemma poll_decided: "poll_decision w x e i = Some r \<Longrightarrow> PollUntilReady w x e i = Some r"
  by (subst poll_unfold) simp

lemma poll_undecided: "poll_decision w x e i = None \<Longrightarrow> PollUntilReady w x e i = PollUntilReady w x e (Suc i)"
  by (rule trans [OF poll_unfold]) simp

lemma poll_skip: "(\<And>j. j < n \<Longrightarrow> poll_decision w x e j = None) \<Longrightarrow> PollUntilReady w x e 0 = PollUntilReady w x e n"
proof (induction n)
  case (Suc n)
  then show ?case using poll_undecided [of w x e n] by simp
qed simp

lemma poll_result: "PollUntilReady w x e i = Some r \<Longrightarrow> \<exists>n\<ge>i. poll_decision w x e n = Some r"
proof (erule PollUntilReady.raw_induct [rotated])
  fix poll :: "(nat \<Rightarrow> string + string) \<Rightarrow> (nat \<Rightarrow> bool) \<Rightarrow> string \<Rightarrow> nat \<Rightarrow> (string + string) option" and w x e i r
  assume IH: "\<And>w x e i r. poll w x e i = Some r \<Longrightarrow> \<exists>n\<ge>i. poll_decision w x e n = Some r"
    and step: "(case w i of Inl err \<Rightarrow> if isTerminalError err then Some (Inl err)
         else if x i then Some (Inl (timed_out e)) else poll w x e (Suc i)
       | Inr endpoint \<Rightarrow> Some (Inr endpoint)) = Some r"
  show "\<exists>n\<ge>i. poll_decision w x e n = Some r"
  proof (cases "poll_decision w x e i")
    case None
    then have "poll w x e (Suc i) = Some r"
      using step by (auto simp: poll_decision_def split: sum.splits if_splits)
    then have "\<exists>n\<ge>Suc i. poll_decision w x e n = Some r" by (rule IH)
    then show ?thesis by (meson Suc_leD)
  next
    case (Some r')
    then have "r' = r" using step by (auto simp: poll_decision_def split: sum.splits if_splits)
    with Some show ?thesis by blast
  qed
qed

text \<open>C27 Polling returns at the first round that decides, and only then: with the result of that round,
  which is ready, a terminal error, or the end of the context. It never returns exactly when no round
  decides; so with a timeout, which ends some round, it always returns.\<close>

theorem PollUntilReady_ends:
  "(PollUntilReady wait expired ctx_err 0 = None \<longleftrightarrow> (\<forall>n. poll_decision wait expired ctx_err n = None))
   \<and> (\<forall>n r. poll_decision wait expired ctx_err n = Some r \<and> (\<forall>j<n. poll_decision wait expired ctx_err j = None)
        \<longrightarrow> PollUntilReady wait expired ctx_err 0 = Some r)
   \<and> ((\<exists>n. expired n) \<longrightarrow> PollUntilReady wait expired ctx_err 0 \<noteq> None)"
proof -
  let ?d = "poll_decision wait expired ctx_err" and ?p = "PollUntilReady wait expired ctx_err 0"
  have first: "?p = Some r" if "?d n = Some r" "\<forall>j<n. ?d j = None" for n r
    using poll_skip [of n wait expired ctx_err] poll_decided [OF that(1)] that(2) by simp
  have ends: "?p \<noteq> None" if "?d n \<noteq> None" for n
  proof -
    have "\<exists>m. ?d m \<noteq> None \<and> (\<forall>j<m. \<not> ?d j \<noteq> None)"
      using that exists_least_iff [of "\<lambda>n. ?d n \<noteq> None"] by blast
    then obtain m r where "?d m = Some r" "\<forall>j<m. ?d j = None" by auto
    then show ?thesis by (simp add: first)
  qed
  have none: "?p = None" if "\<forall>n. ?d n = None"
    using poll_result [of wait expired ctx_err 0] that by (cases ?p) auto
  have "?d n \<noteq> None" if "expired n" for n
    using that by (simp add: poll_decision_def split: sum.split)
  with ends none first show ?thesis by blast
qed

theorem PollUntilReady_ends_witness:
  "PollUntilReady (\<lambda>i. if i < 2 then Inl ''deployment not ready'' else Inr ''up'') (\<lambda>_. False) '''' 0 = Some (Inr ''up'')"
proof -
  let ?w = "\<lambda>i::nat. if i < 2 then Inl ''deployment not ready'' else Inr ''up''"
  have "\<not> isTerminalError ''deployment not ready''" by code_simp
  then have "poll_decision ?w (\<lambda>_. False) '''' 2 = Some (Inr ''up'')"
    "\<forall>j<2. poll_decision ?w (\<lambda>_. False) '''' j = None"
    by (simp_all add: poll_decision_def)
  with PollUntilReady_ends [of ?w "\<lambda>_. False" "''''"] show ?thesis by blast
qed

lemma first_some_found: "x \<in> set xs \<Longrightarrow> f x \<noteq> None \<Longrightarrow> first_some f xs \<noteq> None"
  by (induction xs) (auto split: option.split)

lemma first_some_from: "first_some f xs = Some y \<Longrightarrow> \<exists>x \<in> set xs. f x = Some y"
  by (induction xs) (auto split: option.splits)

lemma scheduling_failure_from:
  assumes "checkSchedulingFailure V ns name = Some m"
  shows "\<exists>pods p evs. dv_pods V ns name = Inr pods \<and> (p, ''Pending'') \<in> set pods \<and> dv_events V ns p = Inr evs
    \<and> (''FailedScheduling'', m) \<in> set evs"
proof -
  obtain pods p where p: "dv_pods V ns name = Inr pods" "p \<in> set pods" "pod_scheduling_failure V ns p = Some m"
    using assms by (auto simp: checkSchedulingFailure_def split: sum.splits dest: first_some_from)
  have found: "x \<in> set xs \<and> P x" if "List.find P xs = Some x" for P x and xs :: "(string \<times> string) list"
    using that by (auto simp: find_Some_iff)
  obtain evs ev where "snd p = ''Pending''" "dv_events V ns (fst p) = Inr evs" "snd ev = m"
    "List.find (\<lambda>ev. fst ev = ''FailedScheduling'') evs = Some ev"
    using p(3) by (auto simp: pod_scheduling_failure_def split: if_splits sum.splits)
  with p(1,2) found [OF this(4)] show ?thesis by (metis prod.collapse)
qed

text \<open>C15 A scheduling failure ends the wait at once: if in some round, with no earlier round having decided, the Deployment
  is short of replicas and a pending pod of it has a FailedScheduling event, polling returns in that round, whatever time is
  left, and with an error that carries the message of a FailedScheduling event of a pending pod of the Deployment and tells
  how to check the node labels.\<close>

theorem failed_scheduling_ends_poll:
  assumes "dv_deployment (views n) ns name = Inr (Some want, available, anns)" and "available < want"
    and "dv_pods (views n) ns name = Inr pods" and "(p, ''Pending'') \<in> set pods"
    and "dv_events (views n) ns p = Inr evs" and "(''FailedScheduling'', msg) \<in> set evs"
    and "\<And>j. j < n \<Longrightarrow> poll_decision (\<lambda>i. Generic_WaitReady (views i) ns name) expired ctx_err j = None"
  shows "\<exists>m p' evs'. (p', ''Pending'') \<in> set pods \<and> dv_events (views n) ns p' = Inr evs'
    \<and> (''FailedScheduling'', m) \<in> set evs'
    \<and> PollUntilReady (\<lambda>i. Generic_WaitReady (views i) ns name) expired ctx_err 0 = Some (Inl
      (''pod scheduling failed: '' @ m @ newline @ newline
        @ ''Tip: check node labels with: kubectl get nodes --show-labels''))"
proof -
  have "List.find (\<lambda>ev. fst ev = ''FailedScheduling'') evs \<noteq> None"
    using assms(6) by (auto simp: find_None_iff)
  then have "pod_scheduling_failure (views n) ns (p, ''Pending'') \<noteq> None"
    using assms(5) by (auto simp: pod_scheduling_failure_def)
  with first_some_found [OF assms(4)] have "first_some (pod_scheduling_failure (views n) ns) pods \<noteq> None" .
  then obtain m where m: "checkSchedulingFailure (views n) ns name = Some m"
    using assms(3) by (auto simp: checkSchedulingFailure_def)
  then have "Generic_WaitReady (views n) ns name = Inl (''pod scheduling failed: '' @ m @ newline @ newline
      @ ''Tip: check node labels with: kubectl get nodes --show-labels'')" (is "_ = Inl ?e")
    using assms(1,2) by (simp add: Generic_WaitReady_def)
  moreover have "isTerminalError (''pod scheduling failed: '' @ t)" for t
    by (simp add: isTerminalError_def)
  ultimately have "poll_decision (\<lambda>i. Generic_WaitReady (views i) ns name) expired ctx_err n = Some (Inl ?e)"
    by (simp add: poll_decision_def)
  then have "PollUntilReady (\<lambda>i. Generic_WaitReady (views i) ns name) expired ctx_err 0 = Some (Inl ?e)"
    using poll_skip [OF assms(7), of n] poll_decided by fastforce
  with scheduling_failure_from [OF m] assms(3) show ?thesis by auto
qed

definition demo_pending :: deploy_view where
  "demo_pending = \<lparr>dv_deployment = (\<lambda>ns n. Inr (Some 1, 0, fmempty)), dv_pods = (\<lambda>ns n. Inr [(''p'', ''Pending'')]),
     dv_events = (\<lambda>ns p. Inr [(''FailedScheduling'', ''no nodes'')]), dv_inference = None\<rparr>"

theorem failed_scheduling_ends_poll_witness:
  "PollUntilReady (\<lambda>i. Generic_WaitReady demo_pending ''ml'' ''llm'') (\<lambda>_. False) '''' 0 = Some (Inl
    (''pod scheduling failed: no nodes'' @ newline @ newline
      @ ''Tip: check node labels with: kubectl get nodes --show-labels''))"
  using failed_scheduling_ends_poll [of "\<lambda>_. demo_pending" 0 "''ml''" "''llm''" 1 0 fmempty "[(''p'', ''Pending'')]" "''p''"
      "[(''FailedScheduling'', ''no nodes'')]" "''no nodes''" "\<lambda>_. False" "''''"]
  by (auto simp: demo_pending_def)

section \<open>Creating twice\<close>

text \<open>C29 A dry run never writes, and a repeated deployment depends on the strategy: when everything
  exists already, the generic strategy stops with an error at the Deployment, while the KServe strategy
  goes on and reports the readiness of the old object. Neither changes the cluster.\<close>

theorem runDeploy_dry_and_repeated:
  assumes "\<And>c ob. api c ob = (AlreadyExists, c)"
  shows "snd (runDeploy L api watch expired e after d1 d2 opts c) = c
    \<and> snd (runDeploy L api' watch expired e after d1 d2 (opts\<lparr>do_dryRun := True\<rparr>) c) = c
    \<and> (\<not> do_dryRun opts \<and> validateDeployOptions opts = None \<longrightarrow>
        (case DetectServingPlatform L d1 d2 of
           GenericStrategy \<Rightarrow> fst (runDeploy L api watch expired e after d1 d2 opts c)
             = Some (Inl (ObjectExists ''Deployment'' (do_namespace opts) (ModelSlug (do_model opts))))
         | KServeStrategy g \<Rightarrow> fst (runDeploy L api watch expired e after d1 d2 opts c)
             = map_option (map_sum PollError (\<lambda>url. Ready url (KServe_ReadCostPerHour (after c) (do_namespace opts)
                 (ModelSlug (do_model opts)))))
               (PollUntilReady (\<lambda>i. KServe_WaitReady L (watch c i) (do_namespace opts) (ModelSlug (do_model opts)))
                 expired e 0)))"
proof -
  have cre: "snd (create_all api s obs c) = c" for s obs
    by (induction obs) (simp_all add: createObject_def assms split: option.split prod.split)
  have "snd (runDeploy L api watch expired e after d1 d2 opts c) = c"
    using cre by (auto simp: runDeploy_def Let_def split: sum.split option.split prod.split) (metis snd_conv)+
  moreover have "snd (runDeploy L api' watch expired e after d1 d2 (opts\<lparr>do_dryRun := True\<rparr>) c) = c"
    by (simp add: runDeploy_def Let_def split: sum.split)
  moreover have "fst (runDeploy L api watch expired e after d1 d2 opts c)
      = Some (Inl (ObjectExists ''Deployment'' (do_namespace opts) (ModelSlug (do_model opts))))"
    if "\<not> do_dryRun opts" "validateDeployOptions opts = None" "DetectServingPlatform L d1 d2 = GenericStrategy"
    using that by (simp add: runDeploy_def Build_def Generic_Build_def Let_def createObject_def assms
        object_id_def IsKServeObject_def)
  moreover have "fst (runDeploy L api watch expired e after d1 d2 opts c)
      = map_option (map_sum PollError (\<lambda>url. Ready url (KServe_ReadCostPerHour (after c) (do_namespace opts)
          (ModelSlug (do_model opts)))))
        (PollUntilReady (\<lambda>i. KServe_WaitReady L (watch c i) (do_namespace opts) (ModelSlug (do_model opts))) expired e 0)"
    if "\<not> do_dryRun opts" "validateDeployOptions opts = None" "DetectServingPlatform L d1 d2 = KServeStrategy g" for g
    using that by (simp add: runDeploy_def Build_def KServe_Build_def Let_def createObject_def assms
        object_id_def IsKServeObject_def WaitReady_def ReadCostPerHour_def PrimaryName_def
        split: option.split sum.split)
  ultimately show ?thesis by (simp split: strategy.split)
qed

theorem runDeploy_dry_and_repeated_witness:
  "snd (runDeploy std_lib (\<lambda>c ob. (AlreadyExists, c)) (\<lambda>c i. demo_pending) (\<lambda>_. False) '''' (\<lambda>_. demo_pending)
     \<lparr>da_lists = [], da_error = None\<rparr> \<lparr>da_lists = [], da_error = None\<rparr> demo_options (7::nat)) = 7"
  by (rule runDeploy_dry_and_repeated [THEN conjunct1]) simp

section \<open>Deployed models in the cost table\<close>

text \<open>What the API server stores of the two built objects, as the cost table later lists them.\<close>

definition listed_deployment :: "built_deployment \<Rightarrow> typed_workload" where
  "listed_deployment d = \<lparr>tw_namespace = bd_namespace d, tw_name = bd_name d, tw_labels = bd_labels d,
     tw_annotations = fmempty, tw_replicas = Some (bd_replicas d), tw_template_labels = bd_template_labels d,
     tw_spec = \<lparr>ps_containers = [bd_container d], ps_initContainers = []\<rparr>\<rparr>"

definition listed_inference_service :: "built_inference_service \<Rightarrow> unstr" where
  "listed_inference_service u = \<lparr>u_gvk = inferenceServiceGVK, u_namespace = bi_namespace u, u_name = bi_name u,
     u_annotations = fmempty,
     u_object = fmap_of_list [(''metadata'', AMap (fmupd ''labels'' (AMap (fmmap AString (bi_labels u))) fmempty)),
       (''spec'', AMap (bi_spec u))]\<rparr>"

lemma built_spec:
  assumes "documented L" and "KServe_Build opts = Inr isvc"
    and "l_Quantity L ''1'' = Some \<lparr>quantity_value = 1, quantity_sign = 1\<rparr>"
  shows "gpusPerPod (podSpecFromUnstructured L (u_object (listed_inference_service isvc))) = 1"
    and "replicasFromUnstructured L (u_object (listed_inference_service isvc)) = 1"
proof -
  have q: "gpusPerPod \<lparr>ps_containers = [\<lparr>c_limits = fmmap (\<lambda>v. the (case v of AString s \<Rightarrow> l_Quantity L s | _ \<Rightarrow> None))
      (fmfilter (\<lambda>k. \<exists>y. Option.bind (fmlookup (fmupd ''nvidia.com/gpu'' (AString ''1'') fmempty) k)
        (\<lambda>v. case v of AString s \<Rightarrow> l_Quantity L s | _ \<Rightarrow> None) = Some y) (fmupd ''nvidia.com/gpu'' (AString ''1'') fmempty)),
      c_requests = fmempty\<rparr>], ps_initContainers = []\<rparr> = 1"
    using assms(3) by (simp add: gpusPerPod_limits gpuQty_def i64_def Let_def)
  obtain sp where isvc: "u_object (listed_inference_service isvc) = fmap_of_list
      [(''metadata'', AMap (fmupd ''labels'' (AMap (fmmap AString (bi_labels isvc))) fmempty)), (''spec'', AMap sp)]"
    and sp: "sp = fmupd ''predictor'' (AMap (fmupd ''model'' (AMap (fmap_of_list
           [(''modelFormat'', AMap (fmupd ''name'' (AString ''vllm'') fmempty)),
            (''storageUri'', AString (''hf://'' @ do_model opts)),
            (''resources'', AMap (fmap_of_list [(''requests'', gpu_one), (''limits'', gpu_one)]))])) fmempty)) fmempty"
    using assms(2) by (auto simp: KServe_Build_def Let_def listed_inference_service_def split: option.splits)
  show "gpusPerPod (podSpecFromUnstructured L (u_object (listed_inference_service isvc))) = 1"
    using documented_access [OF assms(1)] q
    by (simp add: isvc sp podSpecFromUnstructured_def spec_attempts_def nestedResourceLimits_found
        cost_nestedMap_def as_map_def limits_spec_def some_list_def resourceListFromMap_def gpu_one_def
        podSpecRequestsGPU_def fmlookup_of_list Let_def)
  show "replicasFromUnstructured L (u_object (listed_inference_service isvc)) = 1"
    using documented_access [OF assms(1)]
    by (simp add: isvc sp replicasFromUnstructured_def fmlookup_of_list)
qed

lemma row_fields:
  "cr_platform (workload_row ns name kind l a n spec) = fst (DetectPlatform l a kind)"
  "cr_workloadType (workload_row ns name kind l a n spec) = snd (DetectPlatform l a kind)"
  "cr_name (workload_row ns name kind l a n spec) = name"
  "cr_replicas (workload_row ns name kind l a n spec) = n"
  "cr_gpuCount (workload_row ns name kind l a n spec) = i64 (n * gpusPerPod spec)"
  by (simp_all add: workload_row_def split: prod.split)

lemma trim_words [simp]:
  "TrimSpace ''InferenceService'' = ''InferenceService''" "TrimSpace ''Deployment'' = ''Deployment''"
  "TrimSpace ''vllm'' = ''vllm''" "TrimSpace '''' = ''''"
  by code_simp+

lemma vllm_platform: "normalizePlatform ''vllm'' = ''vllm''" "workloadTypeForPlatform ''vllm'' = ''inference''"
  by code_simp+

lemma listed_kserve:
  assumes "documented L" and "l_Quantity L ''1'' = Some \<lparr>quantity_value = 1, quantity_sign = 1\<rparr>"
    and "KServe_Build opts = Inr isvc"
  shows "\<exists>r. unstructured_rows L g [listed_inference_service isvc] = [r]
      \<and> cr_platform r = ''kserve'' \<and> cr_workloadType r = ''inference'' \<and> cr_name r = ModelSlug (do_model opts)
      \<and> cr_replicas r = 1 \<and> cr_gpuCount r = 1"
proof -
  have "u_name (listed_inference_service isvc) = ModelSlug (do_model opts)"
    using assms(3) by (auto simp: KServe_Build_def Let_def listed_inference_service_def split: option.splits)
  moreover have "unstr_kind g (listed_inference_service isvc) = ''InferenceService''"
    by (simp add: unstr_kind_def listed_inference_service_def inferenceServiceGVK_def)
  ultimately show ?thesis
    using built_spec [OF assms(1,3,2)]
    by (simp add: unstructured_rows_def shouldIncludeWorkload_def podSpecRequestsGPU_def row_fields
        DetectPlatform_def platform_of_kind_def i64_def)
qed

lemma listed_generic:
  assumes "Generic_Build opts = Inr (dep, svc)" and "in_i32 (do_replicas opts)"
  shows "\<exists>r. deployment_rows [listed_deployment dep] = [r]
      \<and> cr_platform r = ''vllm'' \<and> cr_workloadType r = ''inference'' \<and> cr_name r = ModelSlug (do_model opts)
      \<and> cr_replicas r = do_replicas opts \<and> cr_gpuCount r = 2 * do_replicas opts"
proof -
  define l where "l = fmap_of_list [(''app.kubernetes.io/name'', ModelSlug (do_model opts)), (AnnPlatform, ''vllm''),
    (LabelModel, do_model opts), (LabelTeam, if do_team opts = '''' then ''default'' else do_team opts),
    (LabelWorkloadType, ''inference'')]"
  have dep: "bd_labels dep = l" "bd_template_labels dep = l" "bd_name dep = ModelSlug (do_model opts)"
    "bd_replicas dep = do_replicas opts" "bd_container dep = \<lparr>c_limits = one_gpu, c_requests = one_gpu\<rparr>"
    and n: "1 \<le> do_replicas opts"
    using assms(1) by (auto simp: Generic_Build_def validateDeployOptions_def Let_def l_def split: if_splits)
  have two: "gpusPerPod \<lparr>ps_containers = [bd_container dep], ps_initContainers = []\<rparr> = 2"
    by (simp add: dep gpusPerPod_def gpuQty_def one_gpu_def i64_def Let_def)
  have "i64 (do_replicas opts * 2) = 2 * do_replicas opts"
    using n assms(2) by (simp add: i64_id in_i64_def in_i32_def)
  moreover have "DetectPlatform l fmempty ''Deployment'' = (''vllm'', ''inference'')"
    by (simp add: DetectPlatform_def platform_of_kind_def platform_of_labels_def l_def mget_def fmlookup_of_list
        AnnPlatform_def LabelModel_def LabelTeam_def LabelWorkloadType_def vllm_platform Let_def)
  moreover have "mget l ''serving.kserve.io/inferenceservice'' = ''''" "mget l ''yatai.bentoml.com/bento-deployment'' = ''''"
    by (simp_all add: l_def mget_def fmlookup_of_list AnnPlatform_def LabelModel_def LabelTeam_def LabelWorkloadType_def)
  moreover have "l ++\<^sub>f l = l" by (rule fmap_ext) simp
  ultimately show ?thesis
    using two by (simp add: deployment_rows_def listed_deployment_def isKServeChildDeployment_def
        isBentoChildDeployment_def shouldIncludeWorkload_def podSpecRequestsGPU_def typed_row_def row_fields
        replicaCount_def dep mult.commute)
qed

text \<open>A deployed model has its row in the cost table before any cost is known: deployed as an
  InferenceService it is listed as kserve inference with one GPU and one replica, whatever number of
  replicas was asked for; as a plain Deployment it is listed as vllm inference with two GPUs for each
  replica, because requests and limits are added.\<close>

theorem deployed_model_listed:
  assumes "documented L" and "l_Quantity L ''1'' = Some \<lparr>quantity_value = 1, quantity_sign = 1\<rparr>"
    and "KServe_Build opts = Inr isvc" and "Generic_Build opts = Inr (dep, svc)" and "in_i32 (do_replicas opts)"
  shows "(\<exists>r. unstructured_rows L g [listed_inference_service isvc] = [r]
      \<and> cr_platform r = ''kserve'' \<and> cr_workloadType r = ''inference'' \<and> cr_name r = ModelSlug (do_model opts)
      \<and> cr_replicas r = 1 \<and> cr_gpuCount r = 1)
    \<and> (\<exists>r. deployment_rows [listed_deployment dep] = [r]
      \<and> cr_platform r = ''vllm'' \<and> cr_workloadType r = ''inference'' \<and> cr_name r = ModelSlug (do_model opts)
      \<and> cr_replicas r = do_replicas opts \<and> cr_gpuCount r = 2 * do_replicas opts)"
  using listed_kserve [OF assms(1-3)] listed_generic [OF assms(4,5)] by blast

theorem deployed_model_listed_witness:
  "\<exists>isvc r. KServe_Build demo_options = Inr isvc
     \<and> unstructured_rows std_lib \<lparr>gvr_group = '''', gvr_version = '''', gvr_resource = ''''\<rparr>
         [listed_inference_service isvc] = [r] \<and> cr_gpuCount r = 1"
proof -
  have v: "validateDeployOptions demo_options = None"
    by (simp add: validateDeployOptions_def demo_options_def TrimSpace_graphic graphic_def less_eq_char_def)
  then obtain isvc dep svc where b: "KServe_Build demo_options = Inr isvc" "Generic_Build demo_options = Inr (dep, svc)"
    by (simp add: KServe_Build_def Generic_Build_def Let_def)
  have "l_Quantity std_lib ''1'' = Some \<lparr>quantity_value = 1, quantity_sign = 1\<rparr>"
    by (simp add: std_lib_def digits_def is_digit_def digits_val_def digit_val_def less_eq_char_def)
  from deployed_model_listed [OF std_documented this b] b(1) show ?thesis
    by (simp add: demo_options_def in_i32_def) blast
qed

section \<open>What a strategy promises\<close>

text \<open>The contract of the interface \<^verbatim>\<open>DeployStrategy\<close> that the command relies on: every object is built under
  the primary name in the asked namespace, there is one, and readiness comes with an endpoint.\<close>

locale deploy_strategy =
  fixes build :: "deploy_options \<Rightarrow> deploy_error + built_object list"
    and wait :: "deploy_view \<Rightarrow> string \<Rightarrow> string \<Rightarrow> string + string"
  assumes built_named: "build opts = Inr obs \<Longrightarrow> ob \<in> set obs \<Longrightarrow>
      snd (object_id ob) = (do_namespace opts, ModelSlug (do_model opts))"
    and built_some: "build opts = Inr obs \<Longrightarrow> obs \<noteq> []"
    and ready_endpoint: "wait V ns name = Inr url \<Longrightarrow> url \<noteq> []"
begin

lemma polled_endpoint:
  assumes "PollUntilReady (\<lambda>i. wait (views i) ns name) x e 0 = Some (Inr url)"
  shows "url \<noteq> [] \<and> (\<exists>n. wait (views n) ns name = Inr url)"
proof -
  obtain n where "poll_decision (\<lambda>i. wait (views i) ns name) x e n = Some (Inr url)"
    using poll_result [OF assms] by blast
  then have "wait (views n) ns name = Inr url"
    by (simp add: poll_decision_def split: sum.splits if_splits)
  then show ?thesis using ready_endpoint by blast
qed

lemma built_objects:
  assumes "build opts = Inr obs"
  shows "obs \<noteq> [] \<and> (\<forall>ob \<in> set obs. snd (object_id ob) = (do_namespace opts, ModelSlug (do_model opts)))"
  using assms built_named built_some by blast

end

lemma Generic_wait_endpoint: "Generic_WaitReady V ns name = Inr url \<Longrightarrow> url \<noteq> []"
  by (auto simp: Generic_WaitReady_def Let_def split: sum.splits if_splits option.splits)

lemma KServe_wait_endpoint: "KServe_WaitReady L V ns name = Inr url \<Longrightarrow> url \<noteq> []"
  by (auto simp: KServe_WaitReady_def Let_def split: sum.splits if_splits option.splits)

lemma Generic_names:
  "Generic_Build opts = Inr (dep, svc) \<Longrightarrow> bd_namespace dep = do_namespace opts \<and> bd_name dep = ModelSlug (do_model opts)
     \<and> bs_namespace svc = do_namespace opts \<and> bs_name svc = ModelSlug (do_model opts)"
  by (auto simp: Generic_Build_def Let_def split: option.splits)

lemma KServe_names:
  "KServe_Build opts = Inr u \<Longrightarrow> bi_namespace u = do_namespace opts \<and> bi_name u = ModelSlug (do_model opts)"
  by (auto simp: KServe_Build_def Let_def split: option.splits)

lemma map_sum_Inr_iff: "map_sum f g x = Inr y \<longleftrightarrow> (\<exists>z. x = Inr z \<and> y = g z)"
  by (cases x) auto

interpretation kserve: deploy_strategy "Build (KServeStrategy g)" "WaitReady L (KServeStrategy g)" for g L
  by unfold_locales (auto simp: Build_def WaitReady_def object_id_def map_sum_Inr_iff dest: KServe_names KServe_wait_endpoint)

interpretation generic: deploy_strategy "Build GenericStrategy" "WaitReady L GenericStrategy" for L
  by unfold_locales (auto simp: Build_def WaitReady_def object_id_def map_sum_Inr_iff dest: Generic_wait_endpoint, (frule Generic_names, simp)+)

text \<open>What the API server answered to each creation, in their order.\<close>

fun creation_answers :: "'c create_api \<Rightarrow> built_object list \<Rightarrow> 'c \<Rightarrow> create_answer list" where
  "creation_answers api [] c = []"
| "creation_answers api (ob # obs) c = (case api c ob of (answer, c') \<Rightarrow> answer # creation_answers api obs c')"

lemma create_all_answers:
  "create_all api s obs c = (None, c') \<Longrightarrow>
     list_all2 (\<lambda>ob a. a = Created \<or> a = AlreadyExists \<and> IsKServeObject ob \<and> s \<noteq> GenericStrategy)
       obs (creation_answers api obs c)"
  by (induction obs arbitrary: c)
    (auto simp: createObject_def split: prod.splits option.splits create_answer.splits if_splits)

lemma strategy_answers:
  assumes "create_all api s obs c = (None, c')"
  shows "case s of GenericStrategy \<Rightarrow> list_all (\<lambda>a. a = Created) (creation_answers api obs c)
    | KServeStrategy g \<Rightarrow> list_all (\<lambda>a. a = Created \<or> a = AlreadyExists) (creation_answers api obs c)"
  using create_all_answers [OF assms]
  by (auto simp: list_all2_conv_all_nth list_all_length split: strategy.split)

text \<open>C28 A deployment reported ready is ready: the command then has sent every object it built, all of them under the
  slug of the model in the asked namespace. With the generic strategy the API server created each of them; with KServe
  it created them or answered that they already exist, in which case the one reported is the old object. Some later
  round found the workload of that name ready with the endpoint the command prints, which is never empty.\<close>

theorem runDeploy_ready:
  assumes "runDeploy L api watch expired ctx_err after_poll d1 d2 opts c = (Some (Inr (Ready url cost)), c')"
  defines "s \<equiv> DetectServingPlatform L d1 d2" and "name \<equiv> ModelSlug (do_model opts)"
  shows "\<not> do_dryRun opts \<and> (\<exists>obs. Build s opts = Inr obs \<and> create_all api s obs c = (None, c') \<and> obs \<noteq> []
      \<and> (\<forall>ob \<in> set obs. snd (object_id ob) = (do_namespace opts, name))
      \<and> (case s of GenericStrategy \<Rightarrow> list_all (\<lambda>a. a = Created) (creation_answers api obs c)
         | KServeStrategy g \<Rightarrow> list_all (\<lambda>a. a = Created \<or> a = AlreadyExists) (creation_answers api obs c)))
    \<and> url \<noteq> [] \<and> (\<exists>n. WaitReady L s (watch c' n) (do_namespace opts) name = Inr url)"
proof -
  obtain obs where b: "Build s opts = Inr obs" "\<not> do_dryRun opts" "create_all api s obs c = (None, c')"
    and p: "PollUntilReady (\<lambda>i. WaitReady L s (watch c' i) (do_namespace opts) name) expired ctx_err 0 = Some (Inr url)"
    using assms(1) by (auto simp: runDeploy_def Let_def PrimaryName_def s_def name_def
        split: sum.splits if_splits prod.splits option.splits)
  note a = strategy_answers [OF b(3)]
  show ?thesis
  proof (cases s)
    case (KServeStrategy g)
    with a b p kserve.polled_endpoint kserve.built_objects show ?thesis by (simp add: name_def)
  next
    case GenericStrategy
    with a b p generic.polled_endpoint generic.built_objects show ?thesis by (simp add: name_def)
  qed
qed

definition demo_available :: deploy_view where
  "demo_available = \<lparr>dv_deployment = (\<lambda>ns n. Inr (Some 1, 1, fmempty)), dv_pods = (\<lambda>ns n. Inr []),
     dv_events = (\<lambda>ns n. Inr []), dv_inference = None\<rparr>"

theorem runDeploy_ready_witness:
  "\<exists>url cost. runDeploy std_lib (\<lambda>c ob. (Created, Suc c)) (\<lambda>c i. demo_available) (\<lambda>_. False) '''' (\<lambda>_. demo_available)
     \<lparr>da_lists = [], da_error = None\<rparr> \<lparr>da_lists = [], da_error = None\<rparr> demo_options 0 = (Some (Inr (Ready url cost)), 2)
   \<and> url \<noteq> []"
proof -
  let ?run = "runDeploy std_lib (\<lambda>c ob. (Created, Suc c)) (\<lambda>c i. demo_available) (\<lambda>_. False) '''' (\<lambda>_. demo_available)
     \<lparr>da_lists = [], da_error = None\<rparr> \<lparr>da_lists = [], da_error = None\<rparr> demo_options 0"
  have s: "DetectServingPlatform std_lib \<lparr>da_lists = [], da_error = None\<rparr> \<lparr>da_lists = [], da_error = None\<rparr> = GenericStrategy"
    by (simp add: DetectServingPlatform_def findKServeGVR_def)
  have v: "validateDeployOptions demo_options = None" "\<not> do_dryRun demo_options"
    by (simp_all add: validateDeployOptions_def demo_options_def TrimSpace_graphic graphic_def less_eq_char_def)
  have "\<exists>url cost. ?run = (Some (Inr (Ready url cost)), 2)"
    by (simp add: runDeploy_def Let_def s v Build_def Generic_Build_def createObject_def IsKServeObject_def
        object_id_def WaitReady_def Generic_WaitReady_def demo_available_def PollUntilReady.simps)
  then obtain url cost where r: "?run = (Some (Inr (Ready url cost)), 2)" by blast
  from runDeploy_ready [OF this] r show ?thesis by blast
qed

section \<open>The output of a dry run\<close>

text \<open>\<^verbatim>\<open>printDryRunYAML\<close>: what it has printed when it ends, and its error. The conversion of an object and the YAML encoder
  are the library's; the kind of an object goes over what the conversion gives.\<close>

definition object_gvk_text :: "built_object \<Rightarrow> string \<times> string" where
  "object_gvk_text ob = (case ob of BDeployment _ \<Rightarrow> (''apps/v1'', ''Deployment'') | BService _ \<Rightarrow> (''v1'', ''Service'')
     | BInference u \<Rightarrow> (bi_apiVersion u, bi_kind u))"

definition typed_members :: "built_object \<Rightarrow> amap \<Rightarrow> amap" where
  "typed_members ob u = (case object_gvk_text ob of (apiVersion, kind) \<Rightarrow>
     if kind \<noteq> '''' then fmupd ''kind'' (AString kind) (fmupd ''apiVersion'' (AString apiVersion) u) else u)"

fun printDryRunYAML ::
  "(built_object \<Rightarrow> string + amap) \<Rightarrow> (amap \<Rightarrow> string + string) \<Rightarrow> nat \<Rightarrow> built_object list \<Rightarrow> string \<Rightarrow> string \<times> string option" where
  "printDryRunYAML conv yaml i [] out = (out, None)"
| "printDryRunYAML conv yaml i (ob # obs) out =
    (let out1 = (if 0 < i then out @ ''---'' @ [CHR 0x0A] else out) in
     case conv ob of Inl err \<Rightarrow> (out1, Some (''marshal object: '' @ err))
     | Inr u \<Rightarrow> (case yaml (typed_members ob u) of Inl err \<Rightarrow> (out1, Some (''yaml encode: '' @ err))
       | Inr b \<Rightarrow> printDryRunYAML conv yaml (Suc i) obs (out1 @ b)))"

lemma dry_run_rest:
  assumes "\<forall>ob \<in> set obs. \<exists>u. conv ob = Inr u \<and> yaml (typed_members ob u) = Inr (doc ob)"
  shows "printDryRunYAML conv yaml (Suc i) obs out = (out @ concat (map (\<lambda>ob. (''---'' @ [CHR 0x0A]) @ doc ob) obs), None)"
  using assms by (induction obs arbitrary: i out) auto

text \<open>Without an error a dry run prints every object once, in order, with a separator between two of them.\<close>

theorem printDryRunYAML_documents:
  assumes "\<forall>ob \<in> set obs. \<exists>u. conv ob = Inr u \<and> yaml (typed_members ob u) = Inr (doc ob)"
  shows "printDryRunYAML conv yaml 0 obs '''' = (join (''---'' @ [CHR 0x0A]) (map doc obs), None)"
proof (cases obs)
  case (Cons ob rest)
  have j: "join sep (d # ds) = d @ concat (map ((@) sep) ds)" for sep d ds
    by (induction ds arbitrary: d) auto
  from assms Cons obtain u where "conv ob = Inr u" "yaml (typed_members ob u) = Inr (doc ob)" by auto
  with assms Cons dry_run_rest [of rest conv yaml doc 0 "doc ob"] show ?thesis by (simp add: j comp_def)
qed simp

end
