(* ===== verification/Install.thy ===== *)
theory Install
  imports Kube "HOL-Library.Sublist"
begin

text \<open>
  The installer (\<^verbatim>\<open>internal/install\<close>): what is found in the cluster (\<^verbatim>\<open>detect.go\<close>), a Helm call
  (\<^verbatim>\<open>helm.go\<close>), the embedded assets (\<^verbatim>\<open>assets.go\<close>) and the three steps and the summary of an
  install (\<^verbatim>\<open>run.go\<close>).

  The record \<open>site\<close> holds what the code calls: the API server's lists and apply, the discovery answer, the
  \<^verbatim>\<open>helm\<close> process, the YAML decoder and the embedded files. Calls that may change the world take and return
  its state \<open>'c\<close>. A label selector is a list of pairs and a list answer the names of its items. Log
  lines are left out; the summary printed at the end is a list of lines.
\<close>

section \<open>The site\<close>

record helm_result =
  he_error :: "string option"
  he_stdout :: string
  he_stderr :: string

record 'c site =
  s_helm_in_path :: bool
  s_list :: "'c \<Rightarrow> string \<Rightarrow> (string \<times> string) list \<Rightarrow> string + string list"
  s_nodes :: "'c \<Rightarrow> string + resource_list list"
  s_preferred :: "'c \<Rightarrow> string + (string \<times> string list) list"
  s_helm :: "'c \<Rightarrow> string list \<Rightarrow> helm_result \<times> 'c"
  s_read_dir :: "string + (string \<times> bool) list"
  s_read_file :: "string \<Rightarrow> string + string"
  s_decode :: "string \<Rightarrow> string + unstr"
  s_patch :: "'c \<Rightarrow> unstr \<Rightarrow> string option \<times> 'c"

section \<open>Detection\<close>

record installed_state =
  Prometheus :: bool
  DCGM :: bool
  CostPatcher :: bool
  GPUNodeCount :: int
  has_KServe :: bool
  has_BentoML :: bool
  has_RayTrain :: bool

definition detectPrometheus :: "'c site \<Rightarrow> 'c \<Rightarrow> bool" where
  "detectPrometheus S c = (let sel = [(''app.kubernetes.io/name'', ''prometheus'')] in
     case s_list S c ''Deployment'' sel of Inl _ \<Rightarrow> False
     | Inr ds \<Rightarrow> if 0 < length ds then True
         else (case s_list S c ''StatefulSet'' sel of Inl _ \<Rightarrow> False | Inr ss \<Rightarrow> 0 < length ss))"

definition detectDCGM :: "'c site \<Rightarrow> 'c \<Rightarrow> bool" where
  "detectDCGM S c = (let exporter = (case s_list S c ''DaemonSet'' [(''app'', ''dcgm-exporter'')] of
       Inl _ \<Rightarrow> False | Inr ds \<Rightarrow> 0 < length ds)
     in if exporter then True
        else (case s_list S c ''Namespace'' [(''kubernetes.io/metadata.name'', ''gpu-operator'')] of
          Inl _ \<Rightarrow> False | Inr nss \<Rightarrow> list_ex (\<lambda>n. n = ''gpu-operator'') nss))"

definition detectCostPatcher :: "'c site \<Rightarrow> 'c \<Rightarrow> bool" where
  "detectCostPatcher S c = (case s_list S c ''Deployment'' [(''app.kubernetes.io/component'', ''cost-patcher'')] of
     Inl _ \<Rightarrow> False | Inr ds \<Rightarrow> 0 < length ds)"

fun count_gpu_nodes :: "resource_list list \<Rightarrow> int" where
  "count_gpu_nodes [] = 0"
| "count_gpu_nodes (cap # ns) =
     (if has_quantity cap (\<lambda>q. 0 < quantity_sign q) then 1 else 0) + count_gpu_nodes ns"

definition countGPUNodes :: "'c site \<Rightarrow> 'c \<Rightarrow> int" where
  "countGPUNodes S c = (case s_nodes S c of Inl _ \<Rightarrow> 0 | Inr ns \<Rightarrow> count_gpu_nodes ns)"

definition group_of :: "string \<Rightarrow> string" where
  "group_of gv = takeWhile (\<lambda>ch. ch \<noteq> CHR ''/'') gv"

definition serving_kind :: "string \<Rightarrow> string \<Rightarrow> string" where
  "serving_kind grp r =
     (if Contains grp ''serving.kserve.io'' \<and> r = ''inferenceservices'' then ''kserve''
      else if Contains grp ''serving.yatai.ai'' \<and> r = ''bentodeployments''
        \<or> Contains grp ''serving.bento.ai'' \<and> r = ''bentodeployments'' then ''bentoml''
      else if Contains grp ''ray.io'' \<and> r = ''rayjobs'' then ''ray'' else '''')"

fun detect_resources :: "string \<Rightarrow> string list \<Rightarrow> bool \<times> bool \<times> bool \<Rightarrow> bool \<times> bool \<times> bool" where
  "detect_resources grp [] acc = acc"
| "detect_resources grp (r # rs) (k, b, t) = detect_resources grp rs
     (k \<or> serving_kind grp r = ''kserve'', b \<or> serving_kind grp r = ''bentoml'', t \<or> serving_kind grp r = ''ray'')"

fun detect_groups :: "(string \<times> string list) list \<Rightarrow> bool \<times> bool \<times> bool \<Rightarrow> bool \<times> bool \<times> bool" where
  "detect_groups [] acc = acc"
| "detect_groups ((gv, rs) # gs) acc = detect_groups gs (detect_resources (group_of gv) rs acc)"

definition detectServingCRDs :: "'c site \<Rightarrow> 'c \<Rightarrow> bool \<times> bool \<times> bool" where
  "detectServingCRDs S c = (case s_preferred S c of Inl _ \<Rightarrow> (False, False, False)
     | Inr gs \<Rightarrow> detect_groups gs (False, False, False))"

definition detectInstalled :: "'c site \<Rightarrow> 'c \<Rightarrow> installed_state" where
  "detectInstalled S c = (let (k, b, t) = detectServingCRDs S c in
     \<lparr>Prometheus = detectPrometheus S c, DCGM = detectDCGM S c, CostPatcher = detectCostPatcher S c,
      GPUNodeCount = countGPUNodes S c, has_KServe = k, has_BentoML = b, has_RayTrain = t\<rparr>)"

section \<open>Helm\<close>

datatype install_error = HelmNotInPath | HelmFailed string string string
  | ReadAssets string | ReadAsset string string | DecodeAsset string string | ApplyAsset string string string string

record helm_opts =
  h_Release :: string
  h_Chart :: string
  h_Namespace :: string
  h_SetValues :: "string list"
  h_Repo :: string
  h_Version :: string
  h_DryRun :: bool

definition helm_args :: "helm_opts \<Rightarrow> string list" where
  "helm_args opts = [''upgrade'', ''--install'', ''--create-namespace'', ''--namespace'', h_Namespace opts,
       ''--atomic'', ''--timeout'', ''5m'', ''--wait'']
     @ (if h_Repo opts \<noteq> '''' then [''--repo'', h_Repo opts] else [])
     @ (if h_Version opts \<noteq> '''' then [''--version'', h_Version opts] else [])
     @ concat (map (\<lambda>sv. [''--set'', sv]) (h_SetValues opts))
     @ (if h_DryRun opts then [''--dry-run''] else [])
     @ [h_Release opts, h_Chart opts]"

definition HelmInstallIfAbsent :: "'c site \<Rightarrow> helm_opts \<Rightarrow> 'c \<Rightarrow> install_error option \<times> 'c" where
  "HelmInstallIfAbsent S opts c = (case s_helm S c (helm_args opts) of (r, c') \<Rightarrow>
     (case he_error r of None \<Rightarrow> (None, c')
      | Some err \<Rightarrow> (let combined0 = TrimSpace (he_stderr r);
            combined = (if combined0 = '''' then TrimSpace (he_stdout r) else combined0)
          in (Some (HelmFailed (h_Release opts) err combined), c'))))"

section \<open>Embedded assets\<close>

definition applyYAML :: "'c site \<Rightarrow> string \<Rightarrow> string \<Rightarrow> string \<Rightarrow> 'c \<Rightarrow> install_error option \<times> 'c" where
  "applyYAML S namespace data name c = (case s_decode S data of
     Inl err \<Rightarrow> (Some (DecodeAsset name err), c)
   | Inr obj \<Rightarrow> (let obj' = (if u_namespace obj = '''' then obj\<lparr>u_namespace := namespace\<rparr> else obj) in
       case s_patch S c obj' of
         (Some err, c') \<Rightarrow> (Some (ApplyAsset (u_namespace obj') (u_name obj') (gvk_kind (u_gvk obj')) err), c')
       | (None, c') \<Rightarrow> (None, c')))"

fun apply_entries :: "'c site \<Rightarrow> string \<Rightarrow> (string \<times> bool) list \<Rightarrow> 'c \<Rightarrow> install_error option \<times> 'c" where
  "apply_entries S namespace [] c = (None, c)"
| "apply_entries S namespace ((name, is_dir) # es) c =
     (if is_dir then apply_entries S namespace es c
      else case s_read_file S (''assets/'' @ name) of
        Inl err \<Rightarrow> (Some (ReadAsset name err), c)
      | Inr data \<Rightarrow> (case applyYAML S namespace data name c of
          (Some e, c') \<Rightarrow> (Some e, c') | (None, c') \<Rightarrow> apply_entries S namespace es c'))"

definition ApplyAssets :: "'c site \<Rightarrow> string \<Rightarrow> 'c \<Rightarrow> install_error option \<times> 'c" where
  "ApplyAssets S namespace c = (case s_read_dir S of
     Inl err \<Rightarrow> (Some (ReadAssets err), c) | Inr es \<Rightarrow> apply_entries S namespace es c)"

section \<open>The steps\<close>

record install_options =
  o_Namespace :: string
  o_DryRun :: bool
  o_SkipPrometheus :: bool
  o_ChartPath :: string

definition prometheus_release :: "install_options \<Rightarrow> helm_opts" where
  "prometheus_release opts = \<lparr>h_Release = ''prometheus'', h_Chart = ''kube-prometheus-stack'',
     h_Namespace = ''monitoring'', h_SetValues = [],
     h_Repo = ''https://prometheus-community.github.io/helm-charts'', h_Version = '''', h_DryRun = o_DryRun opts\<rparr>"

definition gpu_operator_release :: "install_options \<Rightarrow> helm_opts" where
  "gpu_operator_release opts = \<lparr>h_Release = ''gpu-operator'', h_Chart = ''gpu-operator'',
     h_Namespace = ''gpu-operator'', h_SetValues = [],
     h_Repo = ''https://helm.ngc.nvidia.com/nvidia'', h_Version = '''', h_DryRun = o_DryRun opts\<rparr>"

definition kubefisher_release :: "install_options \<Rightarrow> helm_opts" where
  "kubefisher_release opts = \<lparr>h_Release = ''kubefisher'', h_Chart = o_ChartPath opts,
     h_Namespace = o_Namespace opts, h_SetValues = [], h_Repo = '''', h_Version = '''', h_DryRun = o_DryRun opts\<rparr>"

definition stepPrometheus ::
  "'c site \<Rightarrow> install_options \<Rightarrow> installed_state \<Rightarrow> 'c \<Rightarrow> install_error option \<times> 'c" where
  "stepPrometheus S opts st c =
     (if Prometheus st then (None, c)
      else if o_SkipPrometheus opts then (None, c)
      else HelmInstallIfAbsent S (prometheus_release opts) c)"

definition stepGPUOperator ::
  "'c site \<Rightarrow> install_options \<Rightarrow> installed_state \<Rightarrow> 'c \<Rightarrow> install_error option \<times> 'c" where
  "stepGPUOperator S opts st c =
     (if GPUNodeCount st = 0 then (None, c)
      else if DCGM st then (None, c)
      else HelmInstallIfAbsent S (gpu_operator_release opts) c)"

definition stepKubeFisher ::
  "'c site \<Rightarrow> install_options \<Rightarrow> installed_state \<Rightarrow> 'c \<Rightarrow> install_error option \<times> 'c" where
  "stepKubeFisher S opts st c =
     (case (if CostPatcher st then (None, c) else HelmInstallIfAbsent S (kubefisher_release opts) c) of
        (Some e, c') \<Rightarrow> (Some e, c')
      | (None, c') \<Rightarrow> if o_DryRun opts then (None, c') else ApplyAssets S (o_Namespace opts) c')"

definition check_mark :: string where
  "check_mark = [CHR 0xE2, CHR 0x9C, CHR 0x93]"

definition em_dash :: string where
  "em_dash = [CHR 0xE2, CHR 0x80, CHR 0x94]"

definition printSummary :: "installed_state \<Rightarrow> string list" where
  "printSummary st =
     (let ls = (if has_KServe st then [''  KServe   '' @ check_mark] else [])
            @ (if has_BentoML st then [''  BentoML  '' @ check_mark] else [])
            @ (if has_RayTrain st then [''  Ray      '' @ check_mark] else [])
      in ['''', ''Detected serving platforms:'']
         @ (if ls = [] then [''  (none detected '' @ em_dash @ '' kubefisher works without a serving platform)''] else ls)
         @ [''''])"

definition default_chart :: "install_options \<Rightarrow> install_options" where
  "default_chart opts = (if o_ChartPath opts = '''' then opts\<lparr>o_ChartPath := ''./charts/kubefisher''\<rparr> else opts)"

definition Run :: "'c site \<Rightarrow> install_options \<Rightarrow> 'c \<Rightarrow> (install_error + string list) \<times> 'c" where
  "Run S opts0 c =
    (if \<not> s_helm_in_path S then (Inl HelmNotInPath, c)
     else let opts = default_chart opts0; st = detectInstalled S c in
       case stepPrometheus S opts st c of (Some e, c1) \<Rightarrow> (Inl e, c1)
       | (None, c1) \<Rightarrow> (case stepGPUOperator S opts st c1 of (Some e, c2) \<Rightarrow> (Inl e, c2)
         | (None, c2) \<Rightarrow> (case stepKubeFisher S opts st c2 of (Some e, c3) \<Rightarrow> (Inl e, c3)
           | (None, c3) \<Rightarrow> (Inr (printSummary st), c3))))"

section \<open>The plan of an install\<close>

text \<open>The abstract install: the missing releases in their fixed order, then the assets.\<close>

definition install_plan :: "install_options \<Rightarrow> installed_state \<Rightarrow> helm_opts list" where
  "install_plan opts st =
     (if Prometheus st \<or> o_SkipPrometheus opts then [] else [prometheus_release opts])
     @ (if GPUNodeCount st = 0 \<or> DCGM st then [] else [gpu_operator_release opts])
     @ (if CostPatcher st then [] else [kubefisher_release opts])"

fun install_all :: "'c site \<Rightarrow> helm_opts list \<Rightarrow> 'c \<Rightarrow> install_error option \<times> 'c" where
  "install_all S [] c = (None, c)"
| "install_all S (h # hs) c = (case HelmInstallIfAbsent S h c of
     (Some e, c') \<Rightarrow> (Some e, c') | (None, c') \<Rightarrow> install_all S hs c')"

lemma install_all_append:
  "install_all S (hs @ hs') c = (case install_all S hs c of
     (Some e, c') \<Rightarrow> (Some e, c') | (None, c') \<Rightarrow> install_all S hs' c')"
  by (induction hs arbitrary: c) (auto split: prod.splits option.splits)

lemma install_one: "install_all S [h] c = HelmInstallIfAbsent S h c"
  by (simp split: prod.splits option.splits)

lemma default_chart_sel [simp]:
  "o_DryRun (default_chart opts) = o_DryRun opts" "o_Namespace (default_chart opts) = o_Namespace opts"
  by (simp_all add: default_chart_def)

lemma Run_plan:
  fixes S :: "'c site"
  assumes "s_helm_in_path S"
  shows "let opts' = default_chart opts; st = detectInstalled S c in Run S opts c = (case install_all S (install_plan opts' st) c of
       (Some e, c') \<Rightarrow> (Inl e, c')
     | (None, c') \<Rightarrow> if o_DryRun opts then (Inr (printSummary st), c')
         else (case ApplyAssets S (o_Namespace opts) c' of
             (Some e, c'') \<Rightarrow> (Inl e, c'') | (None, c'') \<Rightarrow> (Inr (printSummary st), c'')))"
  using assms(1)
  by (simp add: Run_def install_plan_def install_all_append install_one stepPrometheus_def stepGPUOperator_def
      stepKubeFisher_def Let_def split: prod.splits option.splits)

section \<open>What an install does to the world\<close>

text \<open>The site that records, beside its state, every call that can change something.\<close>

datatype action = HelmCall "string list" | Applied unstr

definition recorded :: "'c site \<Rightarrow> ('c \<times> action list) site" where
  "recorded S = \<lparr>s_helm_in_path = s_helm_in_path S, s_list = (\<lambda>(c, l). s_list S c), s_nodes = (\<lambda>(c, l). s_nodes S c),
     s_preferred = (\<lambda>(c, l). s_preferred S c),
     s_helm = (\<lambda>(c, l) args. case s_helm S c args of (r, c') \<Rightarrow> (r, (c', l @ [HelmCall args]))),
     s_read_dir = s_read_dir S, s_read_file = s_read_file S, s_decode = s_decode S,
     s_patch = (\<lambda>(c, l) u. case s_patch S c u of (e, c') \<Rightarrow> (e, (c', l @ [Applied u])))\<rparr>"

text \<open>The names of the embedded files, in their order, and an object on its way to the target namespace.\<close>

definition asset_names :: "(string \<times> bool) list \<Rightarrow> string list" where
  "asset_names es = map fst (filter (\<lambda>e. \<not> snd e) es)"

definition in_namespace :: "string \<Rightarrow> unstr \<Rightarrow> unstr" where
  "in_namespace ns u = (if u_namespace u = '''' then u\<lparr>u_namespace := ns\<rparr> else u)"

text \<open>The object of an embedded file.\<close>

definition asset_object :: "'c site \<Rightarrow> string \<Rightarrow> string \<Rightarrow> unstr \<Rightarrow> bool" where
  "asset_object S ns n u \<longleftrightarrow> (\<exists>data u0. s_read_file S (''assets/'' @ n) = Inr data \<and> s_decode S data = Inr u0
     \<and> u = in_namespace ns u0)"

lemma recorded_sel:
  "s_helm_in_path (recorded S) = s_helm_in_path S" "s_list (recorded S) (c, l) = s_list S c"
  "s_nodes (recorded S) (c, l) = s_nodes S c" "s_preferred (recorded S) (c, l) = s_preferred S c"
  "s_read_dir (recorded S) = s_read_dir S"
  by (simp_all add: recorded_def)

lemma recorded_detect: "detectInstalled (recorded S) (c, l) = detectInstalled S c"
  unfolding detectInstalled_def detectServingCRDs_def detectPrometheus_def detectDCGM_def detectCostPatcher_def
    countGPUNodes_def recorded_sel ..

lemma recorded_helm:
  "HelmInstallIfAbsent S h c = (e, c') \<Longrightarrow> HelmInstallIfAbsent (recorded S) h (c, l) = (e, (c', l @ [HelmCall (helm_args h)]))"
  by (auto simp: HelmInstallIfAbsent_def recorded_def Let_def split: prod.splits option.splits)

lemma recorded_install:
  assumes "install_all S hs c = (e, c')"
  shows "\<exists>k \<le> length hs. install_all (recorded S) hs (c, l) = (e, (c', l @ map HelmCall (take k (map helm_args hs))))
    \<and> (e = None \<longrightarrow> k = length hs)"
  using assms
proof (induction hs arbitrary: c l)
  case (Cons h hs)
  obtain e1 c1 where h: "HelmInstallIfAbsent S h c = (e1, c1)" by (metis surj_pair)
  note r = recorded_helm [OF h, of l]
  show ?case
  proof (cases e1)
    case None
    with Cons.prems h have "install_all S hs c1 = (e, c')" by simp
    from Cons.IH [OF this, of "l @ [HelmCall (helm_args h)]"] show ?thesis
      using None r by (elim exE conjE, intro exI [of _ "Suc k" for k]) auto
  next
    case (Some x)
    with Cons.prems h r show ?thesis by (intro exI [of _ 1]) auto
  qed
qed simp

lemma recorded_entries:
  assumes "apply_entries S ns es c = (e, c')"
  shows "\<exists>us. apply_entries (recorded S) ns es (c, l) = (e, (c', l @ map Applied us))
    \<and> (e = None \<longrightarrow> list_all2 (asset_object S ns) (asset_names es) us)"
  using assms
proof (induction es arbitrary: c l)
  case Nil
  then show ?case by (intro exI [of _ "[]"]) (simp add: asset_names_def)
next
  case (Cons x es)
  obtain n d where x: "x = (n, d)" by (cases x)
  have names: "asset_names (x # es) = (if d then asset_names es else n # asset_names es)" by (simp add: asset_names_def x)
  show ?case
  proof (cases d)
    case True
    with Cons x names show ?thesis by simp
  next
    case plain: False
    show ?thesis
    proof (cases "\<exists>data u0. s_read_file S (''assets/'' @ n) = Inr data \<and> s_decode S data = Inr u0")
      case False
      with plain Cons.prems x show ?thesis
        by (intro exI [of _ "[]"]) (auto simp: applyYAML_def recorded_def split: sum.splits)
    next
      case True
      then obtain data u0 where f: "s_read_file S (''assets/'' @ n) = Inr data" "s_decode S data = Inr u0" by blast
      obtain e1 c1 where p: "s_patch S c (in_namespace ns u0) = (e1, c1)" by (metis surj_pair)
      have rp: "s_patch (recorded S) (c, l) (in_namespace ns u0) = (e1, (c1, l @ [Applied (in_namespace ns u0)]))"
        and rf: "s_read_file (recorded S) = s_read_file S" "s_decode (recorded S) = s_decode S"
        using p by (simp_all add: recorded_def)
      note step = applyYAML_def [folded in_namespace_def]
      show ?thesis
      proof (cases e1)
        case None
        with plain Cons.prems x f p have "apply_entries S ns es c1 = (e, c')" by (simp add: step Let_def)
        from Cons.IH [OF this, of "l @ [Applied (in_namespace ns u0)]"] obtain us where
          us: "apply_entries (recorded S) ns es (c1, l @ [Applied (in_namespace ns u0)])
              = (e, (c', (l @ [Applied (in_namespace ns u0)]) @ map Applied us))"
            "e = None \<longrightarrow> list_all2 (asset_object S ns) (asset_names es) us" by blast
        have "asset_object S ns n (in_namespace ns u0)" using f by (auto simp: asset_object_def)
        with us plain x f None rp rf names show ?thesis
          by (intro exI [of _ "in_namespace ns u0 # us"]) (simp add: step Let_def)
      next
        case (Some err)
        with plain Cons.prems x f p rp rf show ?thesis
          by (intro exI [of _ "[in_namespace ns u0]"]) (auto simp: step Let_def)
      qed
    qed
  qed
qed

lemma recorded_assets:
  assumes "ApplyAssets S ns c = (e, c')"
  shows "\<exists>us. ApplyAssets (recorded S) ns (c, l) = (e, (c', l @ map Applied us))
    \<and> (e = None \<longrightarrow> (\<exists>es. s_read_dir S = Inr es \<and> list_all2 (asset_object S ns) (asset_names es) us))"
proof (cases "s_read_dir S")
  case (Inl err)
  with assms show ?thesis by (intro exI [of _ "[]"]) (auto simp: ApplyAssets_def recorded_def)
next
  case (Inr es)
  then have r: "s_read_dir (recorded S) = Inr es" by (simp add: recorded_def)
  from Inr assms have "apply_entries S ns es c = (e, c')" by (simp add: ApplyAssets_def)
  from recorded_entries [OF this, of l] Inr show ?thesis by (simp add: ApplyAssets_def r)
qed

lemma Run_trace:
  fixes S :: "'c site"
  assumes due: "due = install_plan (default_chart opts) (detectInstalled S c)"
  obtains r c' calls us where "Run S opts c = (r, c')"
    and "Run (recorded S) opts (c, []) = (r, (c', map HelmCall calls @ map Applied us))"
    and "prefix calls (map helm_args due)"
    and "\<not> s_helm_in_path S \<longrightarrow> calls = [] \<and> us = [] \<and> r = Inl HelmNotInPath"
    and "us \<noteq> [] \<longrightarrow> calls = map helm_args due \<and> \<not> o_DryRun opts"
    and "\<not> isl r \<longrightarrow> calls = map helm_args due \<and> (o_DryRun opts
        \<or> (\<exists>es. s_read_dir S = Inr es \<and> list_all2 (asset_object S (o_Namespace opts)) (asset_names es) us))"
proof (cases "s_helm_in_path S")
  case False
  then show ?thesis by (intro that [of _ _ "[]" "[]"]) (auto simp: Run_def recorded_def isl_def)
next
  case True
  then have True': "s_helm_in_path (recorded S)" by (simp add: recorded_def)
  obtain e c1 where i: "install_all S due c = (e, c1)" by (metis surj_pair)
  from recorded_install [OF i, of "[]"] obtain k where
    k: "install_all (recorded S) due (c, []) = (e, (c1, map HelmCall (take k (map helm_args due))))"
      "e = None \<longrightarrow> k = length due" by auto
  note run = Run_plan [OF True, of opts c, unfolded Let_def, folded due, unfolded i]
  note rrun = Run_plan [OF True', of opts "(c, [])", unfolded Let_def recorded_detect, folded due, unfolded k(1)]
  obtain e2 c2 where a: "ApplyAssets S (o_Namespace opts) c1 = (e2, c2)" by (metis surj_pair)
  from recorded_assets [OF a, of "map HelmCall (map helm_args due)"] obtain us where
    us: "ApplyAssets (recorded S) (o_Namespace opts) (c1, map HelmCall (map helm_args due))
      = (e2, (c2, map HelmCall (map helm_args due) @ map Applied us))"
      "e2 = None \<longrightarrow> (\<exists>es. s_read_dir S = Inr es
        \<and> list_all2 (asset_object S (o_Namespace opts)) (asset_names es) us)" by blast
  show ?thesis
  proof (cases "e = None \<and> \<not> o_DryRun opts")
    case False
    with True run rrun k(2) show ?thesis
      by (intro that [of "fst (Run S opts c)" c1 "take k (map helm_args due)" "[]"])
        (auto simp: take_is_prefix split: option.splits)
  next
    case go: True
    with True run rrun k us a show ?thesis
      by (intro that [of "fst (Run S opts c)" c2 "map helm_args due" us]) (auto split: option.splits)
  qed
qed

text \<open>C30 What an install does to the world, in order: it calls Helm for the releases that are due, a prefix of them
  in the order Prometheus, GPU operator, KubeFisher, and then applies objects; nothing else. Prometheus is due unless
  it was found or is to be skipped, the GPU operator when there are GPU nodes and no DCGM exporter was found, KubeFisher
  unless its cost patcher was found; what was found is decided once, before the first call. An install that ends well
  has called Helm for all that are due and applied the object of each embedded file, or none in a dry run. Objects are
  only applied after all due calls, and without a helm binary nothing happens.\<close>

theorem Run_carries_out_plan:
  fixes S :: "'c site"
  shows "let st = detectInstalled S c; chart = default_chart opts;
      due = (if Prometheus st \<or> o_SkipPrometheus opts then [] else [prometheus_release chart])
        @ (if GPUNodeCount st = 0 \<or> DCGM st then [] else [gpu_operator_release chart])
        @ (if CostPatcher st then [] else [kubefisher_release chart])
    in \<exists>r c' calls us. Run S opts c = (r, c')
    \<and> Run (recorded S) opts (c, []) = (r, (c', map HelmCall calls @ map Applied us))
    \<and> prefix calls (map helm_args due)
    \<and> (\<not> s_helm_in_path S \<longrightarrow> calls = [] \<and> us = [] \<and> r = Inl HelmNotInPath)
    \<and> (us \<noteq> [] \<longrightarrow> calls = map helm_args due \<and> \<not> o_DryRun opts)
    \<and> (\<not> isl r \<longrightarrow> calls = map helm_args due \<and> (o_DryRun opts
        \<or> (\<exists>es. s_read_dir S = Inr es \<and> list_all2 (asset_object S (o_Namespace opts)) (asset_names es) us)))"
proof -
  let ?opts = "default_chart opts" and ?st = "detectInstalled S c"
  have due: "(if Prometheus ?st \<or> o_SkipPrometheus opts then [] else [prometheus_release ?opts])
      @ (if GPUNodeCount ?st = 0 \<or> DCGM ?st then [] else [gpu_operator_release ?opts])
      @ (if CostPatcher ?st then [] else [kubefisher_release ?opts]) = install_plan ?opts ?st"
    by (simp add: install_plan_def default_chart_def)
  show ?thesis
    unfolding Let_def due by (rule Run_trace [OF refl, of S opts c], intro exI conjI, assumption+)
qed

section \<open>Dry runs\<close>

lemma plan_dry: "h \<in> set (install_plan opts st) \<Longrightarrow> h_DryRun h = o_DryRun opts"
  by (auto simp: install_plan_def prometheus_release_def gpu_operator_release_def kubefisher_release_def
      split: if_splits)

lemma HelmInstallIfAbsent_world: "snd (HelmInstallIfAbsent S h c) = snd (s_helm S c (helm_args h))"
  by (simp add: HelmInstallIfAbsent_def Let_def split: prod.splits option.splits)

lemma install_all_dry:
  assumes "\<And>c args. ''--dry-run'' \<in> set args \<Longrightarrow> snd (s_helm S c args) = c"
    and "\<forall>h \<in> set hs. h_DryRun h"
  shows "snd (install_all S hs c) = c"
  using assms(2)
proof (induction hs)
  case (Cons h hs)
  then have "''--dry-run'' \<in> set (helm_args h)" by (simp add: helm_args_def)
  then have "snd (HelmInstallIfAbsent S h c) = c" by (simp add: HelmInstallIfAbsent_world assms(1))
  with Cons show ?case by (auto split: prod.splits option.splits)
qed simp

text \<open>C31 A dry run leaves the world as it was, whatever is installed and however it ends: every Helm call carries
  the flag under which Helm changes nothing, and the assets are not applied.\<close>

theorem dry_run_changes_nothing:
  assumes "\<And>c args. ''--dry-run'' \<in> set args \<Longrightarrow> snd (s_helm S c args) = c" and "o_DryRun opts"
  shows "snd (Run S opts c) = c"
proof (cases "s_helm_in_path S")
  case True
  have "snd (install_all S (install_plan (default_chart opts) (detectInstalled S c)) c) = c"
    by (intro install_all_dry assms(1)) (auto simp: plan_dry assms(2))
  then show ?thesis
    using assms(2) Run_plan [OF True, of opts c]
    by (auto simp: Let_def split: prod.splits option.splits)
qed (simp add: Run_def)

definition demo_asset :: "string \<Rightarrow> unstr" where
  "demo_asset name = \<lparr>u_gvk = \<lparr>gvk_group = '''', gvk_version = ''v1'', gvk_kind = ''ConfigMap''\<rparr>,
     u_namespace = '''', u_name = name, u_annotations = fmempty, u_object = fmempty\<rparr>"

definition demo_site :: "string list \<Rightarrow> action list site" where
  "demo_site present = \<lparr>s_helm_in_path = True, s_list = (\<lambda>c k sel. Inr present), s_nodes = (\<lambda>c. Inr []),
     s_preferred = (\<lambda>c. Inr []),
     s_helm = (\<lambda>c args. (\<lparr>he_error = None, he_stdout = '''', he_stderr = ''''\<rparr>,
       if List.member args ''--dry-run'' then c else c @ [HelmCall args])),
     s_read_dir = Inr [(''gpu-pricing-configmap.yaml'', False), (''prometheusrule.yaml'', False)],
     s_read_file = (\<lambda>path. Inr path), s_decode = (\<lambda>data. Inr (demo_asset data)),
     s_patch = (\<lambda>c obj. (None, c @ [Applied obj]))\<rparr>"

definition demo_install :: install_options where
  "demo_install = \<lparr>o_Namespace = ''kubefisher-system'', o_DryRun = True, o_SkipPrometheus = False, o_ChartPath = ''''\<rparr>"

theorem dry_run_changes_nothing_witness: "snd (Run (demo_site []) demo_install []) = []"
  by (rule dry_run_changes_nothing) (auto simp: demo_site_def demo_install_def)

theorem Run_carries_out_plan_witness:
  "\<exists>us. snd (snd (Run (recorded (demo_site [])) (demo_install\<lparr>o_DryRun := False\<rparr>) ([], []))) =
     map HelmCall (map helm_args [prometheus_release (default_chart (demo_install\<lparr>o_DryRun := False\<rparr>)),
       kubefisher_release (default_chart (demo_install\<lparr>o_DryRun := False\<rparr>))]) @ map Applied us
   \<and> list_all2 (asset_object (demo_site []) ''kubefisher-system'') [''gpu-pricing-configmap.yaml'', ''prometheusrule.yaml''] us"
proof -
  let ?opts = "demo_install\<lparr>o_DryRun := False\<rparr>"
  have st: "\<not> Prometheus (detectInstalled (demo_site []) [])" "GPUNodeCount (detectInstalled (demo_site []) []) = 0"
    "\<not> CostPatcher (detectInstalled (demo_site []) [])"
    by (simp_all add: detectInstalled_def detectServingCRDs_def detectPrometheus_def detectDCGM_def
      detectCostPatcher_def countGPUNodes_def demo_site_def)
  have ok: "\<not> isl (fst (Run (demo_site []) ?opts []))"
    using Run_plan [of "demo_site []" ?opts "[]"]
    by (simp add: install_plan_def st HelmInstallIfAbsent_def demo_site_def demo_install_def ApplyAssets_def
      applyYAML_def Let_def)
  have o: "\<not> o_SkipPrometheus ?opts" "\<not> o_DryRun ?opts" "o_Namespace ?opts = ''kubefisher-system''"
    "s_read_dir (demo_site []) = Inr [(''gpu-pricing-configmap.yaml'', False), (''prometheusrule.yaml'', False)]"
    by (simp_all add: demo_install_def demo_site_def)
  from Run_carries_out_plan [of "demo_site []" "[]" ?opts] ok
  show ?thesis
    by (auto simp: Let_def st o asset_names_def)
qed

section \<open>Repeating an install\<close>

text \<open>Applying the objects of the embedded files one after the other.\<close>

lemma apply_entries_patches:
  assumes "\<And>n. n \<in> set (asset_names es) \<Longrightarrow> \<exists>data. s_read_file S (''assets/'' @ n) = Inr data \<and> s_decode S data = Inr (obj n)"
    and "\<And>c u. fst (s_patch S c u) = None"
  shows "apply_entries S ns es c = (None, fold (\<lambda>n c. snd (s_patch S c (in_namespace ns (obj n)))) (asset_names es) c)"
  using assms(1)
proof (induction es arbitrary: c)
  case (Cons e es)
  obtain n d where e: "e = (n, d)" by (cases e)
  have IH: "apply_entries S ns es c = (None, fold (\<lambda>n c. snd (s_patch S c (in_namespace ns (obj n)))) (asset_names es) c)" for c
    using Cons.prems by (intro Cons.IH) (auto simp: asset_names_def split: if_splits)
  show ?case
  proof (cases d)
    case False
    obtain data where "s_read_file S (''assets/'' @ n) = Inr data" "s_decode S data = Inr (obj n)"
      using Cons.prems [of n] False e by (auto simp: asset_names_def)
    then show ?thesis
      using False e assms(2) [of c "in_namespace ns (obj n)"]
      by (auto simp: IH asset_names_def applyYAML_def in_namespace_def Let_def split: prod.splits)
  qed (simp add: e IH, simp add: asset_names_def)
qed (simp add: asset_names_def)

text \<open>Repeating an install calls Helm for nothing, but applies every asset again: when detection finds
  Prometheus, the cost patcher, and DCGM or no GPU node, the run consists of the forced applies of all embedded
  objects in the order of their files, each in the target namespace unless its file names one. A price list edited
  in place is therefore overwritten by the embedded example.\<close>

theorem repeated_install_reapplies_assets:
  assumes "s_helm_in_path S" and "\<not> o_DryRun opts"
    and "detectPrometheus S c" and "detectCostPatcher S c" and "detectDCGM S c \<or> countGPUNodes S c = 0"
    and "s_read_dir S = Inr es"
    and "\<And>n. n \<in> set (asset_names es) \<Longrightarrow> \<exists>data. s_read_file S (''assets/'' @ n) = Inr data \<and> s_decode S data = Inr (obj n)"
    and "\<And>c u. fst (s_patch S c u) = None"
  shows "Run S opts c = (Inr (printSummary (detectInstalled S c)),
    fold (\<lambda>n c. snd (s_patch S c (in_namespace (o_Namespace opts) (obj n)))) (asset_names es) c)"
proof -
  have "install_plan (default_chart opts) (detectInstalled S c) = []"
    using assms(3-5) by (auto simp: install_plan_def detectInstalled_def Let_def split: prod.splits)
  then show ?thesis
    using assms(2) Run_plan [OF assms(1), of opts c]
    by (simp add: Let_def ApplyAssets_def assms(6) apply_entries_patches [OF assms(7,8)])
qed

theorem repeated_install_reapplies_assets_witness:
  "snd (Run (demo_site [''x'']) (demo_install\<lparr>o_DryRun := False\<rparr>) []) =
     [Applied (in_namespace ''kubefisher-system'' (demo_asset ''assets/gpu-pricing-configmap.yaml'')),
      Applied (in_namespace ''kubefisher-system'' (demo_asset ''assets/prometheusrule.yaml''))]"
  using repeated_install_reapplies_assets [of "demo_site [''x'']" "demo_install\<lparr>o_DryRun := False\<rparr>" "[]"
      "[(''gpu-pricing-configmap.yaml'', False), (''prometheusrule.yaml'', False)]" "\<lambda>n. demo_asset (''assets/'' @ n)"]
  by (simp add: demo_site_def demo_install_def detectPrometheus_def detectCostPatcher_def countGPUNodes_def
      asset_names_def)

end
