(* ===== verification/Commands.thy ===== *)
theory Commands
  imports Workload QuotaCommand
begin

text \<open>
  The remaining commands of \<^verbatim>\<open>internal/cli/kubefisher\<close>: \<^verbatim>\<open>status\<close> (\<^verbatim>\<open>status_cmd.go\<close>), \<^verbatim>\<open>logs\<close>
  (\<^verbatim>\<open>logs_cmd.go\<close>), \<^verbatim>\<open>cost\<close> with its watch loop (\<^verbatim>\<open>cost_cmd.go\<close>) and \<^verbatim>\<open>version\<close> (\<^verbatim>\<open>version_cmd.go\<close>).

  The namespace is the result of \<^verbatim>\<open>ResolveNamespace\<close>; the first error of the client constructors, if any,
  is an argument. A command's output is a list of lines or a table. The watch loop takes the rows of each round and
  the end of its context as functions of the round; the log stream is a parameter.
\<close>

section \<open>Status\<close>

datatype status_error = StatusNamespace string | StatusClient string | StatusFind find_error

definition cli_dashIfEmpty :: "string \<Rightarrow> string" where
  "cli_dashIfEmpty s = (if TrimSpace s = '''' \<or> s = dash then dash else s)"

definition formatWorkloadPhase :: "paint \<Rightarrow> string \<Rightarrow> bool \<Rightarrow> string" where
  "formatWorkloadPhase paint ph colorize = (if \<not> colorize then ph
     else let q = lower_to_ascii ph in
       if q = ''ready'' \<or> q = ''available'' \<or> q = ''running'' \<or> q = ''succeeded'' then paint [''FgGreen''] ph
       else if q = ''progressing'' \<or> q = ''pending'' then paint [''FgYellow''] ph
       else paint [''FgRed''] ph)"

definition printStatus :: "paint \<Rightarrow> workload_status \<Rightarrow> bool \<Rightarrow> string list" where
  "printStatus paint st colorize =
    [''Name:          '' @ ws_name st,
     ''Namespace:     '' @ ws_namespace st,
     ''Kind:          '' @ ws_kind st,
     ''Platform:      '' @ ws_platform st,
     ''WorkloadType:  '' @ ws_workloadType st,
     ''Phase:         '' @ formatWorkloadPhase paint (ws_phase st) colorize,
     ''Replicas:      '' @ ws_replicas st,
     ''Endpoint:      '' @ cli_dashIfEmpty (ws_endpoint st),
     ''Cost/hr:       '' @ ws_costPerHour st,
     ''Cost/token:    '' @ ws_costPerToken st,
     ''Last-updated:  '' @ ws_lastUpdated st]"

definition runStatus ::
  "lib \<Rightarrow> paint \<Rightarrow> bool \<Rightarrow> string + string \<Rightarrow> string option \<Rightarrow> disc_answer \<Rightarrow> disc_answer \<Rightarrow> cluster_view \<Rightarrow> string
     \<Rightarrow> status_error + string list" where
  "runStatus L paint terminal resolved client_error d1 d2 V name =
    (case resolved of Inl err \<Rightarrow> Inl (StatusNamespace err)
     | Inr ns \<Rightarrow> (case client_error of Some err \<Rightarrow> Inl (StatusClient err)
       | None \<Rightarrow> (case FindResource L d1 d2 V name ns of Inl err \<Rightarrow> Inl (StatusFind err)
         | Inr st \<Rightarrow> Inr (printStatus paint (ResolveDeploymentEndpoint V st) terminal))))"

section \<open>Logs\<close>

record log_answer =
  la_open :: "string option"
  la_copy :: "string option"
  la_cancelled :: bool

type_synonym log_api = "string \<Rightarrow> string \<Rightarrow> string option \<Rightarrow> bool \<Rightarrow> log_answer"

datatype logs_error = LogsNamespace string | LogsClient string | LogsFind find_error | LogsPods pods_error
  | PodNotFound string string string string | OpenStream string string string | CopyStream string

definition joinPodNames :: "pod list \<Rightarrow> string" where
  "joinPodNames pods = join '', '' (map p_name pods)"

text \<open>An empty container name leaves the choice to the server.\<close>

definition streamPodLogs :: "log_api \<Rightarrow> string \<Rightarrow> string \<Rightarrow> string \<Rightarrow> bool \<Rightarrow> logs_error option" where
  "streamPodLogs api ns podName container follow =
    (let a = api ns podName (if container \<noteq> '''' then Some container else None) follow in
     case la_open a of Some err \<Rightarrow> Some (OpenStream ns podName err)
     | None \<Rightarrow> (case la_copy a of None \<Rightarrow> None
       | Some err \<Rightarrow> if la_cancelled a then None else Some (CopyStream err)))"

definition log_target :: "workload_status \<Rightarrow> string \<Rightarrow> pod list \<Rightarrow> logs_error + pod" where
  "log_target st podName pods = (if podName \<noteq> ''''
     then (case List.find (\<lambda>p. p_name p = podName) pods of Some p \<Rightarrow> Inr p
       | None \<Rightarrow> Inl (PodNotFound podName (ws_kind st) (ws_name st) (joinPodNames pods)))
     else Inr (hd pods))"

text \<open>The pod whose logs were streamed, if the command came that far, and the error it ends with.\<close>

definition runLogs ::
  "lib \<Rightarrow> log_api \<Rightarrow> string + string \<Rightarrow> string option \<Rightarrow> disc_answer \<Rightarrow> disc_answer \<Rightarrow> cluster_view \<Rightarrow> string
     \<Rightarrow> bool \<Rightarrow> string \<Rightarrow> string \<Rightarrow> pod option \<times> logs_error option" where
  "runLogs L api resolved client_error d1 d2 V name follow container podName =
    (case resolved of Inl err \<Rightarrow> (None, Some (LogsNamespace err))
     | Inr ns \<Rightarrow> (case client_error of Some err \<Rightarrow> (None, Some (LogsClient err))
       | None \<Rightarrow> (case FindResource L d1 d2 V name ns of Inl err \<Rightarrow> (None, Some (LogsFind err))
         | Inr st \<Rightarrow> (case FindPodsForResource V st of Inl err \<Rightarrow> (None, Some (LogsPods err))
           | Inr pods \<Rightarrow> (case log_target st podName pods of Inl err \<Rightarrow> (None, Some err)
             | Inr p \<Rightarrow> (Some p, (case streamPodLogs api ns (p_name p) container follow of None \<Rightarrow> None
                 | Some err \<Rightarrow> if la_cancelled (api ns (p_name p) (if container \<noteq> '''' then Some container else None) follow)
                     then None else Some err)))))))"

section \<open>Cost\<close>

datatype cost_error = CostNamespace string | CostClient string | CollectFailed string | CostOutput string
  | CostEncode string | WatchOutput | WatchEnded string

datatype cost_output = CostTableText cost_table | CostJSON "amap list"

definition render_costs :: "paint \<Rightarrow> bool \<Rightarrow> string \<Rightarrow> string + cost_row list \<Rightarrow> cost_error + cost_output" where
  "render_costs paint terminal flag collected = (case collected of Inl err \<Rightarrow> Inl (CollectFailed err)
   | Inr rows \<Rightarrow> (if output_format flag = ''json''
         then (case RenderCostJSON rows of Inl err \<Rightarrow> Inl (CostEncode err) | Inr docs \<Rightarrow> Inr (CostJSON docs))
       else if output_format flag = ''table'' then Inr (CostTableText (RenderCostTable paint terminal rows))
       else Inl (CostOutput flag)))"

text \<open>The loop of \<^verbatim>\<open>--watch\<close>: the frames shown and the error that ends it; \<open>None\<close> if it never ends.\<close>

partial_function (option) watch_costs ::
  "(nat \<Rightarrow> cost_error + cost_output) \<Rightarrow> (nat \<Rightarrow> bool) \<Rightarrow> string \<Rightarrow> nat \<Rightarrow> cost_output list
     \<Rightarrow> (cost_output list \<times> cost_error) option" where
  "watch_costs render ended ctx_err i frames = (case render i of
     Inl err \<Rightarrow> Some (frames, err)
   | Inr frame \<Rightarrow> if ended i then Some (frames @ [frame], WatchEnded ctx_err)
       else watch_costs render ended ctx_err (Suc i) (frames @ [frame]))"

definition runCost ::
  "paint \<Rightarrow> bool \<Rightarrow> string + string \<Rightarrow> string option \<Rightarrow> (string \<Rightarrow> nat \<Rightarrow> string + cost_row list)
     \<Rightarrow> (nat \<Rightarrow> bool) \<Rightarrow> string \<Rightarrow> string \<Rightarrow> bool \<Rightarrow> (cost_output list \<times> cost_error option) option" where
  "runCost paint terminal resolved client_error collect ended ctx_err flag watch =
    (case resolved of Inl err \<Rightarrow> Some ([], Some (CostNamespace err))
     | Inr ns \<Rightarrow> (case client_error of Some err \<Rightarrow> Some ([], Some (CostClient err))
       | None \<Rightarrow> (let render = (\<lambda>i. render_costs paint terminal flag (collect ns i)) in
           if \<not> watch then Some (case render 0 of Inl err \<Rightarrow> ([], Some err) | Inr out \<Rightarrow> ([out], None))
           else if output_format flag \<noteq> ''table'' then Some ([], Some WatchOutput)
           else map_option (\<lambda>(frames, err). (frames, Some err)) (watch_costs render ended ctx_err 0 []))))"

section \<open>Version\<close>

text \<open>What lies before and after the last occurrence of a character.\<close>

definition before_last :: "char \<Rightarrow> string \<Rightarrow> string" where
  "before_last x s = rev (drop 1 (dropWhile (\<lambda>y. y \<noteq> x) (rev s)))"

definition after_last :: "char \<Rightarrow> string \<Rightarrow> string" where
  "after_last x s = rev (takeWhile (\<lambda>y. y \<noteq> x) (rev s))"

definition imageTag :: "string \<Rightarrow> string" where
  "imageTag ref0 = (let ref1 = (if CHR ''@'' \<in> set ref0 then before_last CHR ''@'' ref0 else ref0) in
     if CHR '':'' \<in> set ref1 then after_last CHR '':'' ref1 else ref1)"

fun first_tag :: "string list \<Rightarrow> string option" where
  "first_tag [] = None"
| "first_tag (img # imgs) = (if imageTag img \<noteq> '''' then Some (imageTag img) else first_tag imgs)"

text \<open>The Deployments of the operator, each as the images of its containers.\<close>

definition operatorImageTag :: "string + string list list \<Rightarrow> string + string" where
  "operatorImageTag listed_images = (case listed_images of
     Inl err \<Rightarrow> Inl (''list operator deployments: '' @ err)
   | Inr ds \<Rightarrow> (case first_tag (concat ds) of Some tag \<Rightarrow> Inr tag
       | None \<Rightarrow> Inl ''operator deployment not found''))"

definition version_lines ::
  "(string \<Rightarrow> string) \<Rightarrow> string \<Rightarrow> string \<Rightarrow> string option \<Rightarrow> (string \<Rightarrow> string + string list list) \<Rightarrow> string list" where
  "version_lines qt version flag client_error list_images =
    (let ns = (if flag = '''' then ''kubefisher-system'' else flag) in
     (''kubefisher: '' @ version) # (case client_error of
         Some err \<Rightarrow> [''operator:    (could not connect to cluster: '' @ err @ '')'']
       | None \<Rightarrow> (case operatorImageTag (list_images ns) of
           Inl _ \<Rightarrow> [''operator:    (not installed in namespace '' @ qt ns @ '')'']
         | Inr tag \<Rightarrow> [''operator:    '' @ tag])))"

section \<open>Watching costs\<close>

text \<open>A round goes on when its frame could be rendered and the context has not ended.\<close>

definition goes_on :: "(nat \<Rightarrow> cost_error + cost_output) \<Rightarrow> (nat \<Rightarrow> bool) \<Rightarrow> nat \<Rightarrow> bool" where
  "goes_on render ended i \<longleftrightarrow> \<not> isl (render i) \<and> \<not> ended i"

definition frames_until :: "(nat \<Rightarrow> cost_error + cost_output) \<Rightarrow> nat \<Rightarrow> cost_output list" where
  "frames_until render n = map (\<lambda>i. projr (render i)) [0..<n]"

text \<open>What the last round leaves.\<close>

definition watch_result ::
  "(nat \<Rightarrow> cost_error + cost_output) \<Rightarrow> string \<Rightarrow> nat \<Rightarrow> cost_output list \<times> cost_error" where
  "watch_result render ctx_err n = (case render n of
     Inl err \<Rightarrow> (frames_until render n, err)
   | Inr frame \<Rightarrow> (frames_until render (Suc n), WatchEnded ctx_err))"

lemma watch_step:
  assumes "fs = frames_until r i"
  shows "watch_costs r d e i fs = (if goes_on r d i then watch_costs r d e (Suc i) (frames_until r (Suc i))
    else Some (watch_result r e i))"
  by (subst watch_costs.simps)
    (auto simp: assms goes_on_def watch_result_def frames_until_def split: sum.split)

lemma watch_skip: "\<forall>j<n. goes_on r d j \<Longrightarrow> watch_costs r d e 0 [] = watch_costs r d e n (frames_until r n)"
proof (induction n)
  case 0
  then show ?case by (simp add: frames_until_def)
next
  case (Suc n)
  then have "watch_costs r d e 0 [] = watch_costs r d e n (frames_until r n)" by simp
  also have "\<dots> = watch_costs r d e (Suc n) (frames_until r (Suc n))"
    using Suc.prems by (simp add: watch_step [OF refl])
  finally show ?case .
qed

lemma watch_stops: "watch_costs r d e i fs = Some x \<Longrightarrow> \<exists>n\<ge>i. \<not> goes_on r d n"
proof (erule watch_costs.raw_induct [rotated])
  fix watch :: "(nat \<Rightarrow> cost_error + cost_output) \<Rightarrow> (nat \<Rightarrow> bool) \<Rightarrow> string \<Rightarrow> nat \<Rightarrow> cost_output list
      \<Rightarrow> (cost_output list \<times> cost_error) option" and r d e i fs x
  assume IH: "\<And>r d e i fs x. watch r d e i fs = Some x \<Longrightarrow> \<exists>n\<ge>i. \<not> goes_on r d n"
    and step: "(case r i of Inl err \<Rightarrow> Some (fs, err)
      | Inr frame \<Rightarrow> if d i then Some (fs @ [frame], WatchEnded e) else watch r d e (Suc i) (fs @ [frame])) = Some x"
  show "\<exists>n\<ge>i. \<not> goes_on r d n"
  proof (cases "goes_on r d i")
    case True
    then obtain frame where "watch r d e (Suc i) (fs @ [frame]) = Some x"
      using step by (auto simp: goes_on_def split: sum.splits)
    from IH [OF this] show ?thesis by (meson Suc_leD)
  qed blast
qed

text \<open>Watching shows every frame once, in order, and always ends with an error: it stops in the first round
  that cannot be rendered, with that round's error and the frames before it, or in the first round after which the
  context has ended, with that round's frame as the last. It runs for ever exactly when neither happens.\<close>

theorem watch_costs_frames:
  "(watch_costs render ended ctx_err 0 [] = None \<longleftrightarrow> (\<forall>n. goes_on render ended n))
   \<and> (\<forall>n. \<not> goes_on render ended n \<and> (\<forall>j<n. goes_on render ended j)
        \<longrightarrow> watch_costs render ended ctx_err 0 [] = Some (watch_result render ctx_err n))"
proof -
  let ?w = "watch_costs render ended ctx_err 0 []"
  have first: "?w = Some (watch_result render ctx_err n)"
    if "\<not> goes_on render ended n" "\<forall>j<n. goes_on render ended j" for n
    using watch_skip [OF that(2), of ctx_err] that(1) by (simp add: watch_step [OF refl])
  moreover have "?w \<noteq> None" if "\<not> goes_on render ended n" for n
    using that first exists_least_iff [of "\<lambda>n. \<not> goes_on render ended n"] by blast
  moreover have "?w = None" if "\<forall>n. goes_on render ended n"
    using watch_stops [of render ended ctx_err 0 "[]"] that by (cases ?w) auto
  ultimately show ?thesis by blast
qed

theorem watch_costs_frames_witness:
  "watch_costs (\<lambda>i. if i < 2 then Inr (CostJSON []) else Inl (CollectFailed ''gone'')) (\<lambda>_. False) '''' 0 []
     = Some ([CostJSON [], CostJSON []], CollectFailed ''gone'')"
proof -
  let ?r = "\<lambda>i::nat. if i < 2 then Inr (CostJSON []) else Inl (CollectFailed ''gone'')"
  have "\<not> goes_on ?r (\<lambda>_. False) 2 \<and> (\<forall>j<2. goes_on ?r (\<lambda>_. False) j)"
    by (auto simp: goes_on_def)
  with watch_costs_frames [of ?r "\<lambda>_. False" "''''"]
  have "watch_costs ?r (\<lambda>_. False) '''' 0 [] = Some (watch_result ?r '''' 2)" by blast
  then show ?thesis by (simp add: watch_result_def frames_until_def numeral_2_eq_2)
qed

section \<open>Image tags\<close>

lemma after_last_append: "x \<notin> set t \<Longrightarrow> after_last x (s @ x # t) = t"
  by (simp add: after_last_def, subst takeWhile_append2) auto

lemma before_last_append: "x \<notin> set t \<Longrightarrow> before_last x (s @ x # t) = s"
  by (simp add: before_last_def, subst dropWhile_append2) auto

text \<open>The tag of an image reference is found, with or without a digest, whatever registry, port and path
  come before it.\<close>

theorem imageTag_reference:
  assumes "CHR '':'' \<notin> set tag" and "CHR ''@'' \<notin> set tag"
    and "CHR ''@'' \<notin> set path" and "CHR ''@'' \<notin> set digest"
  shows "imageTag (path @ CHR '':'' # tag) = tag
    \<and> imageTag (path @ CHR '':'' # tag @ CHR ''@'' # digest) = tag"
proof -
  have "before_last CHR ''@'' ((path @ CHR '':'' # tag) @ CHR ''@'' # digest) = path @ CHR '':'' # tag"
    by (rule before_last_append [OF assms(4)])
  then show ?thesis
    using assms by (simp add: imageTag_def Let_def after_last_append)
qed

theorem imageTag_reference_witness:
  "imageTag ''ghcr.io:443/kubefisher/operator:v1.2@sha256:ab'' = ''v1.2''"
  using imageTag_reference [of "''v1.2''" "''ghcr.io:443/kubefisher/operator''" "''sha256:ab''"] by simp

text \<open>Without a tag the port of the registry is taken for one.\<close>

lemma imageTag_port: "imageTag ''localhost:5000/operator'' = ''5000/operator''"
  by (simp add: imageTag_def after_last_def)

section \<open>Listed workloads are found\<close>

text \<open>The table and the lookup see the same cluster: what a list holds, a get finds.\<close>

definition same_cluster :: "cost_source \<Rightarrow> cluster_view \<Rightarrow> bool" where
  "same_cluster src V \<longleftrightarrow>
     (\<forall>d \<in> set (listed (cs_deployments src)). cv_deployment V (tw_namespace d) (tw_name d) \<noteq> Inl ErrNotFound)
   \<and> (\<forall>d \<in> set (listed (cs_statefulsets src)). cv_statefulset V (tw_namespace d) (tw_name d) \<noteq> Inl ErrNotFound)
   \<and> (\<forall>lg. cs_dynamic src = Some lg \<longrightarrow> (\<exists>get. cv_dynamic V = Some get
        \<and> (\<forall>g. \<forall>u \<in> set (listed (lg g)). get g (u_namespace u) (u_name u) \<noteq> Inl ErrNotFound)))"

lemma workload_row_sel [simp]:
  "cr_name (workload_row ns name kind l a n sp) = name" "cr_namespace (workload_row ns name kind l a n sp) = ns"
  by (simp_all add: workload_row_def split: prod.splits)

lemma typed_row_sel [simp]: "cr_name (typed_row k d) = tw_name d" "cr_namespace (typed_row k d) = tw_namespace d"
  by (simp_all add: typed_row_def)

lemma unstructured_row_source:
  "r \<in> set (unstructured_rows L g us) \<Longrightarrow> \<exists>u \<in> set us. cr_name r = u_name u \<and> cr_namespace r = u_namespace u"
  by (auto simp: unstructured_rows_def)

lemma qualifying_row_cases:
  assumes "r \<in> set (qualifying_rows L src)"
  obtains (deployment) d where "d \<in> set (listed (cs_deployments src))" "cr_name r = tw_name d" "cr_namespace r = tw_namespace d"
  | (statefulset) d where "d \<in> set (listed (cs_statefulsets src))" "cr_name r = tw_name d" "cr_namespace r = tw_namespace d"
  | (resource) lg cat g u where "cs_dynamic src = Some lg" "discoverCRDs L (cs_disc1 src) (cs_disc2 src) = Inr cat"
      "g \<in> set (catalog_gvrs cat)" "u \<in> set (listed (lg g))" "cr_name r = u_name u" "cr_namespace r = u_namespace u"
proof (cases "r \<in> set (deployment_rows (listed (cs_deployments src)) @ statefulset_rows (listed (cs_statefulsets src)))")
  case True
  with deployment statefulset show ?thesis by (auto simp: deployment_rows_def statefulset_rows_def)
next
  case False
  with assms have "r \<in> set (case (cs_dynamic src, discoverCRDs L (cs_disc1 src) (cs_disc2 src)) of
      (Some lg, Inr cat) \<Rightarrow> concat (map (\<lambda>g. unstructured_rows L g (listed (lg g))) (catalog_gvrs cat)) | _ \<Rightarrow> [])"
    by (simp add: qualifying_rows_def)
  then obtain lg cat where c: "cs_dynamic src = Some lg" "discoverCRDs L (cs_disc1 src) (cs_disc2 src) = Inr cat"
      "r \<in> set (concat (map (\<lambda>g. unstructured_rows L g (listed (lg g))) (catalog_gvrs cat)))"
    by (cases "cs_dynamic src"; cases "discoverCRDs L (cs_disc1 src) (cs_disc2 src)") auto
  then obtain g where g: "g \<in> set (catalog_gvrs cat)" "r \<in> set (unstructured_rows L g (listed (lg g)))" by auto
  from unstructured_row_source [OF g(2)] resource [OF c(1,2) g(1)] show ?thesis by blast
qed

lemma FindResource_ErrNotFound:
  assumes "FindResource L d1 d2 V name ns = Inl (ResourceNotFound n' ns')" and "discoverResources L d1 d2 = Inr cat"
  shows "cv_deployment V ns name = Inl ErrNotFound \<and> cv_statefulset V ns name = Inl ErrNotFound
    \<and> (\<forall>get. cv_dynamic V = Some get \<longrightarrow> (\<forall>g \<in> set (catalog_gvrs cat). get g ns name = Inl ErrNotFound))"
proof -
  have t: "find_typed V name ns = Inl (ResourceNotFound n' ns')"
    and d: "\<forall>get. cv_dynamic V = Some get \<longrightarrow> find_dynamic L get ns name (lookup_order cat) = None"
    using assms by (auto simp: FindResource_def split: option.splits sum.splits)
  have "fst ` set (lookup_order cat) = set (catalog_gvrs cat)"
    by (auto simp: lookup_order_def catalog_gvrs_def image_Un image_image)
  with d have "\<forall>get. cv_dynamic V = Some get \<longrightarrow> (\<forall>g \<in> set (catalog_gvrs cat). get g ns name = Inl ErrNotFound)"
    by (auto simp: find_dynamic_None simp flip: \<open>fst ` set (lookup_order cat) = set (catalog_gvrs cat)\<close>)
  with t show ?thesis by (auto simp: find_typed_def split: sum.splits kube_error.splits)
qed

text \<open>C26 Whatever the cost table lists, the status command finds: on the same cluster, looking up the name and
  namespace of a row of the table never reports that nothing was found.\<close>

theorem listed_workload_found:
  assumes "range_order order" and "sorts sort_slice" and "CollectCostRows L order sort_slice src = Inr rows"
    and "r \<in> set rows" and "same_cluster src V"
  shows "FindResource L (cs_disc1 src) (cs_disc2 src) V (cr_name r) (cr_namespace r) \<noteq> Inl (ResourceNotFound n ns)"
proof
  assume nf: "FindResource L (cs_disc1 src) (cs_disc2 src) V (cr_name r) (cr_namespace r) = Inl (ResourceNotFound n ns)"
  obtain cat where "discoverResources L (cs_disc1 src) (cs_disc2 src) = Inr cat"
    using assms(3) by (auto simp: CollectCostRows_def discoverResources_def split: sum.splits)
  note none = FindResource_ErrNotFound [OF nf this]
  from CollectCostRows_qualify [OF assms(1-4)] show False
  proof (cases rule: qualifying_row_cases)
    case (resource lg cat' g u)
    then have "cat' = cat"
      using \<open>discoverResources L (cs_disc1 src) (cs_disc2 src) = Inr cat\<close> by (simp add: discoverResources_def)
    with resource assms(5) none show False unfolding same_cluster_def by (metis (no_types))
  qed (use assms(5) none in \<open>auto simp: same_cluster_def\<close>)
qed

lemma demo_same_cluster: "same_cluster demo_source (view_of [])"
  by (simp add: same_cluster_def demo_source_def view_of_def listed_def demo_workload_def)

theorem listed_workload_found_witness:
  "FindResource std_lib (cs_disc1 demo_source) (cs_disc2 demo_source) (view_of [])
     (cr_name (typed_row ''Deployment'' demo_workload)) (cr_namespace (typed_row ''Deployment'' demo_workload))
     \<noteq> Inl (ResourceNotFound [] [])"
  by (rule listed_workload_found [OF demo_orders demo_collect _ demo_same_cluster]) simp

section \<open>Logs\<close>

text \<open>The logs streamed are those of a live pod of the workload looked up: the first one, or the one named by
  the flag.\<close>

theorem logs_pod_of_workload:
  assumes "fst (runLogs L api resolved client_error d1 d2 V name follow container podName) = Some p"
  shows "\<exists>ns st pods. resolved = Inr ns \<and> FindResource L d1 d2 V name ns = Inr st
    \<and> FindPodsForResource V st = Inr pods \<and> p \<in> set pods \<and> p_phase p \<in> {''Running'', ''Pending''}
    \<and> (if podName = '''' then p = hd pods else p_name p = podName)"
proof -
  obtain ns st pods where r: "resolved = Inr ns" "FindResource L d1 d2 V name ns = Inr st"
      "FindPodsForResource V st = Inr pods" and t: "log_target st podName pods = Inr p"
    using assms by (auto simp: runLogs_def split: sum.splits option.splits)
  have pods: "pods \<noteq> [] \<and> (\<forall>q \<in> set pods. p_phase q \<in> {''Running'', ''Pending''})"
    using r(3) by (auto simp: FindPodsForResource_def Let_def split: sum.splits if_splits)
  moreover have "p \<in> set pods \<and> (if podName = '''' then p = hd pods else p_name p = podName)"
    using t pods by (auto simp: log_target_def find_Some_iff split: if_splits option.splits)
  ultimately show ?thesis using r by blast
qed

lemma typed_status_kind: "ws_kind (typed_status k n d) = k"
  by (simp add: typed_status_def Let_def split: prod.splits)

lemma matching_one_label: "matching (one_label k v) p \<longleftrightarrow> fmlookup (p_labels p) k = Some v"
  by (auto simp: matching_def one_label_def fmpred_iff)

lemma view_of_sel:
  "cv_dynamic (view_of pods) = None"
  "cv_deployment (view_of pods) ns n = (if n = ''llm'' then Inr (demo_live ns n) else Inl ErrNotFound)"
  "cv_pods (view_of pods) ns selector = Inr (filter (\<lambda>p. p_namespace p = ns \<and> matching selector p) pods)"
  by (simp_all add: view_of_def)

definition demo_log_pod :: "string \<Rightarrow> pod" where
  "demo_log_pod n = \<lparr>p_namespace = ''ml'', p_name = n, p_labels = one_label ''app.kubernetes.io/name'' ''llm'',
     p_controller = None, p_containers = [], p_initContainers = [], p_phase = ''Running'', p_waiting = [],
     p_deleted = False\<rparr>"

theorem logs_pod_of_workload_witness:
  "p_name (the (fst (runLogs std_lib (\<lambda>ns p c f. \<lparr>la_open = None, la_copy = None, la_cancelled = False\<rparr>) (Inr ''ml'')
     None \<lparr>da_lists = [], da_error = None\<rparr> \<lparr>da_lists = [], da_error = None\<rparr>
     (view_of [demo_log_pod ''llm-a'', demo_log_pod ''llm-b'']) ''llm'' True '''' ''llm-b''))) = ''llm-b''"
proof -
  let ?r = "runLogs std_lib (\<lambda>ns p c f. \<lparr>la_open = None, la_copy = None, la_cancelled = False\<rparr>) (Inr ''ml'')
     None \<lparr>da_lists = [], da_error = None\<rparr> \<lparr>da_lists = [], da_error = None\<rparr>
     (view_of [demo_log_pod ''llm-a'', demo_log_pod ''llm-b'']) ''llm'' True '''' ''llm-b''"
  let ?V = "view_of [demo_log_pod ''llm-a'', demo_log_pod ''llm-b'']" and ?st = "statusFromDeployment (demo_live ''ml'' ''llm'')"
  have k: "ws_kind ?st = ''Deployment''" "ws_name ?st = ''llm''" "ws_namespace ?st = ''ml''"
    by (simp_all add: statusFromDeployment_def typed_status_kind) (simp_all add: demo_live_def)
  have f: "FindResource std_lib \<lparr>da_lists = [], da_error = None\<rparr> \<lparr>da_lists = [], da_error = None\<rparr> ?V ''llm'' ''ml'' = Inr ?st"
    by (simp only: FindResource_def demo_discovery sum.case view_of_sel bind.simps option.case find_typed_def simp_thms if_True)
  have "podLabelSelector ?V ?st = Inr (one_label ''app.kubernetes.io/name'' ''llm'')"
    by (simp add: podLabelSelector_def k view_of_sel typed_selector_def) (simp add: demo_live_def)
  then have "FindPodsForResource ?V ?st = Inr [demo_log_pod ''llm-a'', demo_log_pod ''llm-b'']"
    by (simp add: FindPodsForResource_def k view_of_sel matching_one_label)
      (simp add: demo_log_pod_def one_label_def Let_def)
  with f have "fst ?r = Some (demo_log_pod ''llm-b'')"
    by (simp add: runLogs_def log_target_def) (simp add: demo_log_pod_def)
  from logs_pod_of_workload [OF this] this show ?thesis by auto
qed

section \<open>Costs that JSON cannot write\<close>

lemma NaN_read: "read_cost m k = Some NaN" if "mhas m k" "mget m k = formatCost NaN"
  using that read_formatCost [of NaN] by (simp add: read_cost_def annotated_def f64_ok_def)

lemma NaN_row:
  assumes "CostPerHour res = Some NaN"
  shows "cr_costPerHour (workload_row ns name kind l (updated_annotations anns res) n ps) = Some NaN"
proof -
  have "read_cost (updated_annotations anns res) AnnCostPerHourPerReplica = Some NaN"
    using assms by (intro NaN_read) (simp_all add: updated_get updated_has build_has build_get)
  then show ?thesis
    using assms by (simp add: workload_row_def costAnnotationsFromMap_def updated_has build_has split: prod.split)
qed

text \<open>C35 One NaN takes the JSON output away: when Prometheus gave a NaN for the hourly cost of one workload and the patcher
  wrote it, the cost command with JSON output fails for all workloads of the namespace, whatever their costs, while the
  table is shown.\<close>

theorem nan_cost_breaks_json:
  assumes "workload_row ns name kind l (updated_annotations anns res) n ps \<in> set rows" and "CostPerHour res = Some NaN"
  shows "(\<exists>err. render_costs paint terminal ''json'' (Inr rows) = Inl (CostEncode err))
    \<and> render_costs paint terminal ''table'' (Inr rows) = Inr (CostTableText (RenderCostTable paint terminal rows))"
proof -
  let ?r = "workload_row ns name kind l (updated_annotations anns res) n ps"
  have "NaN \<in> set (row_floats ?r)"
    using NaN_row [OF assms(2)] by (simp add: row_floats_def List.map_filter_def)
  with assms(1) have "\<exists>err. RenderCostJSON rows = Inl err"
    unfolding RenderCostJSON_fails_iff list_ex_iff by (force simp: unsupported_float_def)
  then show ?thesis by (auto simp: render_costs_def output_format_def)
qed

theorem nan_cost_breaks_json_witness:
  "\<exists>err. render_costs (\<lambda>_ s. s) False ''json'' (Inr [workload_row ''ml'' ''llm'' ''Deployment'' fmempty
     (updated_annotations fmempty (demo_result\<lparr>CostPerHour := Some NaN\<rparr>)) 1 \<lparr>ps_containers = [], ps_initContainers = []\<rparr>])
     = Inl (CostEncode err)"
  using nan_cost_breaks_json [of "''ml''" "''llm''" "''Deployment''" fmempty fmempty "demo_result\<lparr>CostPerHour := Some NaN\<rparr>" 1
      "\<lparr>ps_containers = [], ps_initContainers = []\<rparr>" "[workload_row ''ml'' ''llm'' ''Deployment'' fmempty
     (updated_annotations fmempty (demo_result\<lparr>CostPerHour := Some NaN\<rparr>)) 1 \<lparr>ps_containers = [], ps_initContainers = []\<rparr>]"
      "\<lambda>_ s. s" False]
  by simp

end
