(* ===== verification/QuotaSystem.thy ===== *)
theory QuotaSystem
  imports Webhook MergePatch
begin

text \<open>
  The quota operator as a system: the controller (\<open>QuotaReconciler\<close>), users who set and delete quotas, and the
  admission webhook (\<open>Webhook\<close>), all on one API server.

  The operator reads through a cache, which answers with some version an object had, perhaps not its last one, and
  patches the object of that name as it is then stored. So the server keeps, beside the stored quotas, all their
  versions. \<open>quota_run h w\<close> says that the world \<open>w\<close> is reached by some interleaving of reconciles, changes of specs
  and deletions, where each reconcile has its own environment: clock, Prometheus answers, cache, failures of the API
  server. The history \<open>h\<close> lists the environment of every reconcile that found its object, with the version it read.
  The invariant says that every member of every status was computed by one of them.
\<close>

section \<open>The API server\<close>

record server =
  sv_store :: store
  sv_versions :: "quota list"

definition put_version :: "quota \<Rightarrow> server \<Rightarrow> server" where
  "put_version q s = s\<lparr>sv_store := fmupd (q_namespace q, q_name q) q (sv_store s), sv_versions := q # sv_versions s\<rparr>"

text \<open>The merge patch of a status applied to the stored object: a patch that changes nothing makes no version.\<close>

definition merged :: "quota \<Rightarrow> quota \<Rightarrow> quota \<Rightarrow> quota" where
  "merged base q cur = cur\<lparr>status := merge_status (status base) (status q) (status cur)\<rparr>"

definition merge_into :: "quota \<Rightarrow> quota \<Rightarrow> quota \<Rightarrow> server \<Rightarrow> server" where
  "merge_into base q cur s = (if merged base q cur = cur then s else put_version (merged base q cur) s)"

text \<open>Documented behaviour of the API server behind a cache: a read finds nothing, fails, or finds a version the object
  had; a status patch fails and changes nothing, or merges into the stored object of that name.\<close>

definition cached_server :: "server env \<Rightarrow> bool" where
  "cached_server e \<longleftrightarrow>
     (\<forall>s ns n q. api_get e s ns n = Found q \<longrightarrow> q \<in> set (sv_versions s) \<and> q_namespace q = ns \<and> q_name q = n)
   \<and> (\<forall>s base q. (\<exists>err. api_patch_status e s base q = (Inl err, s))
       \<or> (\<exists>cur. fmlookup (sv_store s) (q_namespace q, q_name q) = Some cur
           \<and> api_patch_status e s base q = (Inr (merged base q cur), merge_into base q cur s)))"

definition no_status :: quota_status where
  "no_status = \<lparr>phase = PhaseUnset, tokensUsedToday = 0, costUsedThisMonth = '''', tokenBudgetRemainingPct = 0,
     costBudgetRemainingPct = 0, lastEvaluationTime = None, nextResetTime = None, conditions = []\<rparr>"

text \<open>What the validation of the CRD lets through.\<close>

definition spec_schema :: "quota_spec \<Rightarrow> bool" where
  "spec_schema sp \<longleftrightarrow> 0 \<le> dailyTokenBudget sp \<and> in_i64 (dailyTokenBudget sp)
     \<and> schema_limit (monthlyCostLimitUSD sp)
     \<and> (\<forall>t. alertThresholdPct sp = Some t \<longrightarrow> 1 \<le> t \<and> t \<le> 100)"

text \<open>A new spec makes a new version with the next generation; the spec a quota already has makes none.\<close>

definition set_spec :: "string \<Rightarrow> string \<Rightarrow> quota_spec \<Rightarrow> server \<Rightarrow> server" where
  "set_spec ns name sp s = (case fmlookup (sv_store s) (ns, name) of
       Some q \<Rightarrow> if spec q = sp then s else put_version (q\<lparr>spec := sp, q_generation := q_generation q + 1\<rparr>) s
     | None \<Rightarrow> put_version \<lparr>q_namespace = ns, q_name = name, q_generation = 1, spec = sp, status = no_status\<rparr> s)"

definition delete_quota :: "string \<Rightarrow> string \<Rightarrow> server \<Rightarrow> server" where
  "delete_quota ns name s = s\<lparr>sv_store := fmdrop (ns, name) (sv_store s)\<rparr>"

definition empty_server :: server where
  "empty_server = \<lparr>sv_store = fmempty, sv_versions = []\<rparr>"

section \<open>Runs\<close>

type_synonym history = "(server env \<times> quota) list"

definition quota_read :: "server env \<Rightarrow> server \<Rightarrow> string \<Rightarrow> string \<Rightarrow> history" where
  "quota_read e s ns name = (case api_get e s ns name of Found q \<Rightarrow> [(e, q)] | _ \<Rightarrow> [])"

inductive quota_run :: "history \<Rightarrow> server world \<Rightarrow> bool" where
  started: "quota_run [] (controller_start empty_server)"
| reconciled: "quota_run h w \<Longrightarrow> cached_server e \<Longrightarrow>
    quota_run (h @ quota_read e (cluster w) ns name) (snd (Reconcile e ns name w))"
| spec_set: "quota_run h w \<Longrightarrow> spec_schema sp \<Longrightarrow> quota_run h (w\<lparr>cluster := set_spec ns name sp (cluster w)\<rparr>)"
| deleted: "quota_run h w \<Longrightarrow> quota_run h (w\<lparr>cluster := delete_quota ns name (cluster w)\<rparr>)"

section \<open>Where statuses come from\<close>

text \<open>The member \<open>f\<close> of a status is as created, or some reconcile of that quota computed it.\<close>

definition traced :: "history \<Rightarrow> (quota_status \<Rightarrow> 'a) \<Rightarrow> quota \<Rightarrow> bool" where
  "traced h f q \<longleftrightarrow> f (status q) = f no_status
     \<or> (\<exists>(e, q0) \<in> set h. q_namespace q0 = q_namespace q \<and> q_name q0 = q_name q
          \<and> f (status q) = f (status (fst (evaluate e q0))))"

definition version_ok :: "history \<Rightarrow> quota \<Rightarrow> bool" where
  "version_ok h q \<longleftrightarrow> spec_schema (spec q) \<and> traced h phase q \<and> traced h tokensUsedToday q
     \<and> traced h costUsedThisMonth q \<and> traced h tokenBudgetRemainingPct q \<and> traced h costBudgetRemainingPct q"

definition run_ok :: "history \<Rightarrow> server \<Rightarrow> bool" where
  "run_ok h s \<longleftrightarrow> fmpred (\<lambda>k q. k = (q_namespace q, q_name q) \<and> q \<in> set (sv_versions s)) (sv_store s)
     \<and> (\<forall>q \<in> set (sv_versions s). version_ok h q) \<and> (\<forall>(e, q0) \<in> set h. spec_schema (spec q0))"

lemma traced_append: "traced h f q \<Longrightarrow> traced (h @ h') f q"
  by (auto simp: traced_def)

lemma version_ok_append: "version_ok h q \<Longrightarrow> version_ok (h @ h') q"
  by (simp add: version_ok_def traced_append)

lemma run_ok_lookup:
  "run_ok h s \<Longrightarrow> fmlookup (sv_store s) (ns, name) = Some q \<Longrightarrow>
     q_namespace q = ns \<and> q_name q = name \<and> q \<in> set (sv_versions s) \<and> version_ok h q"
  by (auto simp: run_ok_def)

lemma run_ok_put: "run_ok h s \<Longrightarrow> version_ok h q \<Longrightarrow> run_ok h (put_version q s)"
  by (auto simp: run_ok_def put_version_def fmpred_iff split: if_splits)

text \<open>Merging keeps every member traced: it is the one stored or the one just computed.\<close>

lemma traced_merged:
  assumes "traced h f cur" and "(e, base) \<in> set h" and "q_namespace base = q_namespace cur" "q_name base = q_name cur"
    and "f (status (merged base (fst (evaluate e base)) cur)) \<in> {f (status (fst (evaluate e base))), f (status cur)}"
  shows "traced h f (merged base (fst (evaluate e base)) cur)"
proof (cases "f (status (merged base (fst (evaluate e base)) cur)) = f (status cur)")
  case True
  with assms(1) show ?thesis by (simp add: traced_def merged_def)
next
  case False
  with assms show ?thesis by (auto simp: traced_def merged_def)
qed

lemma version_ok_merged:
  assumes "version_ok h cur" and "(e, base) \<in> set h" and "q_namespace base = q_namespace cur" "q_name base = q_name cur"
  shows "version_ok h (merged base (fst (evaluate e base)) cur)"
  using assms unfolding version_ok_def
  by (auto intro!: traced_merged) (auto simp: merged_def merge_status_def merge_member_def)

text \<open>What a reconcile does to the server: nothing, or it merges the evaluation of what it read.\<close>

lemma Reconcile_cluster:
  assumes "api_get e (cluster w) ns name = Found base"
  shows "cluster (snd (Reconcile e ns name w)) = snd (patchStatus e base (fst (evaluate e base)) (cluster w))"
  using assms
  by (cases "patchStatus e base (fst (evaluate e base)) (cluster w)"; cases "evaluate e base")
    (auto simp: Reconcile_def finish_def split: sum.splits)

lemma Reconcile_cases:
  assumes "cached_server e"
  obtains (same) "cluster (snd (Reconcile e ns name w)) = cluster w"
  | (patched) base cur where "api_get e (cluster w) ns name = Found base" "base \<in> set (sv_versions (cluster w))"
      "q_namespace base = ns" "q_name base = name" "fmlookup (sv_store (cluster w)) (ns, name) = Some cur"
      "cluster (snd (Reconcile e ns name w)) = merge_into base (fst (evaluate e base)) cur (cluster w)"
proof (cases "api_get e (cluster w) ns name")
  case (Found base)
  then have base: "base \<in> set (sv_versions (cluster w))" "q_namespace base = ns" "q_name base = name"
    using assms by (auto simp: cached_server_def)
  let ?q = "fst (evaluate e base)"
  have "q_namespace ?q = ns" "q_name ?q = name" using base evaluate_frame(2,3) [of e base] by simp_all
  then have "(\<exists>err. api_patch_status e (cluster w) base ?q = (Inl err, cluster w))
      \<or> (\<exists>cur. fmlookup (sv_store (cluster w)) (ns, name) = Some cur
          \<and> api_patch_status e (cluster w) base ?q = (Inr (merged base ?q cur), merge_into base ?q cur (cluster w)))"
    using assms unfolding cached_server_def by metis
  with Reconcile_cluster [OF Found] Found base same patched show ?thesis
    by (auto simp: patchStatus_def split: if_splits)
qed (auto simp: Reconcile_def intro: same)

lemma run_ok_read:
  assumes "run_ok h s" and "cached_server e"
  shows "run_ok (h @ quota_read e s ns name) s"
  using assms
  by (auto simp: run_ok_def quota_read_def cached_server_def version_ok_append split: get_result.splits)
    (auto simp: version_ok_def)

lemma run_invariant: "quota_run h w \<Longrightarrow> run_ok h (cluster w)"
proof (induction rule: quota_run.induct)
  case started
  show ?case by (simp add: run_ok_def controller_start_def empty_server_def)
next
  case (reconciled h w e ns name)
  let ?h = "h @ quota_read e (cluster w) ns name"
  have ok: "run_ok ?h (cluster w)" using reconciled.IH reconciled.hyps(2) by (rule run_ok_read)
  from reconciled.hyps(2) show ?case
  proof (cases rule: Reconcile_cases [where ns = ns and name = name and w = w])
    case same
    with ok show ?thesis by simp
  next
    case (patched base cur)
    then have "(e, base) \<in> set ?h" by (simp add: quota_read_def)
    with run_ok_lookup [OF ok patched(5)] patched(3,4)
    have "version_ok ?h (merged base (fst (evaluate e base)) cur)" by (intro version_ok_merged) auto
    with ok patched(6) show ?thesis by (simp add: merge_into_def run_ok_put)
  qed
next
  case (spec_set h w sp ns name)
  have "version_ok h q" if "fmlookup (sv_store (cluster w)) (ns, name) = Some q" for q
    using run_ok_lookup [OF spec_set.IH that] by simp
  then show ?case
    using spec_set by (auto simp: set_spec_def version_ok_def traced_def intro!: run_ok_put split: option.splits)
next
  case (deleted h w ns name)
  then show ?case by (auto simp: run_ok_def delete_quota_def fmpred_iff split: if_splits)
qed


section \<open>What a run can show\<close>

lemma version_source:
  assumes "quota_run h w" and "q \<in> set (sv_versions (cluster w))" and "phase (status q) \<noteq> PhaseUnset"
  obtains e q0 where "(e, q0) \<in> set h" "q_namespace q0 = q_namespace q" "q_name q0 = q_name q" "spec_schema (spec q0)"
    "phase (status q) = phase (status (fst (evaluate e q0)))"
  using run_invariant [OF assms(1)] assms(2,3) that
  by (fastforce simp: run_ok_def version_ok_def traced_def no_status_def)

lemma traced_range:
  assumes "traced h f q" and "P (f no_status)" and "\<And>e q0. (e, q0) \<in> set h \<Longrightarrow> P (f (status (fst (evaluate e q0))))"
  shows "P (f (status q))"
  using assms by (auto simp: traced_def)

text \<open>What the CRD asks of the numbers of a status.\<close>

definition status_numbers :: "quota_status \<Rightarrow> bool" where
  "status_numbers st \<longleftrightarrow> in_i64 (tokensUsedToday st)
     \<and> 0 \<le> tokenBudgetRemainingPct st \<and> tokenBudgetRemainingPct st \<le> 100
     \<and> 0 \<le> costBudgetRemainingPct st \<and> costBudgetRemainingPct st \<le> 100"

text \<open>C18 In every reachable world, with a cache as stale as it may be, the numbers of every version of every quota
  fit the schema of the CRD: a 64-bit token count, both percentages between 0 and 100; provided
  Prometheus never answers with a NaN cost and out-of-range conversions give a 64-bit integer.\<close>

theorem stored_status_schema:
  assumes "quota_run h w" and "q \<in> set (sv_versions (cluster w))"
    and "\<And>e q0 x. (e, q0) \<in> set h \<Longrightarrow> in_i64 (oor64 e x)"
    and "\<And>e q0 api t. (e, q0) \<in> set h \<Longrightarrow> prom e = Some api
      \<Longrightarrow> run_queries api (q_namespace q0) (now_utc e) \<noteq> Some (t, NaN)"
  shows "status_numbers (status q)"
proof -
  note ok = run_invariant [OF assms(1), unfolded run_ok_def]
  have schema: "status_schema (status (fst (evaluate e q0)))" if "(e, q0) \<in> set h" for e q0
    using ok assms(3) [OF that] assms(4) [OF that] that
    by (intro evaluate_status_schema) (auto simp: spec_schema_def)
  have tr: "traced h tokensUsedToday q" "traced h tokenBudgetRemainingPct q" "traced h costBudgetRemainingPct q"
    using ok assms(2) by (auto simp: version_ok_def)
  have "in_i64 (tokensUsedToday (status q))"
    by (rule traced_range [OF tr(1)]) (use schema in \<open>auto simp: status_schema_def no_status_def in_i64_def\<close>)
  moreover have "0 \<le> tokenBudgetRemainingPct (status q) \<and> tokenBudgetRemainingPct (status q) \<le> 100"
    by (rule traced_range [OF tr(2)]) (use schema in \<open>auto simp: status_schema_def no_status_def\<close>)
  moreover have "0 \<le> costBudgetRemainingPct (status q) \<and> costBudgetRemainingPct (status q) \<le> 100"
    by (rule traced_range [OF tr(3)]) (use schema in \<open>auto simp: status_schema_def no_status_def\<close>)
  ultimately show ?thesis by (simp add: status_numbers_def)
qed

definition overspent :: "server env \<Rightarrow> quota \<Rightarrow> bool" where
  "overspent e q0 \<longleftrightarrow> (\<exists>l api t c. parseMonthlyCostLimitUSD (monthlyCostLimitUSD (spec q0)) = Inr l \<and> prom e = Some api
     \<and> run_queries api (q_namespace q0) (now_utc e) = Some (t, c)
     \<and> (let i = \<lparr>PrometheusError = False, TokensUsed = t, CostUsedUSD = c,
           DailyTokenLimit = dailyTokenBudget (spec q0), MonthlyLimitUSD = l,
           AlertThreshold = effectiveAlertThreshold (alertThresholdPct (spec q0))\<rparr>
         in token_exceeded i \<or> cost_exceeded i))"

lemma exceeded_overspent:
  assumes "phase (status (fst (evaluate e q0))) = QuotaPhaseExceeded"
  shows "overspent e q0"
proof (cases rule: evaluate_cases [of e q0])
  case (unknown d)
  with assms show ?thesis by simp
next
  case (known l api t c q1)
  with assms show ?thesis
    unfolding overspent_def
    by (intro exI [of _ l] exI [of _ api] exI [of _ t] exI [of _ c])
      (auto simp: evaluated_status_def computePhase_def Let_def split: if_splits)
qed

text \<open>C3 No pod is denied without a cause: when, in a reachable world, a GPU pod is denied by a webhook whose cache lists
  versions of quotas of its namespace, however old, then some earlier reconcile of the denying quota read a spec with a
  limit that parses, got both answers from Prometheus, and found the token budget or the cost limit of that spec used up.\<close>

theorem denial_has_cause:
  assumes "quota_run h w" and "fst (ValidateCreate qt r list_quotas p evs) = Some msg"
    and "\<And>qs q. list_quotas (p_namespace p) = Inr qs \<Longrightarrow> q \<in> set qs
      \<Longrightarrow> q \<in> set (sv_versions (cluster w)) \<and> q_namespace q = p_namespace p"
  shows "\<exists>q \<in> set (sv_versions (cluster w)). \<exists>(e, q0) \<in> set h. msg = denyMessage qt q
    \<and> q_namespace q0 = p_namespace p \<and> q_name q0 = q_name q \<and> overspent e q0"
proof -
  obtain qs where qs: "podRequestsGPU p" "list_quotas (p_namespace p) = Inr qs"
    using assms(2) by (auto simp: ValidateCreate_def split: if_splits sum.splits)
  then obtain q where q: "List.find decides qs = Some q" "blocks q" "msg = denyMessage qt q"
    using assms(2) by (auto simp: ValidateCreate_def validate_quotas_rule split: option.splits if_splits)
  then have v: "q \<in> set (sv_versions (cluster w))" "q_namespace q = p_namespace p"
    using assms(3) [OF qs(2)] by (auto elim: find_first_split)
  have ph: "phase (status q) = QuotaPhaseExceeded" using q(2) by (simp add: blocks_def)
  then have "phase (status q) \<noteq> PhaseUnset" by simp
  with version_source [OF assms(1) v(1)] obtain e q0 where e: "(e, q0) \<in> set h" "q_namespace q0 = q_namespace q"
      "q_name q0 = q_name q" "phase (status q) = phase (status (fst (evaluate e q0)))" by metis
  with exceeded_overspent [of e q0] ph v q(3) show ?thesis by (intro bexI [OF _ v(1)] bexI [OF _ e(1)]) simp
qed

section \<open>An instance: a cache that lags behind\<close>

text \<open>The version number \<open>i\<close> of a quota, counted back from its last.\<close>

definition version_read :: "nat \<Rightarrow> server \<Rightarrow> string \<Rightarrow> string \<Rightarrow> get_result" where
  "version_read i s ns n = (let vs = filter (\<lambda>q. q_namespace q = ns \<and> q_name q = n) (sv_versions s)
     in if i < length vs then Found (vs ! i) else NotFound)"

definition merge_patch_status :: "server \<Rightarrow> quota \<Rightarrow> quota \<Rightarrow> (string + quota) \<times> server" where
  "merge_patch_status s base q = (case fmlookup (sv_store s) (q_namespace q, q_name q) of
       None \<Rightarrow> (Inl ''not found'', s)
     | Some cur \<Rightarrow> (Inr (merged base q cur), merge_into base q cur s))"

definition lagging_env :: "nat \<Rightarrow> prom_api option \<Rightarrow> utc \<Rightarrow> server env" where
  "lagging_env i api now = \<lparr>api_get = version_read i, api_patch_status = merge_patch_status, prom = api,
     has_recorder = True, now_utc = now, spec_now = now, prom_now = now,
     SetStatusCondition = (\<lambda>cs c. c # filter (\<lambda>d. cond_type d \<noteq> cond_type c) cs),
     status_equal = (=), quote = (\<lambda>s. s), oor32 = (\<lambda>_. 0), oor64 = (\<lambda>_. 0)\<rparr>"

lemma lagging_env_sel [simp]:
  "api_get (lagging_env i api now) = version_read i" "api_patch_status (lagging_env i api now) = merge_patch_status"
  "prom (lagging_env i api now) = api" "now_utc (lagging_env i api now) = now" "oor64 (lagging_env i api now) = (\<lambda>_. 0)"
  "status_equal (lagging_env i api now) = (=)"
  by (simp_all add: lagging_env_def)

lemma lagging_server: "cached_server (lagging_env i api now)"
proof -
  have "q \<in> set (sv_versions s) \<and> q_namespace q = ns \<and> q_name q = n" if "version_read i s ns n = Found q" for s ns n q
    using that nth_mem [of i "filter (\<lambda>q. q_namespace q = ns \<and> q_name q = n) (sv_versions s)"]
    by (auto simp: version_read_def Let_def split: if_splits)
  then show ?thesis by (auto simp: cached_server_def merge_patch_status_def split: option.splits)
qed

definition enforced_spec :: quota_spec where
  "enforced_spec = (spec demo_quota)\<lparr>enforcementMode := EnforcementModeEnforce\<rparr>"

definition demo_created :: quota where
  "demo_created = \<lparr>q_namespace = ''ml'', q_name = ''team'', q_generation = 1, spec = enforced_spec, status = no_status\<rparr>"

lemma enforced_schema: "spec_schema enforced_spec"
proof -
  have "schema_limit (monthlyCostLimitUSD enforced_spec)"
    unfolding schema_limit_def
    by (intro exI [of _ "''500''"] exI [of _ None])
      (simp add: enforced_spec_def demo_quota_def numeral_text_def digits_def is_digit_def less_eq_char_def)
  then show ?thesis by (simp add: spec_schema_def enforced_spec_def demo_quota_def in_i64_def)
qed

definition demo_set_world :: "server world" where
  "demo_set_world = (controller_start empty_server)\<lparr>cluster := set_spec ''ml'' ''team'' enforced_spec empty_server\<rparr>"

lemma demo_set_run: "quota_run [] demo_set_world"
  using spec_set [OF started enforced_schema, of "''ml''" "''team''"]
  by (simp add: controller_start_def demo_set_world_def)

lemma demo_set_store [simp]:
  "fmlookup (sv_store (cluster demo_set_world)) (''ml'', ''team'') = Some demo_created"
  "sv_versions (cluster demo_set_world) = [demo_created]"
  by (simp_all add: demo_set_world_def set_spec_def put_version_def empty_server_def demo_created_def)

lemma demo_created_sel [simp]:
  "q_namespace demo_created = ''ml''" "q_name demo_created = ''team''" "spec demo_created = enforced_spec"
  "status demo_created = no_status"
  by (simp_all add: demo_created_def)

text \<open>One reconcile of a version \<open>base\<close> against the stored quota \<open>cur\<close>.\<close>

definition at_versions :: "quota list \<Rightarrow> server world \<Rightarrow> bool" where
  "at_versions vs w \<longleftrightarrow> vs \<noteq> [] \<and> sv_versions (cluster w) = vs
     \<and> (\<forall>q \<in> set vs. q_namespace q = ''ml'' \<and> q_name q = ''team'' \<and> spec q = enforced_spec)
     \<and> fmlookup (sv_store (cluster w)) (''ml'', ''team'') = Some (hd vs)"

lemma at_versions_step:
  fixes api :: "prom_api option" and now :: utc
  assumes "at_versions vs w" and "i < length vs"
  defines "e \<equiv> lagging_env i api now"
  assumes "q1 = merged (vs ! i) (fst (evaluate e (vs ! i))) (hd vs)" and "q1 \<noteq> hd vs"
    and "status (vs ! i) \<noteq> status (fst (evaluate e (vs ! i)))"
  shows "at_versions (q1 # vs) (snd (Reconcile e ''ml'' ''team'' w))" "quota_read e (cluster w) ''ml'' ''team'' = [(e, vs ! i)]"
proof -
  have mem: "vs ! i \<in> set vs" "hd vs \<in> set vs" using assms(1,2) by (auto simp: at_versions_def)
  then have key: "q_namespace (fst (evaluate e (vs ! i))) = ''ml''" "q_name (fst (evaluate e (vs ! i))) = ''team''"
      "q_namespace q1 = ''ml''" "q_name q1 = ''team''" "spec q1 = enforced_spec"
    using assms(1,4) by (auto simp: at_versions_def evaluate_frame merged_def)
  have "filter (\<lambda>q. q_namespace q = ''ml'' \<and> q_name q = ''team'') vs = vs"
    using assms(1) by (simp add: at_versions_def)
  then have get: "api_get e (cluster w) ''ml'' ''team'' = Found (vs ! i)"
    using assms(1,2) by (simp add: e_def version_read_def at_versions_def)
  then show "quota_read e (cluster w) ''ml'' ''team'' = [(e, vs ! i)]" by (simp add: quota_read_def)
  have "cluster (snd (Reconcile e ''ml'' ''team'' w)) = put_version q1 (cluster w)"
    unfolding Reconcile_cluster [OF get] patchStatus_def using assms(1,4,5,6) key
    by (simp add: e_def merge_patch_status_def at_versions_def merge_into_def)
  with assms(1) key show "at_versions (q1 # vs) (snd (Reconcile e ''ml'' ''team'' w))"
    by (simp add: at_versions_def put_version_def)
qed

text \<open>C4 A stale read can keep a phase that was just computed to be another: the patch carries the members that differ
  from the version read, so a phase equal to the one read leaves the stored phase as it is, and with it the decision of
  the webhook, while the time of the evaluation is written.\<close>

theorem stale_read_keeps_phase:
  assumes "quota_run h w" and "cached_server e" and "api_get e (cluster w) ns name = Found base"
    and "fmlookup (sv_store (cluster w)) (ns, name) = Some cur" and "rec_error (fst (Reconcile e ns name w)) = None"
    and "\<not> status_equal e (status base) (status (fst (evaluate e base)))"
    and "phase (status base) = phase (status (fst (evaluate e base)))"
    and "map_option FormatRFC3339 (lastEvaluationTime (status base)) \<noteq> Some (FormatRFC3339 (now_utc e))"
  shows "\<exists>q. fmlookup (sv_store (cluster (snd (Reconcile e ns name w)))) (ns, name) = Some q
    \<and> phase (status q) = phase (status cur) \<and> (blocks q \<longleftrightarrow> blocks cur)
    \<and> lastEvaluationTime (status q) = Some (wire_time (now_utc e))"
proof -
  let ?q = "fst (evaluate e base)"
  have cur: "q_namespace cur = ns" "q_name cur = name" using run_ok_lookup [OF run_invariant [OF assms(1)] assms(4)] by simp_all
  have base: "q_namespace base = ns" "q_name base = name" using assms(2,3) by (auto simp: cached_server_def)
  have "patchStatus e base ?q (cluster w) = (Inr (merged base ?q cur), merge_into base ?q cur (cluster w))"
  proof -
    have "\<not> isl (fst (patchStatus e base ?q (cluster w)))"
      using assms(3,5) by (cases "evaluate e base") (auto simp: Reconcile_def finish_def split: sum.splits prod.splits)
    then have ok: "\<not> isl (fst (api_patch_status e (cluster w) base ?q))" using assms(6) by (simp add: patchStatus_def)
    have "(\<exists>err. api_patch_status e (cluster w) base ?q = (Inl err, cluster w))
        \<or> (\<exists>cur. fmlookup (sv_store (cluster w)) (q_namespace ?q, q_name ?q) = Some cur
          \<and> api_patch_status e (cluster w) base ?q = (Inr (merged base ?q cur), merge_into base ?q cur (cluster w)))"
      using assms(2) unfolding cached_server_def by blast
    with ok assms(4,6) base show ?thesis by (auto simp: patchStatus_def evaluate_frame)
  qed
  then have "cluster (snd (Reconcile e ns name w)) = merge_into base ?q cur (cluster w)"
    by (simp add: Reconcile_cluster [OF assms(3)])
  with assms(4) cur have "fmlookup (sv_store (cluster (snd (Reconcile e ns name w)))) (ns, name) = Some (merged base ?q cur)"
    by (auto simp: merge_into_def put_version_def merged_def)
  moreover have "lastEvaluationTime (status (merged base ?q cur)) = Some (wire_time (now_utc e))"
    using assms(8) by (auto simp: merged_def merge_status_def merge_member_def evaluate_frame)
  moreover have "phase (status (merged base ?q cur)) = phase (status cur)"
    using assms(7) by (simp add: merged_def merge_status_def merge_member_def)
  ultimately show ?thesis by (auto simp: blocks_def merged_def)
qed

definition api_down :: prom_api where
  "api_down q = Inl ''down''"

lemma down_queries: "run_queries api_down ns t = None"
  by (simp add: run_queries_def QueryInstant_def api_down_def Let_def)

lemma down_phase: "phase (status (fst (evaluate (lagging_env i (Some api_down) now) q))) = QuotaPhaseUnknown"
  by (cases rule: evaluate_cases [of "lagging_env i (Some api_down) now" q])
    (auto simp: down_queries)

lemma over_phase:
  "spec q = enforced_spec \<Longrightarrow> phase (status (fst (evaluate (lagging_env i (Some demo_prom) now) q))) = QuotaPhaseExceeded"
  by (simp add: evaluate_def Let_def enforced_spec_def demo_limit demo_queries quota_frame
      cond_defs computePhase_def cost_exceeded_def f64_of_int_pos f64_of_int_mono)

definition demo_time :: "int \<Rightarrow> utc" where
  "demo_time s = demo_now\<lparr>sec := s\<rparr>"

lemma demo_texts: "FormatRFC3339 (demo_time 10) \<noteq> FormatRFC3339 (demo_time 11)"
    "FormatRFC3339 (demo_time 10) \<noteq> FormatRFC3339 (demo_time 12)"
  by code_simp+

text \<open>Prometheus down, up with the cost over the limit, down again; the last reconcile reads the first one's version.\<close>

definition lag_v1 :: quota where
  "lag_v1 = merged demo_created (fst (evaluate (lagging_env 0 (Some api_down) (demo_time 10)) demo_created)) demo_created"

definition lag_v2 :: quota where
  "lag_v2 = merged lag_v1 (fst (evaluate (lagging_env 0 (Some demo_prom) (demo_time 11)) lag_v1)) lag_v1"

definition lag_w1 :: "server world" where
  "lag_w1 = snd (Reconcile (lagging_env 0 (Some api_down) (demo_time 10)) ''ml'' ''team'' demo_set_world)"

definition lag_w2 :: "server world" where
  "lag_w2 = snd (Reconcile (lagging_env 0 (Some demo_prom) (demo_time 11)) ''ml'' ''team'' lag_w1)"

definition lag_env :: "server env" where
  "lag_env = lagging_env 1 (Some api_down) (demo_time 12)"

lemma merged_phase: "phase (status (merged base q base)) = phase (status q)"
  by (simp add: merged_def merge_status_def merge_member_def)

lemma merged_spec [simp]: "spec (merged base q cur) = spec cur" "q_namespace (merged base q cur) = q_namespace cur"
    "q_name (merged base q cur) = q_name cur"
  by (simp_all add: merged_def)

lemma lag_phases: "phase (status lag_v1) = QuotaPhaseUnknown" "phase (status lag_v2) = QuotaPhaseExceeded"
    "spec lag_v1 = enforced_spec" "spec lag_v2 = enforced_spec"
  unfolding lag_v2_def by (simp_all add: merged_phase lag_v1_def down_phase over_phase)

lemma lag_run1: "at_versions [lag_v1, demo_created] lag_w1"
    "quota_run [(lagging_env 0 (Some api_down) (demo_time 10), demo_created)] lag_w1"
proof -
  let ?e = "lagging_env 0 (Some api_down) (demo_time 10)"
  have w: "at_versions [demo_created] demo_set_world" by (simp add: at_versions_def)
  have d: "lag_v1 \<noteq> demo_created" using lag_phases(1) by (auto simp: no_status_def)
  have s: "status demo_created \<noteq> status (fst (evaluate ?e demo_created))"
    by (rule phase_differs) (simp add: down_phase no_status_def)
  note step = at_versions_step [OF w, of 0 lag_v1 "Some api_down" "demo_time 10"]
  show "at_versions [lag_v1, demo_created] lag_w1" using step(1) d s by (simp add: lag_w1_def lag_v1_def)
  have "quota_read ?e (cluster demo_set_world) ''ml'' ''team'' = [(?e, demo_created)]"
    using step(2) d s by (simp add: lag_v1_def)
  with reconciled [OF demo_set_run lagging_server, of 0 "Some api_down" "demo_time 10" "''ml''" "''team''"]
  show "quota_run [(?e, demo_created)] lag_w1" by (simp add: lag_w1_def)
qed

lemma lag_run2: "at_versions [lag_v2, lag_v1, demo_created] lag_w2"
    "quota_run [(lagging_env 0 (Some api_down) (demo_time 10), demo_created),
       (lagging_env 0 (Some demo_prom) (demo_time 11), lag_v1)] lag_w2"
proof -
  let ?e = "lagging_env 0 (Some demo_prom) (demo_time 11)"
  have d: "lag_v2 \<noteq> lag_v1" using lag_phases(1,2) by auto
  have s: "status lag_v1 \<noteq> status (fst (evaluate ?e lag_v1))"
    by (rule phase_differs) (simp add: over_phase lag_phases)
  note step = at_versions_step [OF lag_run1(1), of 0 lag_v2 "Some demo_prom" "demo_time 11"]
  show "at_versions [lag_v2, lag_v1, demo_created] lag_w2" using step(1) d s by (simp add: lag_w2_def lag_v2_def)
  have "quota_read ?e (cluster lag_w1) ''ml'' ''team'' = [(?e, lag_v1)]" using step(2) d s by (simp add: lag_v2_def)
  with reconciled [OF lag_run1(2) lagging_server, of 0 "Some demo_prom" "demo_time 11" "''ml''" "''team''"]
  show "quota_run [(lagging_env 0 (Some api_down) (demo_time 10), demo_created), (?e, lag_v1)] lag_w2"
    by (simp add: lag_w2_def)
qed

lemma lag_versions: "lag_v2 \<in> set (sv_versions (cluster lag_w2))" "q_namespace lag_v2 = ''ml''" "q_name lag_v2 = ''team''"
    "blocks lag_v2"
  using lag_run2(1) lag_phases by (auto simp: at_versions_def blocks_def enforced_spec_def)

theorem stale_read_keeps_phase_witness:
  "\<exists>q. fmlookup (sv_store (cluster (snd (Reconcile lag_env ''ml'' ''team'' lag_w2)))) (''ml'', ''team'') = Some q
    \<and> blocks q \<and> phase (status (fst (evaluate lag_env lag_v1))) = QuotaPhaseUnknown"
proof -
  have get: "api_get lag_env (cluster lag_w2) ''ml'' ''team'' = Found lag_v1"
    using lag_run2(1) by (auto simp: lag_env_def version_read_def at_versions_def)
  have st: "fmlookup (sv_store (cluster lag_w2)) (''ml'', ''team'') = Some lag_v2"
    using lag_run2(1) by (simp add: at_versions_def)
  have t1: "lastEvaluationTime (status lag_v1) = Some (wire_time (demo_time 10))"
    by (simp add: lag_v1_def merged_def merge_status_def merge_member_def evaluate_frame no_status_def)
  have t: "map_option FormatRFC3339 (lastEvaluationTime (status lag_v1)) \<noteq> Some (FormatRFC3339 (now_utc lag_env))"
    using demo_texts by (simp add: t1 lag_env_def)
  have ne: "\<not> status_equal lag_env (status lag_v1) (status (fst (evaluate lag_env lag_v1)))"
    using t evaluate_frame(4) [of lag_env lag_v1] by (auto simp: lag_env_def)
  have key: "q_namespace lag_v1 = ''ml''" "q_name lag_v1 = ''team''" by (simp_all add: lag_v1_def)
  have "rec_error (fst (Reconcile lag_env ''ml'' ''team'' lag_w2)) = None"
    using get ne st by (cases "evaluate lag_env lag_v1")
      (use evaluate_frame(2,3) [of lag_env lag_v1] key in
        \<open>auto simp: Reconcile_def finish_def patchStatus_def lag_env_def merge_patch_status_def\<close>)
  from stale_read_keeps_phase [OF lag_run2(2) _ get st this ne _ t] lagging_server lag_versions(4)
  show ?thesis by (auto simp: lag_env_def down_phase lag_phases)
qed

theorem stored_status_schema_witness: "status_numbers (status lag_v2)"
  by (rule stored_status_schema [OF lag_run2(2) lag_versions(1)])
    (auto simp: in_i64_def demo_queries down_queries)

theorem denial_has_cause_witness:
  "\<exists>e q0. spec q0 = enforced_spec \<and> overspent e q0"
proof -
  have "fst (ValidateCreate (\<lambda>s. s) True (\<lambda>_. Inr [lag_v2]) demo_gpu_pod []) = Some (denyMessage (\<lambda>s. s) lag_v2)"
    using lag_versions(4) by (simp add: ValidateCreate_def demo_gpu_pod_requests validate_quotas_rule decides_def)
  moreover have "q \<in> set (sv_versions (cluster lag_w2)) \<and> q_namespace q = p_namespace demo_gpu_pod"
    if "Inr [lag_v2] = (Inr qs :: string + quota list)" "q \<in> set qs" for qs q
    using that lag_versions by (auto simp: demo_gpu_pod_requests)
  ultimately have "\<exists>q \<in> set (sv_versions (cluster lag_w2)). \<exists>(e, q0) \<in> set [(lagging_env 0 (Some api_down) (demo_time 10),
       demo_created), (lagging_env 0 (Some demo_prom) (demo_time 11), lag_v1)]. denyMessage (\<lambda>s. s) lag_v2 = denyMessage (\<lambda>s. s) q
    \<and> q_namespace q0 = p_namespace demo_gpu_pod \<and> q_name q0 = q_name q \<and> overspent e q0"
    by (intro denial_has_cause [OF lag_run2(2)])
  then show ?thesis using lag_phases(3) by (auto intro: demo_created_sel(3) lag_phases(3))
qed

section \<open>The watch\<close>

text \<open>The controller watches quotas without a predicate (\<^verbatim>\<open>SetupWithManager\<close>): every new version of a quota, its own status
  patches included, starts another reconcile at once. \<open>watch_loop es\<close> counts the reconciles of one quota until one of
  them makes no new version, when \<open>es\<close> are the environments they would meet.\<close>

fun watch_loop :: "server env list \<Rightarrow> string \<Rightarrow> string \<Rightarrow> server world \<Rightarrow> nat" where
  "watch_loop [] ns name w = 0"
| "watch_loop (e # es) ns name w = (let w' = snd (Reconcile e ns name w) in
     if length (sv_versions (cluster w')) = length (sv_versions (cluster w)) then 1
     else Suc (watch_loop es ns name w'))"

text \<open>An operator that works: reads are up to date, patches succeed, and statuses that compare equal are written
  the same.\<close>

definition working :: "server env \<Rightarrow> bool" where
  "working e \<longleftrightarrow> cached_server e
     \<and> (\<forall>s ns n q. fmlookup (sv_store s) (ns, n) = Some q \<longrightarrow> q \<in> set (sv_versions s) \<longrightarrow> q_namespace q = ns
         \<longrightarrow> q_name q = n \<longrightarrow> api_get e s ns n = Found q)
     \<and> (\<forall>s base q cur. fmlookup (sv_store s) (q_namespace q, q_name q) = Some cur \<longrightarrow>
         api_patch_status e s base q = (Inr (merged base q cur), merge_into base q cur s))
     \<and> (\<forall>a b. status_equal e a b \<longrightarrow> status_members a = status_members b)"

definition evaluated_at :: "quota \<Rightarrow> server env \<Rightarrow> bool" where
  "evaluated_at q e \<longleftrightarrow> map_option FormatRFC3339 (lastEvaluationTime (status q)) = Some (FormatRFC3339 (now_utc e))"

lemma working_get:
  "working e \<Longrightarrow> fmlookup (sv_store s) (ns, n) = Some q \<Longrightarrow> q \<in> set (sv_versions s) \<Longrightarrow> q_namespace q = ns
     \<Longrightarrow> q_name q = n \<Longrightarrow> api_get e s ns n = Found q"
  unfolding working_def by blast

lemma working_patch:
  "working e \<Longrightarrow> fmlookup (sv_store s) (q_namespace q, q_name q) = Some cur \<Longrightarrow>
     api_patch_status e s base q = (Inr (merged base q cur), merge_into base q cur s)"
  unfolding working_def by blast

lemma working_step:
  assumes "run_ok h (cluster w)" and "working e" and "fmlookup (sv_store (cluster w)) (ns, name) = Some q"
    and "\<not> evaluated_at q e"
  defines "q' \<equiv> merged q (fst (evaluate e q)) q"
  shows "cluster (snd (Reconcile e ns name w)) = put_version q' (cluster w)"
    "fmlookup (sv_store (put_version q' (cluster w))) (ns, name) = Some q'"
    "lastEvaluationTime (status q') = Some (wire_time (now_utc e))"
proof -
  note q = run_ok_lookup [OF assms(1,3)]
  show t: "lastEvaluationTime (status q') = Some (wire_time (now_utc e))"
    using assms(4) by (auto simp: q'_def merged_def merge_status_def merge_member_def evaluate_frame evaluated_at_def)
  have get: "api_get e (cluster w) ns name = Found q" using assms(2,3) q by (simp add: working_get)
  have "\<not> status_equal e (status q) (status (fst (evaluate e q)))"
    using assms(2,4) evaluate_frame(4) [of e q] status_members_eq(6) [of "status q" "status (fst (evaluate e q))"]
    unfolding working_def evaluated_at_def by fastforce
  moreover have "q' \<noteq> q" using t assms(4) by (auto simp: evaluated_at_def)
  ultimately show "cluster (snd (Reconcile e ns name w)) = put_version q' (cluster w)"
    using assms(2,3) q
    by (simp add: Reconcile_cluster [OF get] patchStatus_def working_patch evaluate_frame merge_into_def flip: q'_def)
  show "fmlookup (sv_store (put_version q' (cluster w))) (ns, name) = Some q'"
    using q by (simp add: put_version_def q'_def)
qed

text \<open>C8 The controller does not keep its requeue interval: while successive evaluations fall into different seconds, each
  status patch starts the next evaluation, whatever Prometheus answers; the loop ends only with an evaluation in the
  second of the one before it.\<close>

theorem watch_never_rests:
  assumes "quota_run h w" and "fmlookup (sv_store (cluster w)) (ns, name) = Some q"
    and "\<And>e. e \<in> set es \<Longrightarrow> working e" and "es \<noteq> [] \<Longrightarrow> \<not> evaluated_at q (hd es)"
    and "successively (\<lambda>e e'. FormatRFC3339 (now_utc e) \<noteq> FormatRFC3339 (now_utc e')) es"
  shows "watch_loop es ns name w = length es"
  using assms
proof (induction es arbitrary: h w q)
  case Nil
  then show ?case by simp
next
  case (Cons e es)
  let ?w = "snd (Reconcile e ns name w)"
  let ?q = "merged q (fst (evaluate e q)) q"
  have e: "working e" "\<not> evaluated_at q e" using Cons.prems(3,4) by simp_all
  note step = working_step [OF run_invariant [OF Cons.prems(1)] e(1) Cons.prems(2) e(2)]
  have "quota_run (h @ quota_read e (cluster w) ns name) ?w"
    using Cons.prems(1) e(1) by (intro reconciled) (simp_all add: working_def)
  moreover have "es \<noteq> [] \<Longrightarrow> \<not> evaluated_at ?q (hd es)"
    using step(3) Cons.prems(5) by (cases es) (simp_all add: evaluated_at_def)
  moreover have "successively (\<lambda>e e'. FormatRFC3339 (now_utc e) \<noteq> FormatRFC3339 (now_utc e')) es"
    using Cons.prems(5) by (cases es) simp_all
  ultimately have "watch_loop es ns name ?w = length es"
    using Cons.IH [of _ ?w ?q] step Cons.prems(3) by simp
  then show ?case by (simp add: step(1) put_version_def)
qed

text \<open>An evaluation in the second of the one before it, with the same outcome, makes no new version.\<close>

theorem watch_rests:
  assumes "run_ok h (cluster w)" and "working e" and "fmlookup (sv_store (cluster w)) (ns, name) = Some q"
    and "status_members (status q) = status_members (status (fst (evaluate e q)))"
  shows "cluster (snd (Reconcile e ns name w)) = cluster w"
proof -
  note q = run_ok_lookup [OF assms(1,3)]
  have get: "api_get e (cluster w) ns name = Found q" using assms(2,3) q by (simp add: working_get)
  have "merge_status (status q) (status (fst (evaluate e q))) (status q) = status q" using assms(4) by (rule merge_status_same)
  then have "merged q (fst (evaluate e q)) q = q" by (simp add: merged_def)
  with assms(2,3) q show ?thesis
    by (simp add: Reconcile_cluster [OF get] patchStatus_def working_patch evaluate_frame merge_into_def)
qed

definition stored_read :: "server \<Rightarrow> string \<Rightarrow> string \<Rightarrow> get_result" where
  "stored_read s ns n = (case fmlookup (sv_store s) (ns, n) of None \<Rightarrow> NotFound
     | Some q \<Rightarrow> if List.member (sv_versions s) q \<and> q_namespace q = ns \<and> q_name q = n then Found q else NotFound)"

definition prompt_env :: "prom_api option \<Rightarrow> utc \<Rightarrow> server env" where
  "prompt_env api now = (lagging_env 0 api now)\<lparr>api_get := stored_read\<rparr>"

lemma prompt_working: "working (prompt_env api now)"
proof -
  have "cached_server (prompt_env api now)"
    using lagging_server [of 0 api now]
    by (auto simp: cached_server_def prompt_env_def stored_read_def split: option.splits if_splits)
  then show ?thesis
    by (simp add: working_def prompt_env_def stored_read_def merge_patch_status_def)
qed

lemma prompt_now: "now_utc (prompt_env api now) = now"
  by (simp add: prompt_env_def)

theorem watch_never_rests_witness:
  "watch_loop [prompt_env (Some demo_prom) (demo_time 10), prompt_env (Some demo_prom) (demo_time 11),
     prompt_env (Some api_down) (demo_time 12)] ''ml'' ''team'' demo_set_world = 3"
proof -
  have "FormatRFC3339 (demo_time 11) \<noteq> FormatRFC3339 (demo_time 12)" by code_simp
  then have "watch_loop [prompt_env (Some demo_prom) (demo_time 10), prompt_env (Some demo_prom) (demo_time 11),
      prompt_env (Some api_down) (demo_time 12)] ''ml'' ''team'' demo_set_world
    = length [prompt_env (Some demo_prom) (demo_time 10), prompt_env (Some demo_prom) (demo_time 11),
      prompt_env (Some api_down) (demo_time 12)]"
    using demo_texts prompt_working
    by (intro watch_never_rests [OF demo_set_run demo_set_store(1)]) (auto simp: evaluated_at_def no_status_def prompt_now)
  then show ?thesis by simp
qed

end
