(* ===== verification/QuotaEndToEnd.thy ===== *)
theory QuotaEndToEnd
  imports QuotaSystem
begin

text \<open>
  From the command line to admission: \<open>crd_apply\<close> is the server-side apply of a quota on the API server of
  \<open>QuotaSystem\<close>, with the defaults and the validation of the CRD (the markers in \<^verbatim>\<open>teaminferencequota_types.go\<close>), so that
  \<^verbatim>\<open>kubefisher quota set\<close>, the controller and the webhook run on one server.
\<close>

section \<open>The CRD\<close>

definition limit_pattern :: "string \<Rightarrow> bool" where
  "limit_pattern s = (takeWhile is_digit s \<noteq> [] \<and> (case dropWhile is_digit s of [] \<Rightarrow> True
     | c # t \<Rightarrow> c = CHR ''.'' \<and> t \<noteq> [] \<and> list_all is_digit t))"

lemma limit_pattern_schema: "limit_pattern s \<Longrightarrow> schema_limit s"
proof -
  assume p: "limit_pattern s"
  let ?ds = "takeWhile is_digit s"
  let ?fs = "case dropWhile is_digit s of [] \<Rightarrow> None | c # t \<Rightarrow> Some t"
  have "s = ?ds @ dropWhile is_digit s" by simp
  moreover have "dropWhile is_digit s = (case ?fs of None \<Rightarrow> '''' | Some t \<Rightarrow> CHR ''.'' # t)"
    using p by (cases "dropWhile is_digit s") (simp_all add: limit_pattern_def del: dropWhile_eq_Nil_conv)
  ultimately have "s = numeral_text False ?ds ?fs" by (simp add: numeral_text_def)
  moreover have "digits ?ds" by (auto simp: digits_def dest: set_takeWhileD)
  moreover have "digits t \<and> t \<noteq> []" if "?fs = Some t" for t
    using p that by (auto simp: limit_pattern_def digits_def list_all_iff split: list.splits)
  ultimately show "schema_limit s"
    using p unfolding schema_limit_def
    by (intro exI [of _ ?ds] exI [of _ ?fs]) (simp add: limit_pattern_def)
qed

definition decode_mode :: "aval option \<Rightarrow> enforcement_mode option" where
  "decode_mode v = (case v of None \<Rightarrow> Some EnforcementModeEnforce
     | Some (AString s) \<Rightarrow> if s = ''Enforce'' then Some EnforcementModeEnforce
         else if s = ''Audit'' then Some EnforcementModeAudit else None
     | _ \<Rightarrow> None)"

definition decode_threshold :: "aval option \<Rightarrow> int option" where
  "decode_threshold v = (case v of None \<Rightarrow> Some 80
     | Some (AInt64 n) \<Rightarrow> if 1 \<le> n \<and> n \<le> 100 then Some n else None | _ \<Rightarrow> None)"

text \<open>A spec that passes the validation, with its defaults filled in.\<close>

definition decode_spec :: "amap \<Rightarrow> quota_spec option" where
  "decode_spec m = (case (fmlookup m ''dailyTokenBudget'', fmlookup m ''monthlyCostLimitUSD'',
       decode_threshold (fmlookup m ''alertThresholdPct''), decode_mode (fmlookup m ''enforcementMode'')) of
     (Some (AInt64 d), Some (AString l), Some t, Some md) \<Rightarrow>
        if 0 \<le> d \<and> in_i64 d \<and> limit_pattern l
        then Some \<lparr>dailyTokenBudget = d, monthlyCostLimitUSD = l, alertThresholdPct = Some t, enforcementMode = md\<rparr>
        else None
   | _ \<Rightarrow> None)"

lemma decode_spec_schema: "decode_spec m = Some sp \<Longrightarrow> spec_schema sp"
  by (auto simp: decode_spec_def spec_schema_def decode_threshold_def limit_pattern_schema
      split: option.splits aval.splits if_splits)

text \<open>The decoder reads what the encoder of the typed spec writes.\<close>

lemma decode_spec_json:
  assumes "0 \<le> d" and "in_i64 d" and "limit_pattern l" and "1 \<le> t" "t \<le> 100" and "m \<noteq> ModeUnset"
  defines "sp \<equiv> \<lparr>dailyTokenBudget = d, monthlyCostLimitUSD = l, alertThresholdPct = Some t, enforcementMode = m\<rparr>"
  shows "decode_spec (spec_json sp) = Some sp"
  using assms(1-6)
  by (cases m) (simp_all add: sp_def decode_spec_def spec_json_lookup decode_threshold_def decode_mode_def mode_text_def)

definition crd_apply :: "server apply_api" where
  "crd_apply s ns name obj = (case fmlookup obj ''spec'' of
     Some (AMap m) \<Rightarrow> (case decode_spec m of Some sp \<Rightarrow> (None, set_spec ns name sp s)
       | None \<Rightarrow> (Some ''spec is invalid'', s))
   | _ \<Rightarrow> (Some ''spec is required'', s))"

section \<open>Setting a quota on the server\<close>

lemma quota_object_spec:
  "fmlookup (quota_object ns name d l mode t) ''spec'' = Some (AMap (fmap_of_list
     [(''dailyTokenBudget'', AInt64 d), (''monthlyCostLimitUSD'', AString l),
      (''enforcementMode'', AString mode), (''alertThresholdPct'', AInt64 t)]))"
  by (simp add: quota_object_def)

text \<open>What a successful \<^verbatim>\<open>quota set\<close> did: its values are valid, and they are the stored spec.\<close>

lemma quota_set_stored:
  assumes "runQuotaSet crd_apply client_error resolved name d l mode t s = (None, s')" and "resolved = Inr ns"
  obtains m where "mode = mode_text m" "m \<noteq> ModeUnset" "ns \<noteq> ''''"
    "spec_schema \<lparr>dailyTokenBudget = d, monthlyCostLimitUSD = l, alertThresholdPct = Some t, enforcementMode = m\<rparr>"
    "s' = set_spec ns name \<lparr>dailyTokenBudget = d, monthlyCostLimitUSD = l, alertThresholdPct = Some t, enforcementMode = m\<rparr> s"
proof -
  let ?m = "if mode = ''Enforce'' then EnforcementModeEnforce else EnforcementModeAudit"
  let ?sp = "\<lparr>dailyTokenBudget = d, monthlyCostLimitUSD = l, alertThresholdPct = Some t, enforcementMode = ?m\<rparr>"
  have mode: "mode = ''Enforce'' \<or> mode = ''Audit''" and ns: "ns \<noteq> ''''"
    and call: "crd_apply s ns name (quota_object ns name d l mode t) = (None, s')"
    using assms by (auto simp: runQuotaSet_def split: if_splits prod.splits option.splits)
  from call mode have sp: "decode_spec (fmap_of_list [(''dailyTokenBudget'', AInt64 d), (''monthlyCostLimitUSD'', AString l),
      (''enforcementMode'', AString mode), (''alertThresholdPct'', AInt64 t)]) = Some ?sp" "s' = set_spec ns name ?sp s"
    by (auto simp: crd_apply_def quota_object_spec decode_spec_def decode_mode_def decode_threshold_def
        split: option.splits if_splits)
  show ?thesis
    using mode ns sp(2) decode_spec_schema [OF sp(1)] by (intro that [of ?m]) (auto simp: mode_text_def)
qed

lemma set_spec_lookup:
  "run_ok h s \<Longrightarrow> \<exists>q. fmlookup (sv_store (set_spec ns name sp s)) (ns, name) = Some q \<and> spec q = sp"
  by (auto simp: set_spec_def put_version_def run_ok_def split: option.splits)


definition demo_set_end :: server where
  "demo_set_end = snd (runQuotaSet crd_apply None (Inr ''ml'') ''team'' 1000 ''500'' ''Enforce'' 80 empty_server)"

lemma demo_set_end: "runQuotaSet crd_apply None (Inr ''ml'') ''team'' 1000 ''500'' ''Enforce'' 80 empty_server = (None, demo_set_end)"
  by (simp add: demo_set_end_def runQuotaSet_def crd_apply_def quota_object_spec decode_spec_def decode_threshold_def
      decode_mode_def in_i64_def limit_pattern_def is_digit_def less_eq_char_def)



end
