(* ===== verification/Startup.thy ===== *)
theory Startup
  imports FloatText GoTime Pricing CostReconcile Install
begin

text \<open>
  The processes: flags and environment of the cost patcher (\<^verbatim>\<open>cmd/cost-patcher\<close>), its parts and probes (\<^verbatim>\<open>app.go\<close>),
  the options and start-up steps of the operator (\<^verbatim>\<open>operator/cmd/main.go\<close>), the clients of the command line
  (\<^verbatim>\<open>kubeclient.go\<close>) and its install command.

  The flag package hands over the pairs it split off the command line, in their order. The environment is a string
  map: \<^verbatim>\<open>os.Getenv\<close> gives the empty string for an absent name.
\<close>

section \<open>Durations of the standard library\<close>

definition leading_int_limit :: nat where
  "leading_int_limit = 2 ^ 63"

fun leading_int :: "nat \<Rightarrow> string \<Rightarrow> (nat \<times> string) option" where
  "leading_int x [] = Some (x, [])"
| "leading_int x (c # s) =
     (if \<not> is_digit c then Some (x, c # s)
      else if leading_int_limit div 10 < x then None
      else let y = x * 10 + digit_val c in if leading_int_limit < y then None else leading_int y s)"

text \<open>The digits of a fraction and their scale; digits beyond 64 bits are skipped.\<close>

fun leading_fraction :: "nat \<Rightarrow> f64 \<Rightarrow> bool \<Rightarrow> string \<Rightarrow> nat \<times> f64 \<times> string" where
  "leading_fraction x sc over [] = (x, sc, [])"
| "leading_fraction x sc over (c # s) =
     (if \<not> is_digit c then (x, sc, c # s)
      else if over \<or> (leading_int_limit - 1) div 10 < x \<or> leading_int_limit < x * 10 + digit_val c
      then leading_fraction x sc True s
      else leading_fraction (x * 10 + digit_val c) (fmul sc (f64_of_int 10)) False s)"

definition duration_units :: "(string \<times> nat) list" where
  "duration_units = [(''ns'', 1), (''us'', 10 ^ 3), ([CHR 0xC2, CHR 0xB5, CHR ''s''], 10 ^ 3),
     ([CHR 0xCE, CHR 0xBC, CHR ''s''], 10 ^ 3), (''ms'', 10 ^ 6), (''s'', 10 ^ 9), (''m'', 60 * 10 ^ 9),
     (''h'', 3600 * 10 ^ 9)]"

definition unit_char :: "char \<Rightarrow> bool" where
  "unit_char c \<longleftrightarrow> \<not> is_digit c \<and> c \<noteq> CHR ''.''"

text \<open>One number with its unit: its nanoseconds and the rest of the text.\<close>

definition duration_group :: "string \<Rightarrow> (nat \<times> string) option" where
  "duration_group s =
     (if s = [] \<or> unit_char (hd s) then None
      else case leading_int 0 s of None \<Rightarrow> None
      | Some (v, s1) \<Rightarrow>
          let pre = length s1 \<noteq> length s;
              (f, sc, s2, post) = (if s1 \<noteq> [] \<and> hd s1 = CHR ''.''
                 then (case leading_fraction 0 (f64_of_int 1) False (tl s1) of
                     (f, sc, s2) \<Rightarrow> (f, sc, s2, length s2 \<noteq> length (tl s1)))
                 else (0, f64_of_int 1, s1, False));
              u = takeWhile unit_char s2
          in if \<not> pre \<and> \<not> post \<or> u = [] then None
          else case map_of duration_units u of None \<Rightarrow> None
          | Some unit \<Rightarrow>
              if leading_int_limit div unit < v then None
              else let w = v * unit + (if 0 < f
                     then nat \<lfloor>fval (fmul (f64_of_int (int f)) (fdiv (f64_of_int (int unit)) sc))\<rfloor> else 0)
                in if leading_int_limit < w then None else Some (w, dropWhile unit_char s2))"

lemma leading_int_length: "leading_int x s = Some (v, t) \<Longrightarrow> length t \<le> length s"
  by (induction x s rule: leading_int.induct) (auto simp: Let_def split: if_splits)

lemma leading_fraction_length: "length (snd (snd (leading_fraction x sc ov s))) \<le> length s"
  by (induction x sc ov s rule: leading_fraction.induct) auto

lemma duration_group_shorter:
  assumes "duration_group s = Some (v, t)"
  shows "length t < length s"
proof -
  obtain n s1 where n: "leading_int 0 s = Some (n, s1)"
    using assms by (auto simp: duration_group_def split: if_splits option.splits)
  have l1: "length s1 \<le> length s" using leading_int_length [OF n] .
  have drop: "length (dropWhile unit_char z) < length z" if "takeWhile unit_char z \<noteq> []" for z
    using that by (metis length_append length_greater_0_conv less_add_same_cancel2 takeWhile_dropWhile_id)
  show ?thesis
  proof (cases "s1 \<noteq> [] \<and> hd s1 = CHR ''.''")
    case True
    obtain f sc s2 where f: "leading_fraction 0 (f64_of_int 1) False (tl s1) = (f, sc, s2)" by (metis surj_pair)
    then have "length s2 \<le> length (tl s1)" using leading_fraction_length [of 0 "f64_of_int 1" False "tl s1"] by simp
    with True l1 assms drop [of s2] show ?thesis
      by (auto simp: duration_group_def n f Let_def split: if_splits option.splits)
  next
    case False
    with l1 assms drop [of s1] show ?thesis
      by (auto simp: duration_group_def n Let_def split: if_splits option.splits)
  qed
qed

function duration_groups :: "nat \<Rightarrow> string \<Rightarrow> nat option" where
  "duration_groups d s = (if s = [] then Some d
     else case duration_group s of None \<Rightarrow> None
     | Some (v, t) \<Rightarrow> if leading_int_limit < d + v then None else duration_groups (d + v) t)"
  by pat_completeness auto

termination
  by (relation "measure (\<lambda>(d, s). length s)") (auto dest: duration_group_shorter)

declare duration_groups.simps [simp del]

definition ParseDuration :: "string \<Rightarrow> int option" where
  "ParseDuration s = (let (neg, t) = strip_sign s in
     if t = ''0'' then Some 0
     else if t = [] then None
     else case duration_groups 0 t of None \<Rightarrow> None
     | Some d \<Rightarrow> if neg then Some (- int d) else if leading_int_limit - 1 < d then None else Some (int d))"


lemma duration_groups_bound: "d \<le> leading_int_limit \<Longrightarrow> duration_groups d s = Some n \<Longrightarrow> n \<le> leading_int_limit"
proof (induction d s rule: duration_groups.induct)
  case (1 d s)
  show ?case
  proof (cases "s = []")
    case True
    with 1(2,3) show ?thesis by (simp add: duration_groups.simps)
  next
    case False
    with 1(3) obtain v t where v: "duration_group s = Some (v, t)" "\<not> leading_int_limit < d + v"
        "duration_groups (d + v) t = Some n"
      by (subst (asm) duration_groups.simps) (auto split: option.splits if_splits)
    with 1(1) [OF False v(1)] show ?thesis by simp
  qed
qed

text \<open>A parsed duration is a 64-bit integer.\<close>

lemma ParseDuration_i64: "ParseDuration s = Some d \<Longrightarrow> in_i64 d"
  using duration_groups_bound [of 0 "snd (strip_sign s)"]
  by (auto simp: ParseDuration_def Let_def in_i64_def leading_int_limit_def split: prod.splits if_splits option.splits)

lemma leading_int_digits:
  assumes "\<And>c. c \<in> set ds \<Longrightarrow> is_digit c" and "rest = [] \<or> \<not> is_digit (hd rest)"
    and "x * 10 ^ length ds + digits_val ds \<le> leading_int_limit"
  shows "leading_int x (ds @ rest) = Some (x * 10 ^ length ds + digits_val ds, rest)"
  using assms
proof (induction ds arbitrary: x)
  case Nil
  then show ?case by (cases rest) auto
next
  case (Cons c ds)
  have val: "digits_val (c # ds) = digit_val c * 10 ^ length ds + digits_val ds"
    using digits_val_append [of "[c]" ds] by (simp add: digits_val_def)
  let ?y = "x * 10 + digit_val c"
  have eq: "?y * 10 ^ length ds + digits_val ds = x * 10 ^ length (c # ds) + digits_val (c # ds)"
    by (simp add: val algebra_simps)
  have "?y \<le> ?y * 10 ^ length ds + digits_val ds" by (simp add: trans_le_add1)
  with eq Cons.prems(3) have le: "?y \<le> leading_int_limit" by linarith
  then have "x \<le> leading_int_limit div 10" by (simp add: less_eq_div_iff_mult_less_eq)
  with Cons.IH [of ?y] Cons.prems(1,2,3) le eq show ?case by (simp add: Let_def not_less)
qed

text \<open>What prints as whole seconds reads back as those seconds.\<close>

lemma ParseDuration_seconds:
  assumes n: "n * 10 ^ 9 < 2 ^ 63"
  shows "ParseDuration (dec n @ ''s'') = Some (int n * 10 ^ 9)"
proof -
  have ne: "dec n \<noteq> []" by simp
  have dig: "is_digit c" if "c \<in> set (dec n)" for c using that by (rule dec_digits)
  have hd: "is_digit (hd (dec n))" using dig [OF hd_in_set [OF ne]] .
  have s: "leading_int 0 (dec n @ ''s'') = Some (n, ''s'')"
    using leading_int_digits [of "dec n" "''s''" 0] dig n
    by (simp add: digits_val_dec is_digit_def less_eq_char_def leading_int_limit_def)
  have strip: "strip_sign (dec n @ ''s'') = (False, dec n @ ''s'')"
    using hd ne by (cases "dec n") (auto simp: strip_sign_def is_digit_def less_eq_char_def)
  have u: "takeWhile unit_char ''s'' = ''s''" "dropWhile unit_char ''s'' = []"
    by (simp_all add: unit_char_def is_digit_def less_eq_char_def)
  have ds: "\<not> is_digit CHR ''s''" by (simp add: is_digit_def less_eq_char_def)
  have unit: "map_of duration_units ''s'' = Some (10 ^ 9)" by (simp add: duration_units_def)
  have q: "n \<le> leading_int_limit div 10 ^ 9" using n by (simp add: leading_int_limit_def)
  have "duration_group (dec n @ ''s'') = Some (n * 10 ^ 9, [])"
    using hd ne n q by (simp add: duration_group_def s u unit ds unit_char_def Let_def leading_int_limit_def)
  then have "duration_groups 0 (dec n @ ''s'') = Some (n * 10 ^ 9)"
    using n by (simp add: duration_groups.simps leading_int_limit_def)
  then show ?thesis
    using n by (auto simp: ParseDuration_def strip Let_def leading_int_limit_def)
qed


section \<open>Flags and environment of the cost patcher\<close>

record config =
  PrometheusURL :: string
  PricingNamespace :: string
  PricingConfigMap :: string
  PricingDataKey :: string
  ReconcileInterval :: int
  PricingPollInterval :: int
  HTTPAddr :: string
  LogFormat :: string

definition envOrDefault :: "smap \<Rightarrow> string \<Rightarrow> string \<Rightarrow> string" where
  "envOrDefault env key def = (let v = mget env key in if v \<noteq> '''' then v else def)"

definition envOrDefaultDuration :: "smap \<Rightarrow> string \<Rightarrow> int \<Rightarrow> int" where
  "envOrDefaultDuration env key def = (let v = mget env key in
     if v \<noteq> '''' then case ParseDuration v of Some d \<Rightarrow> d | None \<Rightarrow> def else def)"

text \<open>The flag package sets a flag at each of its occurrences; an undefined flag or a value that does not parse
  ends the process with status 2, which is \<open>None\<close> here.\<close>

type_synonym flag_args = "(string \<times> string) list"

definition flag_string :: "flag_args \<Rightarrow> string \<Rightarrow> string \<Rightarrow> string" where
  "flag_string args name def = fold (\<lambda>(n, v) a. if n = name then v else a) args def"

definition flag_duration :: "flag_args \<Rightarrow> string \<Rightarrow> int \<Rightarrow> int option" where
  "flag_duration args name def = fold (\<lambda>(n, v) a. if n = name then (case a of None \<Rightarrow> None | Some _ \<Rightarrow> ParseDuration v) else a)
     args (Some def)"

definition patcher_flags :: "string list" where
  "patcher_flags = [''prometheus-url'', ''pricing-namespace'', ''pricing-configmap'', ''pricing-key'',
     ''reconcile-interval'', ''pricing-refresh-interval'', ''http-addr'', ''log-format'']"

definition parseFlags :: "smap \<Rightarrow> flag_args \<Rightarrow> config option" where
  "parseFlags env args =
     (if \<not> list_all (\<lambda>(n, v). List.member patcher_flags n) args then None
      else case (flag_duration args ''reconcile-interval'' (envOrDefaultDuration env ''RECONCILE_INTERVAL'' (30 * ns_per_sec)),
          flag_duration args ''pricing-refresh-interval'' (envOrDefaultDuration env ''PRICING_REFRESH_INTERVAL'' (60 * ns_per_sec))) of
        (Some every, Some poll) \<Rightarrow> Some \<lparr>
          PrometheusURL = flag_string args ''prometheus-url'' (envOrDefault env ''PROMETHEUS_URL'' ''http://localhost:9090''),
          PricingNamespace = flag_string args ''pricing-namespace''
            (envOrDefault env ''PRICING_CONFIGMAP_NAMESPACE'' ''kubefisher-system''),
          PricingConfigMap = flag_string args ''pricing-configmap'' (envOrDefault env ''PRICING_CONFIGMAP_NAME'' ''gpu-pricing''),
          PricingDataKey = flag_string args ''pricing-key'' (envOrDefault env ''PRICING_CONFIGMAP_KEY'' ''pricing.yaml''),
          ReconcileInterval = every, PricingPollInterval = poll,
          HTTPAddr = flag_string args ''http-addr'' (envOrDefault env ''HTTP_ADDR'' '':8080''),
          LogFormat = flag_string args ''log-format'' (envOrDefault env ''LOG_FORMAT'' '''')\<rparr>
      | _ \<Rightarrow> None)"

section \<open>The parts of the cost patcher\<close>

datatype log_handler = TextHandler | JSONHandler

definition NewLogger :: "smap \<Rightarrow> string \<Rightarrow> log_handler" where
  "NewLogger env logFormat = (let format = (if logFormat = '''' then mget env ''LOG_FORMAT'' else logFormat) in
     if format = ''text'' then TextHandler else JSONHandler)"

text \<open>The probes: a status code and a body.\<close>

definition healthz :: "int \<times> string" where
  "healthz = (200, ''ok'' @ [CHR 0x0A])"

definition readyz :: "prom_api \<Rightarrow> int \<times> string" where
  "readyz api = (case QueryInstant api \<lparr>pq_format = ''vector(1)'', pq_args = []\<rparr> of
     Inl err \<Rightarrow> (503, err @ [CHR 0x0A])
   | Inr _ \<Rightarrow> (200, ''ok'' @ [CHR 0x0A]))"

text \<open>An error of a run, and whether it is the cancellation of the context. The argument \<open>served\<close> is what
  \<^verbatim>\<open>ListenAndServe\<close> returned when it did.\<close>

datatype run_failure = Cancelled string | Failed string
datatype serve_result = ServerClosed | ServeError string | Served

definition runHTTPServer :: "serve_result \<Rightarrow> run_failure option" where
  "runHTTPServer served = (case served of ServeError err \<Rightarrow> Some (Failed err) | _ \<Rightarrow> None)"

text \<open>\<^verbatim>\<open>time.NewTicker\<close> panics on an interval that is not positive. Both loops start with a ticker and the group waits
  for all its goroutines, so such an interval always brings the process down.\<close>

definition NewTicker :: "int \<Rightarrow> string option" where
  "NewTicker d = (if d \<le> 0 then Some ''non-positive interval for NewTicker'' else None)"

definition NewClient :: "(string \<Rightarrow> string option) \<Rightarrow> string \<Rightarrow> string option" where
  "NewClient api_client baseURL = (case api_client baseURL of
     Some err \<Rightarrow> Some (''prometheus api client: '' @ err) | None \<Rightarrow> None)"

datatype app_end = Crashed string | Returned "run_failure option"

definition app_Run :: "run_failure option \<Rightarrow> (string \<Rightarrow> string option) \<Rightarrow> serve_result \<Rightarrow> config \<Rightarrow> app_end" where
  "app_Run cached api_client served cfg = (case cached of
     Some err \<Rightarrow> Returned (Some err)
   | None \<Rightarrow> (case NewClient api_client (PrometheusURL cfg) of
       Some err \<Rightarrow> Returned (Some (Failed err))
     | None \<Rightarrow> (case NewTicker (PricingPollInterval cfg) of
         Some msg \<Rightarrow> Crashed msg
       | None \<Rightarrow> (case NewTicker (ReconcileInterval cfg) of
           Some msg \<Rightarrow> Crashed msg
         | None \<Rightarrow> (case runHTTPServer served of
             Some (Failed err) \<Rightarrow> Returned (Some (Failed err))
           | _ \<Rightarrow> Returned None)))))"

text \<open>The exit status of the process; an unrecovered panic exits with 2.\<close>

definition cost_patcher_main ::
  "run_failure option \<Rightarrow> (string \<Rightarrow> string option) \<Rightarrow> serve_result \<Rightarrow> smap \<Rightarrow> flag_args \<Rightarrow> int" where
  "cost_patcher_main cached api_client served env args = (case parseFlags env args of
     None \<Rightarrow> 2
   | Some cfg \<Rightarrow> (case app_Run cached api_client served cfg of
       Crashed _ \<Rightarrow> 2
     | Returned (Some (Failed _)) \<Rightarrow> 1
     | Returned _ \<Rightarrow> 0))"

text \<open>The process has a valid configuration, its clients and its port; an interval of the environment is zero or
  negative: it crashes, although a value that is no duration at all would be replaced by the default.\<close>

lemma flag_duration_none [simp]: "flag_duration [] name def = Some def"
  by (simp add: flag_duration_def)

theorem interval_of_environment:
  assumes "api_client (envOrDefault env ''PROMETHEUS_URL'' ''http://localhost:9090'') = None"
    and "mget env ''PRICING_REFRESH_INTERVAL'' = ''''" and "mget env ''RECONCILE_INTERVAL'' = v" "v \<noteq> ''''"
  shows "cost_patcher_main None api_client ServerClosed env [] =
    (case ParseDuration v of None \<Rightarrow> 0 | Some d \<Rightarrow> if d \<le> 0 then 2 else 0)"
  using assms
  by (auto simp: cost_patcher_main_def parseFlags_def app_Run_def NewClient_def NewTicker_def runHTTPServer_def
      envOrDefaultDuration_def flag_string_def ns_per_sec_def Let_def split: option.splits)

section \<open>The two loops of the cost patcher\<close>

text \<open>The loops run in goroutines of their own, one on the collector, one on the cluster.\<close>

datatype patcher_event = Refreshed refresh_answers | Ticked tick_input

fun patcher_step :: "rng \<Rightarrow> 'c kube \<Rightarrow> adapter list \<Rightarrow> patcher_event \<Rightarrow> collector \<times> 'c \<Rightarrow> collector \<times> 'c" where
  "patcher_step rng K adapters (Refreshed (fetched, nodes)) (pc, c) = (refresh rng fetched nodes pc, c)"
| "patcher_step rng K adapters (Ticked i) (pc, c) =
     (pc, snd (tick K (ti_api i) adapters (ti_now i) (ti_owners_now i) c))"

definition refreshes :: "patcher_event list \<Rightarrow> refresh_answers list" where
  "refreshes evs = List.map_filter (\<lambda>e. case e of Refreshed a \<Rightarrow> Some a | Ticked _ \<Rightarrow> None) evs"

definition ticks :: "patcher_event list \<Rightarrow> tick_input list" where
  "ticks evs = List.map_filter (\<lambda>e. case e of Refreshed _ \<Rightarrow> None | Ticked i \<Rightarrow> Some i) evs"

text \<open>However their rounds interleave, each loop does what it does alone.\<close>

theorem patcher_loops_independent:
  "fold (patcher_step rng K adapters) evs (pc, c) =
     (run_refreshes rng (refreshes evs) pc, run_ticks K adapters (ticks evs) c)"
proof (induction evs arbitrary: pc c)
  case Nil
  show ?case by (simp add: refreshes_def ticks_def map_filter_def run_ticks_def)
next
  case (Cons ev evs)
  then show ?case
    by (cases ev) (auto simp: refreshes_def ticks_def map_filter_def run_ticks_def)
qed


section \<open>The operator\<close>

record operator_flags =
  metricsAddr :: string
  metricsCertPath :: string
  metricsCertName :: string
  metricsCertKey :: string
  webhookCertPath :: string
  webhookCertName :: string
  webhookCertKey :: string
  enableLeaderElection :: bool
  probeAddr :: string
  secureMetrics :: bool
  enableHTTP2 :: bool
  disableWebhook :: bool
  prometheusURL :: string

definition default_operator_flags :: operator_flags where
  "default_operator_flags = \<lparr>metricsAddr = ''0'', metricsCertPath = '''', metricsCertName = ''tls.crt'',
     metricsCertKey = ''tls.key'', webhookCertPath = '''', webhookCertName = ''tls.crt'', webhookCertKey = ''tls.key'',
     enableLeaderElection = False, probeAddr = '':8081'', secureMetrics = True, enableHTTP2 = False,
     disableWebhook = False, prometheusURL = ''''\<rparr>"

text \<open>The address of Prometheus: the flag, else the environment, else the local default.\<close>

definition operator_promURL :: "smap \<Rightarrow> operator_flags \<Rightarrow> string" where
  "operator_promURL env fl = (let u1 = prometheusURL fl;
     u2 = (if u1 = '''' then mget env ''PROMETHEUS_URL'' else u1)
   in if u2 = '''' then ''http://localhost:9090'' else u2)"

text \<open>The TLS options are functions on the protocols a server offers; \<open>None\<close> leaves the library's choice.\<close>

type_synonym tls_opt = "string list option \<Rightarrow> string list option"

definition disableHTTP2 :: tls_opt where
  "disableHTTP2 protos = Some [''http/1.1'']"

definition tls_opts :: "operator_flags \<Rightarrow> tls_opt list" where
  "tls_opts fl = (if \<not> enableHTTP2 fl then [disableHTTP2] else [])"

record server_options =
  so_TLSOpts :: "tls_opt list"
  so_CertDir :: string
  so_CertName :: string
  so_KeyName :: string

definition webhook_options :: "operator_flags \<Rightarrow> server_options option" where
  "webhook_options fl =
     (if disableWebhook fl then None
      else let o1 = \<lparr>so_TLSOpts = tls_opts fl, so_CertDir = '''', so_CertName = '''', so_KeyName = ''''\<rparr>
        in Some (if 0 < length (webhookCertPath fl)
             then o1\<lparr>so_CertDir := webhookCertPath fl, so_CertName := webhookCertName fl, so_KeyName := webhookCertKey fl\<rparr>
             else o1))"

record metrics_options = server_options +
  mo_BindAddress :: string
  mo_SecureServing :: bool
  mo_Authenticated :: bool

definition metrics_server_options :: "operator_flags \<Rightarrow> metrics_options" where
  "metrics_server_options fl =
     (let o1 = \<lparr>so_TLSOpts = tls_opts fl, so_CertDir = '''', so_CertName = '''', so_KeyName = '''',
            mo_BindAddress = metricsAddr fl, mo_SecureServing = secureMetrics fl, mo_Authenticated = False\<rparr>;
          o2 = (if secureMetrics fl then o1\<lparr>mo_Authenticated := True\<rparr> else o1)
      in if 0 < length (metricsCertPath fl)
         then o2\<lparr>so_CertDir := metricsCertPath fl, so_CertName := metricsCertName fl, so_KeyName := metricsCertKey fl\<rparr>
         else o2)"

record manager_options =
  mg_Metrics :: metrics_options
  mg_ProbeAddress :: string
  mg_LeaderElection :: bool
  mg_LeaderElectionID :: string
  mg_Webhook :: "server_options option"

definition manager_options_of :: "operator_flags \<Rightarrow> manager_options" where
  "manager_options_of fl = \<lparr>mg_Metrics = metrics_server_options fl, mg_ProbeAddress = probeAddr fl,
     mg_LeaderElection = enableLeaderElection fl, mg_LeaderElectionID = ''651a7395.kubefisher.io'',
     mg_Webhook = webhook_options fl\<rparr>"

text \<open>The steps of \<^verbatim>\<open>main\<close> that can fail, in their order; the first failure exits with 1.\<close>

datatype setup_step = PrometheusClient string | KubeConfig | NewManager manager_options | SetupController
  | SetupWebhook | AddHealthz | AddReadyz | StartManager

definition operator_steps :: "smap \<Rightarrow> operator_flags \<Rightarrow> setup_step list" where
  "operator_steps env fl = [PrometheusClient (operator_promURL env fl), KubeConfig, NewManager (manager_options_of fl),
     SetupController] @ (if \<not> disableWebhook fl then [SetupWebhook] else []) @ [AddHealthz, AddReadyz, StartManager]"

definition operator_main :: "(setup_step \<Rightarrow> bool) \<Rightarrow> smap \<Rightarrow> operator_flags \<Rightarrow> int \<times> setup_step list" where
  "operator_main fails env fl = (let steps = operator_steps env fl; done_steps = takeWhile (\<lambda>s. \<not> fails s) steps
     in (if length done_steps < length steps then 1 else 0, done_steps))"

definition offered :: "tls_opt list \<Rightarrow> string list option" where
  "offered opts = fold (\<lambda>f p. f p) opts None"

text \<open>An operator that comes up serves its metrics to authenticated clients only, unless told to serve them
  without TLS; offers HTTP/2 on no server unless asked to; and serves admission unless the webhook is disabled.\<close>

theorem operator_serves:
  assumes "operator_main fails env fl = (0, did)"
  shows "\<exists>m. NewManager m \<in> set did
    \<and> (mo_SecureServing (mg_Metrics m) \<longleftrightarrow> secureMetrics fl) \<and> (mo_Authenticated (mg_Metrics m) \<longleftrightarrow> secureMetrics fl)
    \<and> (SetupWebhook \<in> set did \<longleftrightarrow> mg_Webhook m \<noteq> None) \<and> (mg_Webhook m \<noteq> None \<longleftrightarrow> \<not> disableWebhook fl)
    \<and> (\<not> enableHTTP2 fl \<longrightarrow> offered (so_TLSOpts (mg_Metrics m)) = Some [''http/1.1'']
        \<and> (\<forall>w. mg_Webhook m = Some w \<longrightarrow> offered (so_TLSOpts w) = Some [''http/1.1'']))"
proof -
  have "length did = length (operator_steps env fl)" "did = takeWhile (\<lambda>s. \<not> fails s) (operator_steps env fl)"
    using assms length_takeWhile_le [of "\<lambda>s. \<not> fails s" "operator_steps env fl"]
    by (auto simp: operator_main_def Let_def split: if_splits)
  then have did: "did = operator_steps env fl"
    by (metis append_Nil2 append_eq_append_conv takeWhile_dropWhile_id)
  show ?thesis
    by (rule exI [of _ "manager_options_of fl"])
      (auto simp: did operator_steps_def manager_options_of_def webhook_options_def metrics_server_options_def
        offered_def tls_opts_def disableHTTP2_def Let_def)
qed

section \<open>Clients of the command line\<close>

text \<open>The kubeconfig and the constructors of the client libraries answer with an error or a value.\<close>

record client_config =
  ExplicitPath :: string
  CurrentContext :: string

definition NewClientConfig :: "string \<Rightarrow> string \<Rightarrow> client_config" where
  "NewClientConfig kubeconfigPath contextName =
     (let c0 = \<lparr>ExplicitPath = '''', CurrentContext = ''''\<rparr>;
          c1 = (if kubeconfigPath \<noteq> '''' then c0\<lparr>ExplicitPath := kubeconfigPath\<rparr> else c0)
      in if contextName \<noteq> '''' then c1\<lparr>CurrentContext := contextName\<rparr> else c1)"

definition library_client :: "string \<Rightarrow> ('r \<Rightarrow> string + 'k) \<Rightarrow> 'r \<Rightarrow> string + 'k" where
  "library_client what new_client r = (case new_client r of Inl err \<Rightarrow> Inl (what @ '': '' @ err) | Inr k \<Rightarrow> Inr k)"

definition NewDynamicClient :: "string + 'r \<Rightarrow> ('r \<Rightarrow> string + 'k) \<Rightarrow> string + 'k" where
  "NewDynamicClient rest new_client = (case rest of Inl err \<Rightarrow> Inl (''rest config: '' @ err)
     | Inr r \<Rightarrow> library_client ''dynamic client'' new_client r)"

definition BuildControllerRuntimeClient :: "string + 'r \<Rightarrow> ('r \<Rightarrow> string + 'k) \<Rightarrow> string + 'k" where
  "BuildControllerRuntimeClient rest new_client = (case rest of Inl err \<Rightarrow> Inl (''rest config: '' @ err)
     | Inr r \<Rightarrow> library_client ''controller-runtime client'' new_client r)"

definition NewDiscoveryClient :: "string + 'r \<Rightarrow> ('r \<Rightarrow> string + 'k) \<Rightarrow> string + 'k" where
  "NewDiscoveryClient rest new_client = (case rest of Inl err \<Rightarrow> Inl (''rest config: '' @ err)
     | Inr r \<Rightarrow> library_client ''discovery client'' new_client r)"

definition NewTypedClient :: "string + 'r \<Rightarrow> ('r \<Rightarrow> string + 'k) \<Rightarrow> string + 'k" where
  "NewTypedClient rest new_client = (case rest of Inl err \<Rightarrow> Inl (''rest config: '' @ err)
     | Inr r \<Rightarrow> library_client ''typed client'' new_client r)"

text \<open>The client of the cost patcher: reads go to the cache, except for the kinds it is disabled for.\<close>

record 'a cached_options =
  co_reader :: 'a
  co_DisableFor :: "string list"

definition NewCached ::
  "string + 'r \<Rightarrow> ('r \<Rightarrow> string + 'a) \<Rightarrow> ('a \<Rightarrow> bool) \<Rightarrow> ('r \<Rightarrow> 'a cached_options \<Rightarrow> string + 'k) \<Rightarrow> string + 'k \<times> 'r" where
  "NewCached cfg new_cache synced new_client = (case cfg of Inl err \<Rightarrow> Inl (''kube config: '' @ err)
   | Inr r \<Rightarrow> (case new_cache r of Inl err \<Rightarrow> Inl (''kube cache: '' @ err)
     | Inr a \<Rightarrow> if \<not> synced a then Inl ''kube cache: sync failed''
         else (case new_client r \<lparr>co_reader = a, co_DisableFor = [''ConfigMap'']\<rparr> of Inl err \<Rightarrow> Inl (''kube client: '' @ err)
           | Inr k \<Rightarrow> Inr (k, r))))"

definition NewFromConfig :: "string + 'r \<Rightarrow> ('r \<Rightarrow> string + 'k) \<Rightarrow> string + 'k \<times> 'r" where
  "NewFromConfig cfg new_client = (case cfg of Inl err \<Rightarrow> Inl (''kube config: '' @ err)
   | Inr r \<Rightarrow> (case new_client r of Inl err \<Rightarrow> Inl (''kube client: '' @ err) | Inr k \<Rightarrow> Inr (k, r)))"

definition NewFromKubeconfig :: "string + 'r \<Rightarrow> ('r \<Rightarrow> string + 'k) \<Rightarrow> string + 'k \<times> 'r" where
  "NewFromKubeconfig cfg new_client = (case cfg of Inl err \<Rightarrow> Inl err
   | Inr r \<Rightarrow> (case new_client r of Inl err \<Rightarrow> Inl err | Inr k \<Rightarrow> Inr (k, r)))"

definition initLogging :: "string \<Rightarrow> log_handler" where
  "initLogging format = (if format = ''json'' then JSONHandler else TextHandler)"

section \<open>The install command\<close>

datatype install_failure = InstallClient string | InstallFailed install_error

definition install_command ::
  "string + 'r \<Rightarrow> ('r \<Rightarrow> string + unit) \<Rightarrow> ('r \<Rightarrow> string + unit) \<Rightarrow> 'c site \<Rightarrow> install_options \<Rightarrow> 'c
     \<Rightarrow> (install_failure + string list) \<times> 'c" where
  "install_command rest mk_client mk_disc S flags c =
     (let opts = (if o_Namespace flags = '''' then flags\<lparr>o_Namespace := ''kubefisher-system''\<rparr> else flags)
      in case BuildControllerRuntimeClient rest mk_client of Inl err \<Rightarrow> (Inl (InstallClient err), c)
       | Inr _ \<Rightarrow> (case NewDiscoveryClient rest mk_disc of Inl err \<Rightarrow> (Inl (InstallClient err), c)
         | Inr _ \<Rightarrow> apfst (map_sum InstallFailed id) (Run S opts c)))"

text \<open>An install without its clients touches nothing, and one without a namespace goes to the system's own.\<close>

theorem install_command_cases:
  "install_command rest mk_client mk_disc S flags c =
     (if isl (BuildControllerRuntimeClient rest mk_client) \<or> isl (NewDiscoveryClient rest mk_disc)
      then (Inl (InstallClient (if isl (BuildControllerRuntimeClient rest mk_client)
              then projl (BuildControllerRuntimeClient rest mk_client)
              else projl (NewDiscoveryClient rest mk_disc))), c)
      else apfst (map_sum InstallFailed id) (Run S (flags\<lparr>o_Namespace :=
              (if o_Namespace flags = '''' then ''kubefisher-system'' else o_Namespace flags)\<rparr>) c))"
  by (auto simp: install_command_def Let_def split: sum.splits)

end
