(* ===== verification/CommandTree.thy ===== *)
theory CommandTree
  imports QuotaEndToEnd Commands DeployRun Startup
begin

text \<open>
  The command line of \<^verbatim>\<open>kubefisher\<close>: the tree of commands with their flags and defaults (\<^verbatim>\<open>root.go\<close> and the constructors of
  the commands), and what a command line starts.

  The Cobra library splits the command line into words and flags and converts the text of a flag to its declared type;
  that is the input here, with the flags in their order. Its documented rules, which the commands rely on, are modelled:
  a word that names a subcommand descends, the last occurrence of a flag counts, an own flag hides an inherited one of
  its name, and an unknown command, an unknown flag, a wrong number of arguments or a missing required flag ends the
  command before it runs. Its built-in commands and flags (help, completion) are left out.
\<close>

section \<open>Commands and flags\<close>

datatype val = VString string | VBool bool | VInt64 int | VInt32 int | VDuration int

record flag =
  fl_name :: string
  fl_short :: string
  fl_default :: val
  fl_required :: bool

definition flag_of :: "string \<Rightarrow> string \<Rightarrow> val \<Rightarrow> flag" where
  "flag_of name short def = \<lparr>fl_name = name, fl_short = short, fl_default = def, fl_required = False\<rparr>"

definition MarkFlagRequired :: "string \<Rightarrow> flag list \<Rightarrow> flag list" where
  "MarkFlagRequired name fs = map (\<lambda>f. if fl_name f = name then f\<lparr>fl_required := True\<rparr> else f) fs"

text \<open>A command with its use line, aliases, exact number of arguments if it asks for one, whether it runs by itself,
  its flags and its subcommands.\<close>

datatype command = Command (cmd_use: string) (cmd_aliases: "string list") (cmd_exact: "nat option") (cmd_runs: bool)
  (cmd_flags: "flag list") (cmd_sub: "command list")

definition newQuotaListCommand :: command where
  "newQuotaListCommand = Command ''list'' [''ls''] None True [] []"

definition newQuotaGetCommand :: command where
  "newQuotaGetCommand = Command ''get NAME'' [] (Some 1) True [] []"

definition newQuotaSetCommand :: command where
  "newQuotaSetCommand = Command ''set'' [] None True
    (MarkFlagRequired ''monthly-cost'' (MarkFlagRequired ''daily-tokens'' (MarkFlagRequired ''name''
      [flag_of ''name'' '''' (VString ''''), flag_of ''daily-tokens'' '''' (VInt64 0),
       flag_of ''monthly-cost'' '''' (VString ''''), flag_of ''mode'' '''' (VString ''Enforce''),
       flag_of ''alert-threshold'' '''' (VInt32 80)]))) []"

definition newQuotaCommand :: command where
  "newQuotaCommand = Command ''quota'' [''tiq''] None False []
     [newQuotaListCommand, newQuotaGetCommand, newQuotaSetCommand]"

definition newInstallCommand :: command where
  "newInstallCommand = Command ''install'' [] None True
     [flag_of ''namespace'' ''n'' (VString ''''), flag_of ''dry-run'' '''' (VBool False),
      flag_of ''skip-prometheus'' '''' (VBool False), flag_of ''chart-path'' '''' (VString '''')] []"

definition newVersionCommand :: command where
  "newVersionCommand = Command ''version'' [] None True [] []"

definition newCostCommand :: command where
  "newCostCommand = Command ''cost'' [] None True [flag_of ''watch'' ''w'' (VBool False)] []"

definition newDeployCommand :: command where
  "newDeployCommand = Command ''deploy'' [] None True (MarkFlagRequired ''model''
     [flag_of ''model'' '''' (VString ''''), flag_of ''gpu'' '''' (VString ''a10g''),
      flag_of ''team'' '''' (VString ''default''), flag_of ''replicas'' '''' (VInt32 1),
      flag_of ''image'' '''' (VString ''''), flag_of ''dry-run'' '''' (VBool False),
      flag_of ''timeout'' '''' (VDuration (600 * ns_per_sec))]) []"

definition newStatusCommand :: command where
  "newStatusCommand = Command ''status NAME'' [] (Some 1) True [] []"

definition newLogsCommand :: command where
  "newLogsCommand = Command ''logs NAME'' [] (Some 1) True
     [flag_of ''follow'' ''f'' (VBool True), flag_of ''container'' ''c'' (VString ''''),
      flag_of ''pod'' '''' (VString '''')] []"

definition root_command :: "smap \<Rightarrow> command" where
  "root_command env = Command ''kubefisher'' [] None False
     [flag_of ''kubeconfig'' '''' (VString ''''), flag_of ''context'' '''' (VString ''''),
      flag_of ''namespace'' ''n'' (VString ''''), flag_of ''all-namespaces'' ''A'' (VBool False),
      flag_of ''output'' ''o'' (VString ''table''),
      flag_of ''log-format'' '''' (VString (envOrDefault env ''LOG_FORMAT'' ''text''))]
     [newQuotaCommand, newInstallCommand, newVersionCommand, newCostCommand, newDeployCommand, newStatusCommand,
      newLogsCommand]"

section \<open>Running a command line\<close>

type_synonym given = "(string \<times> val) list"

definition cmd_name :: "command \<Rightarrow> string" where
  "cmd_name c = takeWhile (\<lambda>ch. ch \<noteq> CHR '' '') (cmd_use c)"

definition called :: "string \<Rightarrow> command \<Rightarrow> bool" where
  "called w c \<longleftrightarrow> cmd_name c = w \<or> List.member (cmd_aliases c) w"

fun find_command :: "command \<Rightarrow> string list \<Rightarrow> string list \<Rightarrow> command \<times> string list \<times> string list" where
  "find_command c path [] = (c, path, [])"
| "find_command c path (w # ws) = (case List.find (called w) (cmd_sub c) of
     Some s \<Rightarrow> find_command s (path @ [cmd_name s]) ws | None \<Rightarrow> (c, path, w # ws))"

text \<open>The flags in effect for a command: its own, then those of the root that they do not hide.\<close>

definition all_flags :: "flag list \<Rightarrow> flag list \<Rightarrow> flag list" where
  "all_flags own inherited = own @ filter (\<lambda>f. \<not> List.member (map fl_name own) (fl_name f)) inherited"

fun same_type :: "val \<Rightarrow> val \<Rightarrow> bool" where
  "same_type (VString _) (VString _) = True"
| "same_type (VBool _) (VBool _) = True"
| "same_type (VInt64 n) (VInt64 _) = in_i64 n"
| "same_type (VInt32 n) (VInt32 _) = in_i32 n"
| "same_type (VDuration n) (VDuration _) = in_i64 n"
| "same_type _ _ = False"

definition flag_value :: "flag list \<Rightarrow> given \<Rightarrow> string \<Rightarrow> val" where
  "flag_value fs given name = (case List.find (\<lambda>(n, v). n = name) (rev given) of Some (n, v) \<Rightarrow> v
     | None \<Rightarrow> (case List.find (\<lambda>f. fl_name f = name) fs of Some f \<Rightarrow> fl_default f | None \<Rightarrow> VString ''''))"

datatype cli_error = UnknownCommand string | BadFlag string | ArgsError nat | MissingFlags "string list"

datatype invocation = QuotaList | QuotaGet string | QuotaSet string int string string int
  | InstallRun install_options | VersionRun | CostRun bool | DeployRun deploy_options int | StatusRun string
  | LogsRun string bool string string

record global_flags =
  g_Kubeconfig :: string
  g_Context :: string
  g_Namespace :: string
  g_AllNamespaces :: bool
  g_Output :: string
  g_LogFormat :: string

fun string_value :: "val \<Rightarrow> string" where "string_value (VString s) = s" | "string_value _ = ''''"
fun bool_value :: "val \<Rightarrow> bool" where "bool_value (VBool b) = b" | "bool_value _ = False"
fun int_value :: "val \<Rightarrow> int" where
  "int_value (VInt64 n) = n" | "int_value (VInt32 n) = n" | "int_value (VDuration n) = n" | "int_value _ = 0"

text \<open>The closures \<^verbatim>\<open>RunE\<close> of the commands, by the names along their path. The namespace of a deployment is resolved by
  \<open>deploy_command\<close>.\<close>

definition RunE :: "string list \<Rightarrow> (string \<Rightarrow> val) \<Rightarrow> string list \<Rightarrow> invocation option" where
  "RunE path v args =
    (if path = [''quota'', ''list''] then Some QuotaList
     else if path = [''quota'', ''get''] then Some (QuotaGet (args ! 0))
     else if path = [''quota'', ''set''] then Some (QuotaSet (string_value (v ''name'')) (int_value (v ''daily-tokens''))
       (string_value (v ''monthly-cost'')) (string_value (v ''mode'')) (int_value (v ''alert-threshold'')))
     else if path = [''install''] then Some (InstallRun \<lparr>o_Namespace = string_value (v ''namespace''),
       o_DryRun = bool_value (v ''dry-run''), o_SkipPrometheus = bool_value (v ''skip-prometheus''),
       o_ChartPath = string_value (v ''chart-path'')\<rparr>)
     else if path = [''version''] then Some VersionRun
     else if path = [''cost''] then Some (CostRun (bool_value (v ''watch'')))
     else if path = [''deploy''] then Some (DeployRun \<lparr>do_model = string_value (v ''model''), do_gpu = string_value (v ''gpu''),
       do_namespace = '''', do_team = string_value (v ''team''), do_replicas = int_value (v ''replicas''),
       do_image = string_value (v ''image''), do_dryRun = bool_value (v ''dry-run'')\<rparr> (int_value (v ''timeout'')))
     else if path = [''status''] then Some (StatusRun (args ! 0))
     else if path = [''logs''] then Some (LogsRun (args ! 0) (bool_value (v ''follow'')) (string_value (v ''container''))
       (string_value (v ''pod'')))
     else None)"

definition globals_of :: "(string \<Rightarrow> val) \<Rightarrow> global_flags" where
  "globals_of v = \<lparr>g_Kubeconfig = string_value (v ''kubeconfig''), g_Context = string_value (v ''context''),
     g_Namespace = string_value (v ''namespace''), g_AllNamespaces = bool_value (v ''all-namespaces''),
     g_Output = string_value (v ''output''), g_LogFormat = string_value (v ''log-format'')\<rparr>"

datatype outcome = Help | Started log_handler global_flags invocation

text \<open>\<^verbatim>\<open>Execute\<close>: the log handler that \<^verbatim>\<open>PersistentPreRunE\<close> sets, the global flags and what runs. Where a command hides a
  global flag, the global one keeps its default.\<close>

definition Execute :: "smap \<Rightarrow> string list \<Rightarrow> given \<Rightarrow> cli_error + outcome" where
  "Execute env words given =
    (let root = root_command env in case find_command root [] words of (c, path, args) \<Rightarrow>
      (let own = (if path = [] then [] else cmd_flags c); fs = all_flags own (cmd_flags root);
           hidden = (\<lambda>n. List.member (map fl_name own) n);
           bad = filter (\<lambda>(n, v). \<not> list_ex (\<lambda>f. fl_name f = n \<and> same_type v (fl_default f)) fs) given;
           missing = filter (\<lambda>f. fl_required f \<and> \<not> List.member (map fst given) (fl_name f)) fs;
           globals = globals_of (\<lambda>n. flag_value (cmd_flags root) (filter (\<lambda>(m, v). \<not> hidden m) given) n) in
       if path = [] \<and> args \<noteq> [] then Inl (UnknownCommand (hd args))
       else if bad \<noteq> [] then Inl (BadFlag (fst (hd bad)))
       else if \<not> cmd_runs c then Inr Help
       else if cmd_exact c \<noteq> None \<and> cmd_exact c \<noteq> Some (length args) then Inl (ArgsError (length args))
       else if missing \<noteq> [] then Inl (MissingFlags (map fl_name missing))
       else (case RunE path (flag_value fs given) args of None \<Rightarrow> Inr Help
         | Some what \<Rightarrow> Inr (Started (initLogging (g_LogFormat globals)) globals what))))"

section \<open>The tree is well formed\<close>

text \<open>The flag library panics when a command has two flags of one name or one shorthand, hidden ones aside, and Cobra
  takes the first of two subcommands that answer to one word. \<open>tree_ok\<close> rules both out in a command and below it.\<close>

definition flags_ok :: "flag list \<Rightarrow> flag list \<Rightarrow> bool" where
  "flags_ok own inherited \<longleftrightarrow> distinct (map fl_name own)
     \<and> distinct (filter (\<lambda>s. s \<noteq> '''') (map fl_short (all_flags own inherited)))"

definition words_of :: "command \<Rightarrow> string list" where
  "words_of c = cmd_name c # cmd_aliases c"

fun tree_ok :: "flag list \<Rightarrow> command \<Rightarrow> bool" where
  "tree_ok inherited (Command u al n r fs sub) \<longleftrightarrow>
     flags_ok fs inherited \<and> distinct (concat (map words_of sub)) \<and> (\<forall>s \<in> set sub. tree_ok inherited s)"

lemmas command_defs = root_command_def newQuotaCommand_def newQuotaListCommand_def newQuotaGetCommand_def
  newQuotaSetCommand_def newInstallCommand_def newVersionCommand_def newCostCommand_def newDeployCommand_def
  newStatusCommand_def newLogsCommand_def

theorem command_tree_ok:
  "flags_ok (cmd_flags (root_command env)) [] \<and> distinct (concat (map words_of (cmd_sub (root_command env))))
     \<and> (\<forall>c \<in> set (cmd_sub (root_command env)). tree_ok (cmd_flags (root_command env)) c)"
  by (simp add: command_defs flags_ok_def flag_of_def MarkFlagRequired_def all_flags_def words_of_def cmd_name_def
      List.member_iff)

lemma flag_value_cases:
  obtains (given) v where "(name, v) \<in> set given" "flag_value fs given name = v"
  | (default) "name \<notin> fst ` set given"
      "flag_value fs given name = (case List.find (\<lambda>f. fl_name f = name) fs of Some f \<Rightarrow> fl_default f | None \<Rightarrow> VString '''')"
proof (cases "List.find (\<lambda>(n, v). n = name) (rev given)")
  case None
  then have "name \<notin> fst ` set given" by (force simp: find_None_iff)
  with None default show ?thesis by (simp add: flag_value_def)
next
  case (Some nv)
  then obtain v where "nv = (name, v)" "(name, v) \<in> set given" using find_Some_in [OF Some] by auto
  with Some given show ?thesis by (simp add: flag_value_def)
qed


section \<open>What starts\<close>

lemma leaf_command: "cmd_sub c = [] \<Longrightarrow> find_command c path ws = (c, path, ws)"
  by (cases ws) simp_all

lemma cmd_names [simp]:
  "cmd_name newQuotaCommand = ''quota''" "cmd_name newQuotaListCommand = ''list''" "cmd_name newQuotaGetCommand = ''get''"
  "cmd_name newQuotaSetCommand = ''set''" "cmd_name newInstallCommand = ''install''" "cmd_name newVersionCommand = ''version''"
  "cmd_name newCostCommand = ''cost''" "cmd_name newDeployCommand = ''deploy''" "cmd_name newStatusCommand = ''status''"
  "cmd_name newLogsCommand = ''logs''"
  by (simp_all add: cmd_name_def command_defs)

lemma cmd_subs:
  "cmd_sub (root_command env) = [newQuotaCommand, newInstallCommand, newVersionCommand, newCostCommand, newDeployCommand,
     newStatusCommand, newLogsCommand]"
  "cmd_sub newQuotaCommand = [newQuotaListCommand, newQuotaGetCommand, newQuotaSetCommand]"
  "c \<in> {newQuotaListCommand, newQuotaGetCommand, newQuotaSetCommand, newInstallCommand, newVersionCommand, newCostCommand,
     newDeployCommand, newStatusCommand, newLogsCommand} \<Longrightarrow> cmd_sub c = []"
  by (auto simp: command_defs)

text \<open>The commands a command line can name.\<close>

lemma find_command_cases:
  assumes "find_command (root_command env) [] words = (c, path, args)"
  shows "(c, path) \<in> {(root_command env, []), (newQuotaCommand, [''quota'']), (newQuotaListCommand, [''quota'', ''list'']),
    (newQuotaGetCommand, [''quota'', ''get'']), (newQuotaSetCommand, [''quota'', ''set'']), (newInstallCommand, [''install'']),
    (newVersionCommand, [''version'']), (newCostCommand, [''cost'']), (newDeployCommand, [''deploy'']),
    (newStatusCommand, [''status'']), (newLogsCommand, [''logs''])}"
proof (cases words)
  case Nil
  with assms show ?thesis by simp
next
  case (Cons w ws)
  show ?thesis
  proof (cases "List.find (called w) (cmd_sub (root_command env))")
    case None
    with assms Cons show ?thesis by simp
  next
    case (Some s)
    then have found: "find_command s [cmd_name s] ws = (c, path, args)" using assms Cons by simp
    have "s \<in> set (cmd_sub (root_command env))" using find_Some_in [OF Some] by simp
    then consider "s = newQuotaCommand" | "s \<in> {newInstallCommand, newVersionCommand, newCostCommand, newDeployCommand,
        newStatusCommand, newLogsCommand}" by (auto simp: cmd_subs)
    then show ?thesis
    proof cases
      case 1
      note quota = found [unfolded 1, simplified]
      show ?thesis
      proof (cases ws)
        case Nil
        with quota show ?thesis by simp
      next
        case (Cons v vs)
        show ?thesis
        proof (cases "List.find (called v) (cmd_sub newQuotaCommand)")
          case None
          with quota Cons show ?thesis by simp
        next
          case (Some t)
          then have t: "t \<in> {newQuotaListCommand, newQuotaGetCommand, newQuotaSetCommand}"
            using find_Some_in [OF Some] by (auto simp: cmd_subs(2))
          then have "cmd_sub t = []" by (intro cmd_subs(3)) auto
          with quota Cons Some have "c = t" "path = [''quota'', cmd_name t]" by (auto simp: leaf_command)
          with t show ?thesis by auto
        qed
      qed
    next
      case 2
      then have "cmd_sub s = []" by (intro cmd_subs(3)) auto
      with found have "c = s" "path = [cmd_name s]" by (auto simp: leaf_command)
      with 2 show ?thesis by auto
    qed
  qed
qed


definition effective_flags :: "smap \<Rightarrow> command \<Rightarrow> string list \<Rightarrow> flag list" where
  "effective_flags env c path = all_flags (if path = [] then [] else cmd_flags c) (cmd_flags (root_command env))"

lemma Execute_started:
  assumes "Execute env words given = Inr (Started lh g what)"
  obtains c path args where "find_command (root_command env) [] words = (c, path, args)"
    "\<forall>(n, v) \<in> set given. \<exists>f \<in> set (effective_flags env c path). fl_name f = n \<and> same_type v (fl_default f)"
    "\<forall>f \<in> set (effective_flags env c path). fl_required f \<longrightarrow> fl_name f \<in> fst ` set given"
    "\<forall>n. cmd_exact c = Some n \<longrightarrow> length args = n"
    "RunE path (flag_value (effective_flags env c path) given) args = Some what"
proof -
  obtain c path args where f: "find_command (root_command env) [] words = (c, path, args)" by (metis prod_cases3)
  let ?fs = "effective_flags env c path"
  have "filter (\<lambda>(n, v). \<not> list_ex (\<lambda>f. fl_name f = n \<and> same_type v (fl_default f)) ?fs) given = []"
    "filter (\<lambda>f. fl_required f \<and> \<not> List.member (map fst given) (fl_name f)) ?fs = []"
    "cmd_exact c = None \<or> cmd_exact c = Some (length args)"
    "RunE path (flag_value ?fs given) args = Some what"
    using assms f by (auto simp: Execute_def Let_def effective_flags_def split: if_splits option.splits)
  then show ?thesis
    using f by (intro that [of c path args]) (fastforce simp: filter_empty_conv list_ex_iff List.member_iff)+
qed

lemma RunE_quota_set:
  "RunE path v args = Some (QuotaSet name d l md t) \<longleftrightarrow> path = [''quota'', ''set''] \<and> name = string_value (v ''name'')
     \<and> d = int_value (v ''daily-tokens'') \<and> l = string_value (v ''monthly-cost'') \<and> md = string_value (v ''mode'')
     \<and> t = int_value (v ''alert-threshold'')"
proof (cases "path = [''quota'', ''set'']")
  case True
  then show ?thesis by (auto simp: RunE_def)
next
  case False
  then have "RunE path v args \<noteq> Some (QuotaSet name d l md t)"
    unfolding RunE_def by (simp only: if_False option.inject option.distinct invocation.distinct simp_thms split: if_split)
  with False show ?thesis by simp
qed

lemma same_type_iff:
  "same_type v (VString s) \<longleftrightarrow> (\<exists>x. v = VString x)"
  "same_type v (VInt64 n) \<longleftrightarrow> (\<exists>x. v = VInt64 x \<and> in_i64 x)" "same_type v (VInt32 n) \<longleftrightarrow> (\<exists>x. v = VInt32 x \<and> in_i32 x)"
  by (cases v; simp)+

text \<open>A command line that starts \<^verbatim>\<open>quota set\<close> gave the three required values; the other two have their defaults otherwise.\<close>

lemma quota_set_flags:
  "effective_flags env newQuotaSetCommand [''quota'', ''set''] =
     [\<lparr>fl_name = ''name'', fl_short = '''', fl_default = VString '''', fl_required = True\<rparr>,
      \<lparr>fl_name = ''daily-tokens'', fl_short = '''', fl_default = VInt64 0, fl_required = True\<rparr>,
      \<lparr>fl_name = ''monthly-cost'', fl_short = '''', fl_default = VString '''', fl_required = True\<rparr>,
      flag_of ''mode'' '''' (VString ''Enforce''), flag_of ''alert-threshold'' '''' (VInt32 80)]
     @ cmd_flags (root_command env)"
  by (simp add: effective_flags_def all_flags_def command_defs MarkFlagRequired_def flag_of_def List.member_iff)

lemma global_flag_names: "fl_name ` set (cmd_flags (root_command env))
    = {''kubeconfig'', ''context'', ''namespace'', ''all-namespaces'', ''output'', ''log-format''}"
  by (auto simp: root_command_def flag_of_def)

text \<open>The value of a flag that the root does not have is given with the type of its default, or it is its default.\<close>

lemma flag_value_typed:
  assumes "\<And>n v. (n, v) \<in> set given \<Longrightarrow> \<exists>f \<in> set (own @ inherited). fl_name f = n \<and> same_type v (fl_default f)"
    and "f \<in> set own" "distinct (map fl_name own)" and "fl_name f \<notin> fl_name ` set inherited"
  shows "(fl_name f, flag_value (own @ inherited) given (fl_name f)) \<in> set given
      \<and> same_type (flag_value (own @ inherited) given (fl_name f)) (fl_default f)
    \<or> fl_name f \<notin> fst ` set given \<and> flag_value (own @ inherited) given (fl_name f) = fl_default f"
proof (cases rule: flag_value_cases [of "fl_name f" given "own @ inherited"])
  case (given v)
  obtain g where g: "g \<in> set (own @ inherited)" "fl_name g = fl_name f" "same_type v (fl_default g)"
    using assms(1) [OF given(1)] by auto
  then have "fl_name g \<notin> fl_name ` set inherited" using assms(4) by simp
  with g(1) have "g \<in> set own" by auto
  with g(2) assms(2,3) have "g = f" by (auto simp: distinct_map inj_on_def)
  with given g show ?thesis by auto
next
  case default
  have "List.find (\<lambda>g. fl_name g = fl_name f) (own @ inherited) = Some f"
  proof -
    obtain xs ys where o: "own = xs @ f # ys" using assms(2) by (meson split_list)
    then have "\<forall>g \<in> set xs. fl_name g \<noteq> fl_name f" using assms(3) by (force simp: image_iff)
    then show ?thesis unfolding o by (simp add: find_Some_iff_first)
  qed
  with default show ?thesis by simp
qed

lemma quota_set_given:
  assumes "Execute env words given = Inr (Started lh g (QuotaSet name d l md t))"
  shows "(''name'', VString name) \<in> set given" "(''daily-tokens'', VInt64 d) \<in> set given"
    "(''monthly-cost'', VString l) \<in> set given"
    "(''mode'', VString md) \<in> set given \<or> ''mode'' \<notin> fst ` set given \<and> md = ''Enforce''"
    "(''alert-threshold'', VInt32 t) \<in> set given \<or> ''alert-threshold'' \<notin> fst ` set given \<and> t = 80"
proof -
  obtain c path args where x: "find_command (root_command env) [] words = (c, path, args)"
    and typed: "\<forall>(n, v) \<in> set given. \<exists>f \<in> set (effective_flags env c path). fl_name f = n \<and> same_type v (fl_default f)"
    and req: "\<forall>f \<in> set (effective_flags env c path). fl_required f \<longrightarrow> fl_name f \<in> fst ` set given"
    and "\<forall>n. cmd_exact c = Some n \<longrightarrow> length args = n"
    and run: "RunE path (flag_value (effective_flags env c path) given) args = Some (QuotaSet name d l md t)"
    by (rule Execute_started [OF assms])
  note vals = run [unfolded RunE_quota_set]
  have c: "c = newQuotaSetCommand" using find_command_cases [OF x] vals by auto
  let ?root = "cmd_flags (root_command env)"
  let ?own = "[\<lparr>fl_name = ''name'', fl_short = '''', fl_default = VString '''', fl_required = True\<rparr>,
      \<lparr>fl_name = ''daily-tokens'', fl_short = '''', fl_default = VInt64 0, fl_required = True\<rparr>,
      \<lparr>fl_name = ''monthly-cost'', fl_short = '''', fl_default = VString '''', fl_required = True\<rparr>,
      flag_of ''mode'' '''' (VString ''Enforce''), flag_of ''alert-threshold'' '''' (VInt32 80)]"
  have fs: "effective_flags env c path = ?own @ ?root" using vals c quota_set_flags by simp
  have typed_at: "\<exists>f \<in> set (?own @ ?root). fl_name f = n \<and> same_type v (fl_default f)" if "(n, v) \<in> set given" for n v
    using typed that unfolding fs by blast
  have d: "distinct (map fl_name ?own)" by (simp add: flag_of_def)
  have names: "fl_name f \<notin> fl_name ` set ?root" if "f \<in> set ?own" for f
    using that by (auto simp: global_flag_names flag_of_def)
  let ?V = "flag_value (effective_flags env c path) given"
  have get: "(fl_name f, ?V (fl_name f)) \<in> set given \<and> same_type (?V (fl_name f)) (fl_default f)
      \<or> fl_name f \<notin> fst ` set given \<and> ?V (fl_name f) = fl_default f" if "f \<in> set ?own" for f
    unfolding fs by (rule flag_value_typed [OF typed_at that d names [OF that]])
  have must: "(fl_name f, ?V (fl_name f)) \<in> set given \<and> same_type (?V (fl_name f)) (fl_default f)"
    if "f \<in> set ?own" "fl_required f" for f
  proof -
    have "f \<in> set (effective_flags env c path)" using that(1) unfolding fs set_append by (rule UnI1)
    with req that(2) have "fl_name f \<in> fst ` set given" by blast
    with get [OF that(1)] show ?thesis by blast
  qed
  show "(''name'', VString name) \<in> set given"
    using must [of "?own ! 0"] vals by (auto simp: same_type_iff)
  show "(''daily-tokens'', VInt64 d) \<in> set given"
    using must [of "?own ! 1"] vals by (auto simp: same_type_iff)
  show "(''monthly-cost'', VString l) \<in> set given"
    using must [of "?own ! 2"] vals by (auto simp: same_type_iff)
  show "(''mode'', VString md) \<in> set given \<or> ''mode'' \<notin> fst ` set given \<and> md = ''Enforce''"
    using get [of "?own ! 3"] vals by (auto simp: flag_of_def same_type_iff)
  show "(''alert-threshold'', VInt32 t) \<in> set given \<or> ''alert-threshold'' \<notin> fst ` set given \<and> t = 80"
    using get [of "?own ! 4"] vals by (auto simp: flag_of_def same_type_iff)
qed

text \<open>C39 The command line \<^verbatim>\<open>quota set\<close>, from its words and flags to the stored quota: when it runs and succeeds against the API
  server of the system, the three required values were given, they are the stored spec of the named quota, and the
  mode and the threshold that were not given are Enforce and 80.\<close>

theorem quota_set_command_line:
  assumes "quota_run h w" and "Execute env words given = Inr (Started lh g (QuotaSet name d l md t))"
    and "runQuotaSet crd_apply client_error (ResolveNamespace (g_AllNamespaces g) (g_Namespace g) configured)
      name d l md t (cluster w) = (None, s)"
  shows "\<exists>ns q. ResolveNamespace (g_AllNamespaces g) (g_Namespace g) configured = Inr ns
    \<and> fmlookup (sv_store s) (ns, name) = Some q \<and> (''name'', VString name) \<in> set given
    \<and> (''daily-tokens'', VInt64 (dailyTokenBudget (spec q))) \<in> set given
    \<and> (''monthly-cost'', VString (monthlyCostLimitUSD (spec q))) \<in> set given
    \<and> ((''mode'', VString (mode_text (enforcementMode (spec q)))) \<in> set given
        \<or> ''mode'' \<notin> fst ` set given \<and> enforcementMode (spec q) = EnforcementModeEnforce)
    \<and> ((\<exists>n. (''alert-threshold'', VInt32 n) \<in> set given \<and> alertThresholdPct (spec q) = Some n)
        \<or> ''alert-threshold'' \<notin> fst ` set given \<and> alertThresholdPct (spec q) = Some 80)"
proof -
  obtain ns where ns: "ResolveNamespace (g_AllNamespaces g) (g_Namespace g) configured = Inr ns"
    using assms(3) by (auto simp: runQuotaSet_def split: if_splits sum.splits)
  obtain m where m: "md = mode_text m" "m \<noteq> ModeUnset"
    and s: "s = set_spec ns name \<lparr>dailyTokenBudget = d, monthlyCostLimitUSD = l, alertThresholdPct = Some t,
      enforcementMode = m\<rparr> (cluster w)"
    by (rule quota_set_stored [OF assms(3) ns])
  obtain q where q: "fmlookup (sv_store s) (ns, name) = Some q"
      "spec q = \<lparr>dailyTokenBudget = d, monthlyCostLimitUSD = l, alertThresholdPct = Some t, enforcementMode = m\<rparr>"
    using set_spec_lookup [OF run_invariant [OF assms(1)]] unfolding s by metis
  have "m = EnforcementModeEnforce" if "md = ''Enforce''" using that m by (cases m) (simp_all add: mode_text_def)
  with quota_set_given [OF assms(2)] ns q m show ?thesis by (intro exI [of _ ns] exI [of _ q]) auto
qed

definition demo_set_flags :: given where
  "demo_set_flags = [(''name'', VString ''team''), (''daily-tokens'', VInt64 1000), (''monthly-cost'', VString ''500''),
     (''namespace'', VString ''ml'')]"

theorem quota_set_command_line_witness:
  "\<exists>q. fmlookup (sv_store demo_set_end) (''ml'', ''team'') = Some q \<and> (''daily-tokens'', VInt64 (dailyTokenBudget (spec q))) \<in> set demo_set_flags
    \<and> enforcementMode (spec q) = EnforcementModeEnforce \<and> alertThresholdPct (spec q) = Some 80"
proof -
  let ?g = "\<lparr>g_Kubeconfig = '''', g_Context = '''', g_Namespace = ''ml'', g_AllNamespaces = False, g_Output = ''table'',
     g_LogFormat = ''text''\<rparr>"
  have x: "Execute fmempty [''tiq'', ''set''] demo_set_flags
      = Inr (Started TextHandler ?g (QuotaSet ''team'' 1000 ''500'' ''Enforce'' 80))"
    by code_simp
  have ns: "ResolveNamespace (g_AllNamespaces ?g) (g_Namespace ?g) (Inl '''') = Inr ''ml''"
    by (simp add: ResolveNamespace_def)
  have r: "runQuotaSet crd_apply None (ResolveNamespace (g_AllNamespaces ?g) (g_Namespace ?g) (Inl ''''))
      ''team'' 1000 ''500'' ''Enforce'' 80 (cluster (controller_start empty_server)) = (None, demo_set_end)"
    unfolding ns by (simp add: demo_set_end controller_start_def)
  have flags: "''mode'' \<notin> fst ` set demo_set_flags" "''alert-threshold'' \<notin> fst ` set demo_set_flags"
    by (simp_all add: demo_set_flags_def)
  then have "(''mode'', VString x) \<notin> set demo_set_flags" "(''alert-threshold'', VInt32 n) \<notin> set demo_set_flags" for x n
    by (force simp: image_iff)+
  with quota_set_command_line [OF started x r] flags ns show ?thesis by auto
qed

text \<open>A deployment of a named model whose replicas are not given passes the validation of its options.\<close>

lemma RunE_deploy:
  "RunE path v args = Some (DeployRun opts n) \<Longrightarrow> path = [''deploy''] \<and> do_replicas opts = int_value (v ''replicas'')
     \<and> do_model opts = string_value (v ''model'')"
  by (cases "path = [''deploy'']") (auto simp: RunE_def split: if_split_asm)

theorem deploy_default_replicas:
  assumes "Execute env words given = Inr (Started lh g (DeployRun opts n))" and "''replicas'' \<notin> fst ` set given"
    and "TrimSpace (do_model opts) \<noteq> ''''"
  shows "do_replicas opts = 1 \<and> validateDeployOptions opts = None"
proof -
  obtain c path args where x: "find_command (root_command env) [] words = (c, path, args)"
    and run: "RunE path (flag_value (effective_flags env c path) given) args = Some (DeployRun opts n)"
    by (rule Execute_started [OF assms(1)])
  note vals = RunE_deploy [OF run]
  have c: "c = newDeployCommand" using find_command_cases [OF x] vals by auto
  have "List.find (\<lambda>(m, v). m = ''replicas'') (rev given) = None"
    using assms(2) by (force simp: find_None_iff)
  then have "flag_value (effective_flags env c path) given ''replicas'' = VInt32 1"
    using vals by (simp add: flag_value_def c effective_flags_def all_flags_def newDeployCommand_def MarkFlagRequired_def flag_of_def)
  with vals assms(3) show ?thesis by (simp add: validateDeployOptions_def)
qed

end
