(* ===== verification/DeepCopy.thy ===== *)
theory DeepCopy
  imports QuotaReconciler
begin

text \<open>
  The generated deep copies of the API types, \<^verbatim>\<open>zz_generated.deepcopy.go\<close>, over an explicit store: pointers, slices and
  arrays are addresses, so that sharing is visible. \<open>quota_of\<close> is the abstraction to the typed quota of the other
  theories, which have values only; it is what makes their reading of \<^verbatim>\<open>base := quota.DeepCopy()\<close> in \<^verbatim>\<open>Reconcile\<close> sound,
  where the conditions of \<^verbatim>\<open>quota\<close> are afterwards changed in place.

  Of \<^verbatim>\<open>ObjectMeta\<close> and \<^verbatim>\<open>ListMeta\<close> the namespace, the name and the generation are kept; their deep copies are the library's.
\<close>

section \<open>The store\<close>

text \<open>A slice is an address of an array and a length; nil is \<open>None\<close>, as it is for pointers.\<close>

type_synonym slice = "(nat \<times> nat) option"

record go_spec =
  gs_dailyTokenBudget :: int
  gs_monthlyCostLimitUSD :: string
  gs_alertThresholdPct :: "nat option"
  gs_enforcementMode :: enforcement_mode

record go_status =
  gt_phase :: quota_phase
  gt_tokensUsedToday :: int
  gt_costUsedThisMonth :: string
  gt_tokenBudgetRemainingPct :: int
  gt_costBudgetRemainingPct :: int
  gt_lastEvaluationTime :: "nat option"
  gt_nextResetTime :: "nat option"
  gt_conditions :: slice

record go_quota =
  gq_namespace :: string
  gq_name :: string
  gq_generation :: int
  gq_spec :: go_spec
  gq_status :: go_status

record go_list =
  gl_items :: slice

datatype cell = Int32 int | Time utc | Conditions "condition list" | SpecCell go_spec | StatusCell go_status
  | QuotaCell go_quota | Quotas "go_quota list" | ListCell go_list

record heap =
  cells :: "nat \<Rightarrow> cell option"
  free :: nat

definition alloc :: "cell \<Rightarrow> heap \<Rightarrow> nat \<times> heap" where
  "alloc x h = (free h, h\<lparr>cells := (cells h)(free h := Some x), free := Suc (free h)\<rparr>)"

definition put :: "nat \<Rightarrow> cell \<Rightarrow> heap \<Rightarrow> heap" where
  "put a x h = h\<lparr>cells := (cells h)(a := Some x)\<rparr>"

definition int_at :: "heap \<Rightarrow> nat \<Rightarrow> int" where
  "int_at h a = (case cells h a of Some (Int32 n) \<Rightarrow> n | _ \<Rightarrow> 0)"

definition time_at :: "heap \<Rightarrow> nat \<Rightarrow> utc" where
  "time_at h a = (case cells h a of Some (Time t) \<Rightarrow> t | _ \<Rightarrow> \<lparr>year = 1, month = 1, day = 1, sec = 0, nsec = 0\<rparr>)"

definition conditions_at :: "heap \<Rightarrow> slice \<Rightarrow> condition list" where
  "conditions_at h s = (case s of None \<Rightarrow> [] | Some (a, n) \<Rightarrow>
     (case cells h a of Some (Conditions cs) \<Rightarrow> take n cs | _ \<Rightarrow> []))"

definition quotas_at :: "heap \<Rightarrow> slice \<Rightarrow> go_quota list" where
  "quotas_at h s = (case s of None \<Rightarrow> [] | Some (a, n) \<Rightarrow>
     (case cells h a of Some (Quotas qs) \<Rightarrow> take n qs | _ \<Rightarrow> []))"

section \<open>The deep copies\<close>

text \<open>Each \<^verbatim>\<open>DeepCopyInto\<close> returns what it wrote into \<^verbatim>\<open>out\<close>.\<close>

definition DeepCopyInto_spec :: "go_spec \<Rightarrow> heap \<Rightarrow> go_spec \<times> heap" where
  "DeepCopyInto_spec s h = (case gs_alertThresholdPct s of None \<Rightarrow> (s, h)
     | Some a \<Rightarrow> (case alloc (Int32 (int_at h a)) h of (b, h') \<Rightarrow> (s\<lparr>gs_alertThresholdPct := Some b\<rparr>, h')))"

definition copy_time :: "nat option \<Rightarrow> heap \<Rightarrow> nat option \<times> heap" where
  "copy_time p h = (case p of None \<Rightarrow> (None, h)
     | Some a \<Rightarrow> (case alloc (Time (time_at h a)) h of (b, h') \<Rightarrow> (Some b, h')))"

definition copy_conditions :: "slice \<Rightarrow> heap \<Rightarrow> slice \<times> heap" where
  "copy_conditions s h = (case s of None \<Rightarrow> (None, h)
     | Some (a, n) \<Rightarrow> (case alloc (Conditions (conditions_at h s)) h of
         (b, h') \<Rightarrow> (Some (b, length (conditions_at h s)), h')))"

definition DeepCopyInto_status :: "go_status \<Rightarrow> heap \<Rightarrow> go_status \<times> heap" where
  "DeepCopyInto_status s h =
    (case copy_time (gt_lastEvaluationTime s) h of (l, h1) \<Rightarrow>
      (case copy_time (gt_nextResetTime s) h1 of (n, h2) \<Rightarrow>
        (case copy_conditions (gt_conditions s) h2 of (c, h3) \<Rightarrow>
          (s\<lparr>gt_lastEvaluationTime := l, gt_nextResetTime := n, gt_conditions := c\<rparr>, h3))))"

definition DeepCopyInto_quota :: "go_quota \<Rightarrow> heap \<Rightarrow> go_quota \<times> heap" where
  "DeepCopyInto_quota q h = (case DeepCopyInto_spec (gq_spec q) h of (s, h1) \<Rightarrow>
     (case DeepCopyInto_status (gq_status q) h1 of (t, h2) \<Rightarrow> (q\<lparr>gq_spec := s, gq_status := t\<rparr>, h2)))"

text \<open>The loop over the items writes each copy into the new array.\<close>

definition set_item :: "nat \<Rightarrow> nat \<Rightarrow> go_quota \<Rightarrow> heap \<Rightarrow> heap" where
  "set_item b i q h = (case cells h b of Some (Quotas qs) \<Rightarrow> put b (Quotas (qs[i := q])) h | _ \<Rightarrow> h)"

fun copy_items :: "nat \<Rightarrow> nat \<Rightarrow> go_quota list \<Rightarrow> heap \<Rightarrow> heap" where
  "copy_items b i [] h = h"
| "copy_items b i (q # qs) h = (case DeepCopyInto_quota q h of (c, h1) \<Rightarrow> copy_items b (Suc i) qs (set_item b i c h1))"

definition zero_quota :: go_quota where
  "zero_quota = \<lparr>gq_namespace = '''', gq_name = '''', gq_generation = 0,
     gq_spec = \<lparr>gs_dailyTokenBudget = 0, gs_monthlyCostLimitUSD = '''', gs_alertThresholdPct = None,
       gs_enforcementMode = ModeUnset\<rparr>,
     gq_status = \<lparr>gt_phase = PhaseUnset, gt_tokensUsedToday = 0, gt_costUsedThisMonth = '''',
       gt_tokenBudgetRemainingPct = 0, gt_costBudgetRemainingPct = 0, gt_lastEvaluationTime = None,
       gt_nextResetTime = None, gt_conditions = None\<rparr>\<rparr>"

definition DeepCopyInto_list :: "go_list \<Rightarrow> heap \<Rightarrow> go_list \<times> heap" where
  "DeepCopyInto_list l h = (case gl_items l of None \<Rightarrow> (l, h)
     | Some (a, n) \<Rightarrow> let qs = quotas_at h (gl_items l) in
         (case alloc (Quotas (replicate (length qs) zero_quota)) h of
           (b, h1) \<Rightarrow> (l\<lparr>gl_items := Some (b, length qs)\<rparr>, copy_items b 0 qs h1)))"

text \<open>The copies behind a pointer, nil included.\<close>

definition DeepCopy_spec :: "nat option \<Rightarrow> heap \<Rightarrow> nat option \<times> heap" where
  "DeepCopy_spec p h = (case p of None \<Rightarrow> (None, h) | Some a \<Rightarrow> (case cells h a of
     Some (SpecCell s) \<Rightarrow> (case DeepCopyInto_spec s h of (s', h1) \<Rightarrow> map_prod Some id (alloc (SpecCell s') h1))
   | _ \<Rightarrow> (None, h)))"

definition DeepCopy_status :: "nat option \<Rightarrow> heap \<Rightarrow> nat option \<times> heap" where
  "DeepCopy_status p h = (case p of None \<Rightarrow> (None, h) | Some a \<Rightarrow> (case cells h a of
     Some (StatusCell s) \<Rightarrow> (case DeepCopyInto_status s h of (s', h1) \<Rightarrow> map_prod Some id (alloc (StatusCell s') h1))
   | _ \<Rightarrow> (None, h)))"

definition DeepCopy_quota :: "nat option \<Rightarrow> heap \<Rightarrow> nat option \<times> heap" where
  "DeepCopy_quota p h = (case p of None \<Rightarrow> (None, h) | Some a \<Rightarrow> (case cells h a of
     Some (QuotaCell q) \<Rightarrow> (case DeepCopyInto_quota q h of (q', h1) \<Rightarrow> map_prod Some id (alloc (QuotaCell q') h1))
   | _ \<Rightarrow> (None, h)))"

definition DeepCopy_list :: "nat option \<Rightarrow> heap \<Rightarrow> nat option \<times> heap" where
  "DeepCopy_list p h = (case p of None \<Rightarrow> (None, h) | Some a \<Rightarrow> (case cells h a of
     Some (ListCell l) \<Rightarrow> (case DeepCopyInto_list l h of (l', h1) \<Rightarrow> map_prod Some id (alloc (ListCell l') h1))
   | _ \<Rightarrow> (None, h)))"

definition DeepCopyObject_quota :: "nat option \<Rightarrow> heap \<Rightarrow> nat option \<times> heap" where
  "DeepCopyObject_quota p h = (case DeepCopy_quota p h of (Some c, h') \<Rightarrow> (Some c, h') | (None, h') \<Rightarrow> (None, h'))"

definition DeepCopyObject_list :: "nat option \<Rightarrow> heap \<Rightarrow> nat option \<times> heap" where
  "DeepCopyObject_list p h = (case DeepCopy_list p h of (Some c, h') \<Rightarrow> (Some c, h') | (None, h') \<Rightarrow> (None, h'))"

section \<open>What a structure means and what it reaches\<close>

definition spec_of :: "heap \<Rightarrow> go_spec \<Rightarrow> quota_spec" where
  "spec_of h s = \<lparr>dailyTokenBudget = gs_dailyTokenBudget s, monthlyCostLimitUSD = gs_monthlyCostLimitUSD s,
     alertThresholdPct = map_option (int_at h) (gs_alertThresholdPct s), enforcementMode = gs_enforcementMode s\<rparr>"

definition status_of :: "heap \<Rightarrow> go_status \<Rightarrow> quota_status" where
  "status_of h s = \<lparr>phase = gt_phase s, tokensUsedToday = gt_tokensUsedToday s, costUsedThisMonth = gt_costUsedThisMonth s,
     tokenBudgetRemainingPct = gt_tokenBudgetRemainingPct s, costBudgetRemainingPct = gt_costBudgetRemainingPct s,
     lastEvaluationTime = map_option (time_at h) (gt_lastEvaluationTime s),
     nextResetTime = map_option (time_at h) (gt_nextResetTime s), conditions = conditions_at h (gt_conditions s)\<rparr>"

definition quota_of :: "heap \<Rightarrow> go_quota \<Rightarrow> quota" where
  "quota_of h q = \<lparr>q_namespace = gq_namespace q, q_name = gq_name q, q_generation = gq_generation q,
     spec = spec_of h (gq_spec q), status = status_of h (gq_status q)\<rparr>"

definition reach_spec :: "go_spec \<Rightarrow> nat set" where
  "reach_spec s = set_option (gs_alertThresholdPct s)"

definition reach_status :: "go_status \<Rightarrow> nat set" where
  "reach_status s = set_option (gt_lastEvaluationTime s) \<union> set_option (gt_nextResetTime s)
     \<union> fst ` set_option (gt_conditions s)"

definition reach :: "go_quota \<Rightarrow> nat set" where
  "reach q = reach_spec (gq_spec q) \<union> reach_status (gq_status q)"

text \<open>Two stores that agree on what a structure reaches give it the same meaning.\<close>

definition agree :: "nat set \<Rightarrow> heap \<Rightarrow> heap \<Rightarrow> bool" where
  "agree R h h' \<longleftrightarrow> (\<forall>a \<in> R. cells h' a = cells h a)"

lemma agree_at:
  "agree {a} h h' \<Longrightarrow> int_at h' a = int_at h a" "agree {a} h h' \<Longrightarrow> time_at h' a = time_at h a"
  "agree (fst ` set_option s) h h' \<Longrightarrow> conditions_at h' s = conditions_at h s"
  "agree (fst ` set_option s) h h' \<Longrightarrow> quotas_at h' s = quotas_at h s"
  by (auto simp: agree_def int_at_def time_at_def conditions_at_def quotas_at_def split: option.splits)

lemma agree_mono: "agree R h h' \<Longrightarrow> S \<subseteq> R \<Longrightarrow> agree S h h'"
  by (auto simp: agree_def)

lemma agree_trans: "agree R h h' \<Longrightarrow> agree R h' h'' \<Longrightarrow> agree R h h''"
  by (simp add: agree_def)

lemma spec_of_agree: "agree (reach_spec s) h h' \<Longrightarrow> spec_of h' s = spec_of h s"
  by (auto simp: spec_of_def reach_spec_def agree_def int_at_def intro!: option.map_cong)

lemma status_of_agree: "agree (reach_status s) h h' \<Longrightarrow> status_of h' s = status_of h s"
  by (auto simp: status_of_def reach_status_def agree_def time_at_def intro!: option.map_cong agree_at(3))

lemma quota_of_agree: "agree (reach q) h h' \<Longrightarrow> quota_of h' q = quota_of h q"
  using agree_mono [of "reach q" h h' "reach_spec (gq_spec q)"] agree_mono [of "reach q" h h' "reach_status (gq_status q)"]
  by (simp add: quota_of_def reach_def spec_of_agree status_of_agree)

section \<open>Copies are equal and separate\<close>

text \<open>A step of a copy grows the store and leaves the cells in use alone.\<close>

definition extends :: "heap \<Rightarrow> heap \<Rightarrow> bool" where
  "extends h h' \<longleftrightarrow> free h \<le> free h' \<and> agree {..<free h} h h'"

lemma extends_refl [simp]: "extends h h"
  by (simp add: extends_def agree_def)

lemma extends_trans: "extends h h' \<Longrightarrow> extends h' h'' \<Longrightarrow> extends h h''"
  by (auto simp: extends_def agree_def)

lemma extends_agree: "extends h h' \<Longrightarrow> R \<subseteq> {..<free h} \<Longrightarrow> agree R h h'"
  by (auto simp: extends_def agree_def)

lemma alloc_extends: "extends h (snd (alloc x h))" "fst (alloc x h) = free h" "free (snd (alloc x h)) = Suc (free h)"
    "cells (snd (alloc x h)) (free h) = Some x"
  by (simp_all add: alloc_def extends_def agree_def)

text \<open>The contract of every copy: the copy means what the original means, the store grows, and the copy reaches fresh
  cells only.\<close>

definition copies :: "(heap \<Rightarrow> 'a \<Rightarrow> 'v) \<Rightarrow> ('a \<Rightarrow> nat set) \<Rightarrow> ('a \<Rightarrow> heap \<Rightarrow> 'a \<times> heap) \<Rightarrow> bool" where
  "copies val rch f \<longleftrightarrow> (\<forall>x h. rch x \<subseteq> {..<free h} \<longrightarrow> (case f x h of (y, h') \<Rightarrow>
     val h' y = val h x \<and> extends h h' \<and> rch y \<subseteq> {free h..<free h'}))"

lemma copiesD:
  assumes "copies val rch f" and "f x h = (y, h')" and "rch x \<subseteq> {..<free h}"
  shows "val h' y = val h x" "extends h h'" "rch y \<subseteq> {free h..<free h'}"
  using assms by (force simp: copies_def)+

lemma range_below: "A \<subseteq> {x..<y :: nat} \<Longrightarrow> A \<subseteq> {..<y}"
  by auto

lemma copies_spec: "copies spec_of reach_spec DeepCopyInto_spec"
  by (auto simp: copies_def DeepCopyInto_spec_def spec_of_def reach_spec_def alloc_def extends_def agree_def int_at_def
      split: option.splits)

lemma copies_time: "copies (\<lambda>h. map_option (time_at h)) set_option copy_time"
  by (auto simp: copies_def copy_time_def alloc_def extends_def agree_def time_at_def split: option.splits)

lemma copies_conditions: "copies conditions_at (\<lambda>s. fst ` set_option s) copy_conditions"
  by (auto simp: copies_def copy_conditions_def alloc_def extends_def agree_def conditions_at_def split: option.splits)

lemma copies_status: "copies status_of reach_status DeepCopyInto_status"
proof -
  have "status_of h3 t = status_of h s \<and> extends h h3 \<and> reach_status t \<subseteq> {free h..<free h3}"
    if r: "reach_status s \<subseteq> {..<free h}" and l: "copy_time (gt_lastEvaluationTime s) h = (l, h1)"
      and n: "copy_time (gt_nextResetTime s) h1 = (n, h2)" and c: "copy_conditions (gt_conditions s) h2 = (c, h3)"
      and t: "t = s\<lparr>gt_lastEvaluationTime := l, gt_nextResetTime := n, gt_conditions := c\<rparr>" for s t h h1 h2 h3 l n c
  proof -
    note dl = copiesD [OF copies_time l]
    have rl: "set_option (gt_lastEvaluationTime s) \<subseteq> {..<free h}" and rn: "set_option (gt_nextResetTime s) \<subseteq> {..<free h}"
      and rc: "fst ` set_option (gt_conditions s) \<subseteq> {..<free h}" using r by (auto simp: reach_status_def)
    have f1: "free h \<le> free h1" using dl(2) [OF rl] by (simp add: extends_def)
    note dn = copiesD [OF copies_time n order_trans [OF rn]]
    have e1: "extends h h1" and e2: "extends h1 h2" using dl(2) [OF rl] dn f1 by simp_all
    then have f2: "free h1 \<le> free h2" by (simp add: extends_def)
    note dc = copiesD [OF copies_conditions c order_trans [OF rc]]
    have e3: "extends h2 h3" using dc f1 f2 by simp
    then have f3: "free h2 \<le> free h3" by (simp add: extends_def)
    have vn: "map_option (time_at h2) n = map_option (time_at h1) (gt_nextResetTime s)" "set_option n \<subseteq> {free h1..<free h2}"
      using dn f1 by simp_all
    have vc: "conditions_at h3 c = conditions_at h2 (gt_conditions s)" "fst ` set_option c \<subseteq> {free h2..<free h3}"
      using dc f1 f2 by simp_all
    have tm: "map_option (time_at k') p = map_option (time_at k) p" if "extends k k'" "set_option p \<subseteq> {..<free k}" for k k' p
      using that by (cases p) (auto simp: extends_def agree_def time_at_def)
    have "map_option (time_at h3) l = map_option (time_at h) (gt_lastEvaluationTime s)"
      using tm [OF extends_trans [OF e2 e3] range_below [OF dl(3) [OF rl]]] dl(1) [OF rl] by simp
    moreover have "map_option (time_at h3) n = map_option (time_at h) (gt_nextResetTime s)"
      using tm [OF e3 range_below [OF vn(2)]] vn(1) tm [OF e1 rn] by simp
    moreover have "conditions_at h3 c = conditions_at h (gt_conditions s)"
      using vc(1) agree_at(3) [OF extends_agree [OF extends_trans [OF e1 e2] rc]] by simp
    moreover have "reach_status t \<subseteq> {free h..<free h3}"
      using dl(3) [OF rl] vn(2) vc(2) f1 f2 f3 by (auto simp: t reach_status_def)
    ultimately show ?thesis using extends_trans [OF extends_trans [OF e1 e2] e3] by (simp add: t status_of_def)
  qed
  then show ?thesis by (auto simp: copies_def DeepCopyInto_status_def split: prod.splits)
qed

lemma copies_quota: "copies quota_of reach DeepCopyInto_quota"
proof -
  have "quota_of h2 r = quota_of h q \<and> extends h h2 \<and> reach r \<subseteq> {free h..<free h2}"
    if r: "reach q \<subseteq> {..<free h}" and s: "DeepCopyInto_spec (gq_spec q) h = (s, h1)"
      and t: "DeepCopyInto_status (gq_status q) h1 = (t, h2)" and q': "r = q\<lparr>gq_spec := s, gq_status := t\<rparr>" for q r h h1 h2 s t
  proof -
    have rs: "reach_spec (gq_spec q) \<subseteq> {..<free h}" and rt: "reach_status (gq_status q) \<subseteq> {..<free h}"
      using r by (auto simp: reach_def)
    note ds = copiesD [OF copies_spec s rs]
    have f1: "free h \<le> free h1" using ds(2) by (simp add: extends_def)
    note dt = copiesD [OF copies_status t order_trans [OF rt]]
    have dt: "status_of h2 t = status_of h1 (gq_status q)" "extends h1 h2" "reach_status t \<subseteq> {free h1..<free h2}"
      using dt f1 by simp_all
    have "spec_of h2 s = spec_of h (gq_spec q)"
      using spec_of_agree [OF extends_agree [OF dt(2) range_below [OF ds(3)]]] ds(1) by simp
    moreover have "status_of h2 t = status_of h (gq_status q)"
      using dt(1) status_of_agree [OF extends_agree [OF ds(2) rt]] by simp
    moreover have "reach r \<subseteq> {free h..<free h2}"
      using ds(3) dt(2,3) f1 by (auto simp: q' reach_def extends_def)
    ultimately show ?thesis using extends_trans [OF ds(2) dt(2)] by (simp add: q' quota_of_def)
  qed
  then show ?thesis by (auto simp: copies_def DeepCopyInto_quota_def split: prod.splits)
qed

section \<open>What the controller relies on\<close>

text \<open>An assignment to an element of a slice, as \<^verbatim>\<open>meta.SetStatusCondition\<close> makes it for a condition that exists.\<close>

definition set_element :: "slice \<Rightarrow> nat \<Rightarrow> condition \<Rightarrow> heap \<Rightarrow> heap" where
  "set_element s i c h = (case s of None \<Rightarrow> h | Some (a, n) \<Rightarrow> (case cells h a of
     Some (Conditions cs) \<Rightarrow> if i < n then put a (Conditions (cs[i := c])) h else h | _ \<Rightarrow> h))"

text \<open>C16 The deep copy of a quota is equal and separate: the copy means the same quota, the original is unchanged, and
  whatever is then written to cells that the original reaches or that are allocated later, such as its conditions in
  place, the copy keeps its meaning, so the base of the status patch is the status that was read; a copy of the
  structure alone shares the conditions, and an assignment to one shows in it.\<close>

theorem DeepCopy_separates:
  assumes "reach q \<subseteq> {..<free h}" and "DeepCopyInto_quota q h = (base, h')"
  shows "quota_of h' base = quota_of h q \<and> quota_of h' q = quota_of h q \<and> reach base \<inter> reach q = {}
    \<and> (\<forall>h''. (\<forall>a. a \<notin> reach q \<and> a < free h' \<longrightarrow> cells h'' a = cells h' a) \<longrightarrow> quota_of h'' base = quota_of h q)
    \<and> (\<forall>c a cs. gt_conditions (gq_status q) = Some (a, Suc 0) \<and> cells h' a = Some (Conditions [cs]) \<longrightarrow>
        conditions (status (quota_of (set_element (gt_conditions (gq_status q)) 0 c h') base)) = [cs]
        \<and> conditions (status (quota_of (set_element (gt_conditions (gq_status q)) 0 c h') q)) = [c])"
proof -
  note d = copiesD [OF copies_quota assms(2,1)]
  have q: "quota_of h' q = quota_of h q" using extends_agree [OF d(2) assms(1)] by (rule quota_of_agree)
  have disj: "reach base \<inter> reach q = {}" using d(3) assms(1) by fastforce
  have keep: "quota_of h'' base = quota_of h q" if "\<forall>a. a \<notin> reach q \<and> a < free h' \<longrightarrow> cells h'' a = cells h' a" for h''
  proof -
    have "cells h'' a = cells h' a" if "a \<in> reach base" for a
    proof -
      from that disj d(3) have "a \<notin> reach q" "a < free h'" by auto
      with \<open>\<forall>a. a \<notin> reach q \<and> a < free h' \<longrightarrow> cells h'' a = cells h' a\<close> show ?thesis by blast
    qed
    then have "agree (reach base) h' h''" by (simp add: agree_def)
    then show ?thesis using d(1) quota_of_agree by metis
  qed
  have "conditions (status (quota_of (set_element (gt_conditions (gq_status q)) 0 c h') base)) = [cs]
      \<and> conditions (status (quota_of (set_element (gt_conditions (gq_status q)) 0 c h') q)) = [c]"
    if s: "gt_conditions (gq_status q) = Some (a, Suc 0)" "cells h' a = Some (Conditions [cs])" for c a cs
  proof -
    have "a \<in> reach q" using s(1) by (simp add: reach_def reach_status_def)
    then have "quota_of (set_element (gt_conditions (gq_status q)) 0 c h') base = quota_of h q"
      using s by (intro keep) (auto simp: set_element_def put_def)
    moreover have "conditions (status (quota_of h' q)) = [cs]"
      using s by (simp add: quota_of_def status_of_def conditions_at_def)
    ultimately have "conditions (status (quota_of (set_element (gt_conditions (gq_status q)) 0 c h') base)) = [cs]"
      by (simp only: q)
    moreover have "conditions (status (quota_of (set_element (gt_conditions (gq_status q)) 0 c h') q)) = [c]"
      using s by (simp add: quota_of_def status_of_def conditions_at_def set_element_def put_def)
    ultimately show ?thesis by blast
  qed
  with d(1) q disj keep show ?thesis by blast
qed

definition demo_condition :: "string \<Rightarrow> condition" where
  "demo_condition r = \<lparr>cond_type = ''SpecValid'', cond_status = ConditionTrue, cond_reason = r, cond_message = '''',
     cond_lastTransitionTime = demo_now, cond_observedGeneration = 1\<rparr>"

definition demo_heap :: heap where
  "demo_heap = \<lparr>cells = (\<lambda>_. None)(0 := Some (Int32 90), 1 := Some (Time demo_now),
     2 := Some (Conditions [demo_condition ''old''])), free = 3\<rparr>"

definition demo_go_quota :: go_quota where
  "demo_go_quota = zero_quota\<lparr>gq_spec := (gq_spec zero_quota)\<lparr>gs_alertThresholdPct := Some 0\<rparr>,
     gq_status := (gq_status zero_quota)\<lparr>gt_lastEvaluationTime := Some 1, gt_conditions := Some (2, 1)\<rparr>\<rparr>"

theorem DeepCopy_separates_witness:
  "case DeepCopyInto_quota demo_go_quota demo_heap of (base, h') \<Rightarrow>
     alertThresholdPct (spec (quota_of h' base)) = Some 90
   \<and> conditions (status (quota_of (set_element (Some (2, 1)) 0 (demo_condition ''new'') h') base)) = [demo_condition ''old'']"
proof -
  obtain base h' where b: "DeepCopyInto_quota demo_go_quota demo_heap = (base, h')" by (metis surj_pair)
  have r: "reach demo_go_quota \<subseteq> {..<free demo_heap}"
    by (auto simp: reach_def reach_spec_def reach_status_def demo_go_quota_def demo_heap_def zero_quota_def)
  have "cells h' 2 = cells demo_heap 2"
    using copiesD(2) [OF copies_quota b r] by (simp add: extends_def agree_def demo_heap_def)
  with DeepCopy_separates [OF r b] b show ?thesis
    by (simp add: demo_go_quota_def demo_heap_def quota_of_def spec_of_def int_at_def zero_quota_def)
qed

section \<open>Lists\<close>

definition reach_list :: "heap \<Rightarrow> go_list \<Rightarrow> nat set" where
  "reach_list h l = fst ` set_option (gl_items l) \<union> (\<Union>q \<in> set (quotas_at h (gl_items l)). reach q)"

definition quotas_of :: "heap \<Rightarrow> go_list \<Rightarrow> quota list" where
  "quotas_of h l = map (quota_of h) (quotas_at h (gl_items l))"

text \<open>The loop, with the array at \<open>b\<close> filled up to \<open>ds\<close>: all cells below \<open>n\<close> are in use by the original.\<close>

lemma copy_items_loop:
  assumes "cells h b = Some (Quotas (ds @ replicate (length qs) z))" and "n \<le> b" "b < free h"
    and "\<forall>q \<in> set qs. reach q \<subseteq> {..<n}" and "\<forall>d \<in> set ds. reach d \<subseteq> {n..<free h} - {b}"
  shows "\<exists>cs. cells (copy_items b (length ds) qs h) b = Some (Quotas (ds @ cs)) \<and> length cs = length qs
    \<and> map (quota_of (copy_items b (length ds) qs h)) cs = map (quota_of h) qs
    \<and> map (quota_of (copy_items b (length ds) qs h)) ds = map (quota_of h) ds
    \<and> (\<forall>c \<in> set cs. reach c \<subseteq> {n..<free (copy_items b (length ds) qs h)} - {b})
    \<and> free h \<le> free (copy_items b (length ds) qs h)
    \<and> agree ({..<free h} - {b}) h (copy_items b (length ds) qs h)"
  using assms
proof (induction qs arbitrary: h ds)
  case Nil
  then show ?case by (simp add: agree_def)
next
  case (Cons q qs)
  obtain c h1 where c: "DeepCopyInto_quota q h = (c, h1)" by (metis surj_pair)
  have rq: "reach q \<subseteq> {..<n}" and "reach q \<subseteq> {..<free h}" using Cons.prems(2-4) by force+
  note d = copiesD [OF copies_quota c \<open>reach q \<subseteq> {..<free h}\<close>]
  let ?h = "set_item b (length ds) c h1"
  have at: "cells h1 b = Some (Quotas (ds @ replicate (length (q # qs)) z))"
    using d(2) Cons.prems(1,3) by (simp add: extends_def agree_def)
  then have h: "?h = put b (Quotas ((ds @ [c]) @ replicate (length qs) z)) h1"
    by (simp add: set_item_def list_update_append)
  have fr: "free ?h = free h1" "free h \<le> free h1" using d(2) by (simp_all add: h put_def extends_def)
  have ag: "agree ({..<free h} - {b}) h ?h" using d(2) by (simp add: h put_def agree_def extends_def)
  have ag1: "agree (- {b}) h1 ?h" by (simp add: h put_def agree_def)
  have rc: "reach c \<subseteq> {n..<free h1} - {b}" using d(3) Cons.prems(2,3) by fastforce
  have vc: "quota_of ?h c = quota_of h q" using d(1) quota_of_agree [OF agree_mono [OF ag1, of "reach c"]] rc by auto
  have same: "quota_of ?h x = quota_of h x" if "reach x \<subseteq> {..<free h} - {b}" for x
    using agree_mono [OF ag that] by (rule quota_of_agree)
  have ds: "\<forall>x \<in> set (ds @ [c]). reach x \<subseteq> {n..<free ?h} - {b}"
    using rc Cons.prems(5) fr by fastforce
  have qs: "\<forall>x \<in> set qs. reach x \<subseteq> {..<n}" using Cons.prems(4) by simp
  have "cells ?h b = Some (Quotas ((ds @ [c]) @ replicate (length qs) z))" by (simp add: h put_def)
  have "b < free ?h" using Cons.prems(3) fr by simp
  note ih = Cons.IH [OF \<open>cells ?h b = _\<close> Cons.prems(2) this qs ds]
  from ih obtain cs where
    cs: "cells (copy_items b (length (ds @ [c])) qs ?h) b = Some (Quotas ((ds @ [c]) @ cs))" "length cs = length qs"
      "map (quota_of (copy_items b (length (ds @ [c])) qs ?h)) cs = map (quota_of ?h) qs"
      "map (quota_of (copy_items b (length (ds @ [c])) qs ?h)) (ds @ [c]) = map (quota_of ?h) (ds @ [c])"
      "\<forall>x \<in> set cs. reach x \<subseteq> {n..<free (copy_items b (length (ds @ [c])) qs ?h)} - {b}"
      "free ?h \<le> free (copy_items b (length (ds @ [c])) qs ?h)"
      "agree ({..<free ?h} - {b}) ?h (copy_items b (length (ds @ [c])) qs ?h)"
    by (elim exE conjE) (rule that)
  let ?g = "copy_items b (length (ds @ [c])) qs ?h"
  have g: "copy_items b (length ds) (q # qs) h = ?g" by (simp add: c)
  have "map (quota_of ?h) qs = map (quota_of h) qs"
    using qs Cons.prems(2,3) by (intro map_cong [OF refl] same) fastforce
  moreover have "map (quota_of ?h) ds = map (quota_of h) ds"
    using Cons.prems(5) by (intro map_cong [OF refl] same) fastforce
  moreover have "agree ({..<free h} - {b}) h ?g"
    using ag cs(7) fr by (auto simp: agree_def)
  moreover have "\<forall>x \<in> set (c # cs). reach x \<subseteq> {n..<free ?g} - {b}"
    using cs(5,6) rc fr by fastforce
  ultimately show ?case
    unfolding g using cs vc fr by (intro exI [of _ "c # cs"]) auto
qed

text \<open>The copy of a list is equal to it and separate from it.\<close>

theorem DeepCopy_list_separates:
  assumes "reach_list h l \<subseteq> {..<free h}" and "DeepCopyInto_list l h = (l', h')"
  shows "quotas_of h' l' = quotas_of h l \<and> reach_list h' l' \<inter> {..<free h} = {} \<and> agree {..<free h} h h'"
proof (cases "gl_items l")
  case None
  with assms show ?thesis by (auto simp: DeepCopyInto_list_def quotas_of_def reach_list_def agree_def quotas_at_def)
next
  case (Some s)
  then obtain a n where s: "gl_items l = Some (a, n)" by (cases s) simp
  let ?qs = "quotas_at h (gl_items l)"
  let ?h1 = "snd (alloc (Quotas (replicate (length ?qs) zero_quota)) h)"
  have l': "l' = l\<lparr>gl_items := Some (free h, length ?qs)\<rparr>" "h' = copy_items (free h) 0 ?qs ?h1"
    using assms(2) s by (auto simp: DeepCopyInto_list_def Let_def alloc_def)
  have qs: "reach q \<subseteq> {..<free h}" if "q \<in> set ?qs" for q using that assms(1) by (auto simp: reach_list_def)
  have "\<exists>cs. cells h' (free h) = Some (Quotas ([] @ cs)) \<and> length cs = length ?qs
      \<and> map (quota_of h') cs = map (quota_of ?h1) ?qs
      \<and> map (quota_of h') [] = map (quota_of ?h1) []
      \<and> (\<forall>c \<in> set cs. reach c \<subseteq> {free h..<free h'} - {free h})
      \<and> free ?h1 \<le> free h' \<and> agree ({..<free ?h1} - {free h}) ?h1 h'"
    unfolding l'(2) using copy_items_loop [of ?h1 "free h" "[]" ?qs zero_quota "free h"] qs by (simp add: alloc_extends)
  then obtain cs where cs: "cells h' (free h) = Some (Quotas cs)" "length cs = length ?qs"
      "map (quota_of h') cs = map (quota_of ?h1) ?qs" "\<And>c. c \<in> set cs \<Longrightarrow> reach c \<subseteq> {free h..<free h'} - {free h}"
      "agree ({..<free ?h1} - {free h}) ?h1 h'" by auto
  have items: "quotas_at h' (gl_items l') = cs" using cs(1,2) by (simp add: quotas_at_def l'(1))
  have "agree {..<free h} h ?h1" using alloc_extends(1) by (simp add: extends_def)
  moreover have "agree {..<free h} ?h1 h'" using cs(5) by (rule agree_mono) (auto simp: alloc_extends)
  ultimately have ag: "agree {..<free h} h h'" by (rule agree_trans)
  have "map (quota_of ?h1) ?qs = map (quota_of h) ?qs"
    using qs by (intro map_cong [OF refl] quota_of_agree agree_mono [OF \<open>agree {..<free h} h ?h1\<close>]) auto
  moreover have "reach_list h' l' \<inter> {..<free h} = {}"
    using cs(4) unfolding reach_list_def items by (fastforce simp: l'(1))
  ultimately show ?thesis using cs(3) ag by (simp add: quotas_of_def items)
qed

end
