(* ===== verification/AdapterSuite.thy ===== *)
theory AdapterSuite
  imports Adapters
begin

text \<open>
  The contract tests of the adapters, \<^verbatim>\<open>internal/adapters/testharness\<close>: what they check of an adapter against an
  API server, as a function to the outcome of each check, and the theorem that says when all of them pass. The
  server is the \<open>kube\<close> of the adapters, with create and get of an arbitrary object; the file system is two parameters.
\<close>

section \<open>Configuration\<close>

record suite_config =
  crdDirectoryPaths :: "string list"
  nonMatchPod :: pod
  sampleCost :: cost_result

type_synonym suite_option = "suite_config \<Rightarrow> suite_config"

definition WithCRDDirectoryPaths :: "string list \<Rightarrow> suite_option" where
  "WithCRDDirectoryPaths paths cfg = cfg\<lparr>crdDirectoryPaths := crdDirectoryPaths cfg @ paths\<rparr>"

definition WithNonMatchPod :: "pod \<Rightarrow> suite_option" where
  "WithNonMatchPod p cfg = cfg\<lparr>nonMatchPod := p\<rparr>"

definition WithSampleCost :: "cost_result \<Rightarrow> suite_option" where
  "WithSampleCost res cfg = cfg\<lparr>sampleCost := res\<rparr>"

definition empty_pod :: pod where
  "empty_pod = \<lparr>p_namespace = '''', p_name = '''', p_labels = fmempty, p_controller = None, p_containers = [],
     p_initContainers = [], p_phase = '''', p_waiting = [], p_deleted = False\<rparr>"

definition zero_cost :: cost_result where
  "zero_cost = \<lparr>CostPerHour = None, CostPerToken = None, GPUCount = None, ReplicaCount = None,
     LastUpdatedAt = \<lparr>year = 1, month = 1, day = 1, sec = 0, nsec = 0\<rparr>\<rparr>"

text \<open>The literals 1.25 and 0.000002, and noon of 5 May 2026.\<close>

definition default_cost :: cost_result where
  "default_cost = zero_cost\<lparr>CostPerHour := Some (mk False (5 / 4)), CostPerToken := Some (mk False (2 / 1000000)),
     LastUpdatedAt := \<lparr>year = 2026, month = 5, day = 5, sec = 43200, nsec = 0\<rparr>\<rparr>"

definition suite_config_of :: "suite_option list \<Rightarrow> suite_config" where
  "suite_config_of opts =
    (let cfg = fold (\<lambda>opt c. opt c) opts \<lparr>crdDirectoryPaths = [], nonMatchPod = empty_pod, sampleCost = zero_cost\<rparr>
     in if IsZero (LastUpdatedAt (sampleCost cfg)) then cfg\<lparr>sampleCost := default_cost\<rparr> else cfg)"

section \<open>The checks\<close>

text \<open>The identity of an object; the client leaves the type of a typed object empty.\<close>

definition object_name :: "kobject \<Rightarrow> string" where
  "object_name t = (case t of KDeployment r \<Rightarrow> r_name r | KStatefulSet r \<Rightarrow> r_name r
     | KUnstructured u \<Rightarrow> u_name u | KOther _ _ \<Rightarrow> '''')"

definition object_gvk :: "kobject \<Rightarrow> gvk" where
  "object_gvk t = (case t of KUnstructured u \<Rightarrow> u_gvk u
     | _ \<Rightarrow> \<lparr>gvk_group = '''', gvk_version = '''', gvk_kind = ''''\<rparr>)"

record 'c suite_api =
  su_create :: "'c \<Rightarrow> kobject \<Rightarrow> string option \<times> 'c"
  su_get :: "'c \<Rightarrow> kobject \<Rightarrow> kube_error + kobject"

datatype outcome = Pass | Skip | Fail

definition check :: "bool \<Rightarrow> outcome" where
  "check b = (if b then Pass else Fail)"

definition ensureOwnerExists :: "'c suite_api \<Rightarrow> kobject \<Rightarrow> 'c \<Rightarrow> string option \<times> 'c" where
  "ensureOwnerExists api ob c = (case su_get api c ob of
     Inr _ \<Rightarrow> (None, c)
   | Inl ErrNotFound \<Rightarrow> su_create api c ob
   | Inl (ErrOther err) \<Rightarrow> (Some err, c))"

definition prepared_pod :: "kobject \<Rightarrow> pod \<Rightarrow> pod" where
  "prepared_pod owner p =
    (let ns = (if object_namespace owner = '''' then ''default'' else object_namespace owner);
         p1 = p\<lparr>p_namespace := ns\<rparr>
     in if p_name p1 = '''' then p1\<lparr>p_name := ''test-pod''\<rparr> else p1)"

definition check_owner :: "'c suite_api \<Rightarrow> 'c kube \<Rightarrow> adapter \<Rightarrow> pod \<Rightarrow> kobject \<Rightarrow> 'c \<Rightarrow> outcome \<times> 'c" where
  "check_owner api K a p owner c = (case su_create api c owner of
     (Some _, c1) \<Rightarrow> (Fail, c1)
   | (None, c1) \<Rightarrow> (check (case ResolveTarget a K c1 p of Inl _ \<Rightarrow> False
       | Inr t \<Rightarrow> object_gvk t = object_gvk owner \<and> object_name t = object_name owner
           \<and> object_namespace t = p_namespace p), c1))"

definition annotations_ok :: "cost_result \<Rightarrow> smap \<Rightarrow> bool" where
  "annotations_ok res anns \<longleftrightarrow>
     (CostPerHour res \<noteq> None \<longrightarrow> mhas anns AnnCostPerHour \<and> mget anns AnnCostPerHour \<noteq> '''')
   \<and> (CostPerToken res \<noteq> None \<longrightarrow> mhas anns AnnCostPerToken \<and> mget anns AnnCostPerToken \<noteq> '''')
   \<and> mhas anns AnnLastUpdated \<and> mget anns AnnLastUpdated = FormatRFC3339 (LastUpdatedAt res)"

definition check_write_cost ::
  "'c suite_api \<Rightarrow> 'c kube \<Rightarrow> adapter \<Rightarrow> pod \<Rightarrow> kobject \<Rightarrow> cost_result \<Rightarrow> 'c \<Rightarrow> outcome \<times> 'c" where
  "check_write_cost api K a p owner res c = (case ensureOwnerExists api owner c of
     (Some _, c1) \<Rightarrow> (Fail, c1)
   | (None, c1) \<Rightarrow> (case ResolveTarget a K c1 p of Inl _ \<Rightarrow> (Fail, c1)
     | Inr t \<Rightarrow> (case WriteCost a K t res c1 of (Inl _, c2) \<Rightarrow> (Fail, c2)
       | (Inr t', c2) \<Rightarrow> (case su_get api c2 t' of Inl _ \<Rightarrow> (Fail, c2)
         | Inr r \<Rightarrow> (check (annotations_ok res (GetAnnotations r)), c2)))))"

definition AdapterTestSuite ::
  "'c suite_api \<Rightarrow> 'c kube \<Rightarrow> adapter \<Rightarrow> pod \<Rightarrow> kobject \<Rightarrow> suite_option list \<Rightarrow> 'c \<Rightarrow> (string \<times> outcome) list" where
  "AdapterTestSuite api K a matchPod owner opts c =
    (let cfg = suite_config_of opts; p = prepared_pod owner matchPod in
     case check_owner api K a p owner c of (o1, c1) \<Rightarrow>
       [(''Detect/match'', check (Detect a p)),
        (''Detect/no_match'', if Detect a (nonMatchPod cfg) then Skip else Pass),
        (''GetOwner'', o1),
        (''WriteCost'', fst (check_write_cost api K a p owner (sampleCost cfg) c1))])"

section \<open>Finding the API server's binaries\<close>

definition firstEnvTestVersionDir ::
  "(string \<Rightarrow> string option) \<Rightarrow> (string \<Rightarrow> (string \<times> bool) list option) \<Rightarrow> string \<Rightarrow> string" where
  "firstEnvTestVersionDir abs_path read_dir basePath = (case read_dir basePath of None \<Rightarrow> ''''
     | Some entries \<Rightarrow> (let absBase = (case abs_path basePath of Some s \<Rightarrow> s | None \<Rightarrow> basePath) in
         case List.find snd entries of Some (name, _) \<Rightarrow> join ''/'' [absBase, name] | None \<Rightarrow> ''''))"

definition firstEnvTestBinaryDir ::
  "smap \<Rightarrow> (string \<Rightarrow> string option) \<Rightarrow> (string \<Rightarrow> (string \<times> bool) list option) \<Rightarrow> string" where
  "firstEnvTestBinaryDir env abs_path read_dir = (let assets = mget env ''KUBEBUILDER_ASSETS'' in
     if assets \<noteq> '''' then (case abs_path assets of Some s \<Rightarrow> s | None \<Rightarrow> assets)
     else case List.find (\<lambda>d. d \<noteq> '''') (map (firstEnvTestVersionDir abs_path read_dir)
         [join ''/'' [''bin'', ''k8s''], join ''/'' [''..'', ''..'', ''..'', ''bin'', ''k8s'']]) of
       Some d \<Rightarrow> d | None \<Rightarrow> '''')"

section \<open>A test in an API server of its own\<close>

text \<open>\<^verbatim>\<open>envtest.go\<close>. The environment of the library is started, used and stopped through parameters; what is registered
  with \<^verbatim>\<open>Cleanup\<close> runs last in, first out, also after a failed \<^verbatim>\<open>require\<close>.\<close>

record envtest_environment =
  CRDDirectoryPaths :: "string list"
  ErrorIfCRDPathMissing :: bool
  BinaryAssetsDirectory :: string

record ('e, 'k) envtest_lib =
  el_start :: "envtest_environment \<Rightarrow> string + 'e"
  el_client :: "'e \<Rightarrow> string + 'k"
  el_stop :: "'e \<Rightarrow> string option"

datatype env_event = EnvStarted | TestRan | EnvStopped | ContextCancelled

definition new_environment :: "string list \<Rightarrow> string \<Rightarrow> envtest_environment" where
  "new_environment crdDirs dir = \<lparr>CRDDirectoryPaths = crdDirs, ErrorIfCRDPathMissing = 0 < length crdDirs,
     BinaryAssetsDirectory = dir\<rparr>"

text \<open>What happened, in order, and whether the test passed.\<close>

definition runEnvtest :: "('e, 'k) envtest_lib \<Rightarrow> string list \<Rightarrow> string \<Rightarrow> ('k \<Rightarrow> bool) \<Rightarrow> env_event list \<times> bool" where
  "runEnvtest E crdDirs dir fn = (case el_start E (new_environment crdDirs dir) of
     Inl _ \<Rightarrow> ([ContextCancelled], False)
   | Inr env \<Rightarrow> (case el_client E env of
       Inl _ \<Rightarrow> ([EnvStarted, EnvStopped, ContextCancelled], False)
     | Inr k \<Rightarrow> ([EnvStarted, TestRan, EnvStopped, ContextCancelled], fn k \<and> el_stop E env = None)))"

text \<open>A server that was started is stopped, whether or not the test ran and passed, and the context is cancelled last.\<close>

lemma runEnvtest_stops:
  "EnvStopped \<in> set (fst (runEnvtest E dirs d fn)) \<longleftrightarrow> EnvStarted \<in> set (fst (runEnvtest E dirs d fn))"
  "last (fst (runEnvtest E dirs d fn)) = ContextCancelled"
  "snd (runEnvtest E dirs d fn) \<Longrightarrow> TestRan \<in> set (fst (runEnvtest E dirs d fn))"
  by (auto simp: runEnvtest_def split: sum.splits)

section \<open>A pod of an owner\<close>

definition PodWithControllerOwner :: "kobject \<Rightarrow> string \<Rightarrow> pod" where
  "PodWithControllerOwner owner podName = empty_pod\<lparr>p_name := podName, p_namespace := object_namespace owner,
     p_controller := Some \<lparr>or_kind = (case owner of KDeployment _ \<Rightarrow> ''Deployment'' | KStatefulSet _ \<Rightarrow> ''StatefulSet''
       | KUnstructured u \<Rightarrow> gvk_kind (u_gvk u)
       | KOther ty _ \<Rightarrow> if ty = ''*v1.ReplicaSet'' then ''ReplicaSet'' else ''''), or_name = object_name owner\<rparr>\<rparr>"

text \<open>The generic adapter resolves a pod of the harness to its owner; a pod of a ReplicaSet goes on to the ReplicaSet's own.\<close>

theorem harness_pod_resolved:
  "ka_get_deployment K c (r_namespace d) (r_name d) = Inr d
    \<Longrightarrow> Generic_ResolveTarget K c (PodWithControllerOwner (KDeployment d) podName) = Inr (KDeployment d)"
  "ka_get_statefulset K c (r_namespace d) (r_name d) = Inr d
    \<Longrightarrow> Generic_ResolveTarget K c (PodWithControllerOwner (KStatefulSet d) podName) = Inr (KStatefulSet d)"
  by (simp_all add: Generic_ResolveTarget_def PodWithControllerOwner_def object_name_def object_namespace_def
      empty_pod_def numeral_eq_Suc)

section \<open>When the suite passes\<close>

lemma built_annotations_ok:
  "annotations_ok res (updated_annotations anns res)"
  by (auto simp: annotations_ok_def updated_get updated_has build_has build_get)

lemma patched_annotations_ok:
  assumes "stores_annotations api" and "PatchTargetAnnotations api t res c = (Inr t', c')"
    and "shouldPatchCostAnnotations (GetAnnotations t) res"
  shows "annotations_ok res (GetAnnotations t')"
proof -
  have "GetAnnotations t' = updated_annotations (GetAnnotations t) res"
    using assms unfolding PatchTargetAnnotations_def patch_supported_def stores_annotations_def
    by (auto split: kobject.splits) (metis Get_SetAnnotations)+
  then show ?thesis by (simp add: built_annotations_ok)
qed

lemma total_patch_annotations:
  assumes "stores_annotations (ka_patch K)" and "patchTrainJobTotalCostIfComplete K t res c = (Inr t', c')"
    and "annotations_ok res (GetAnnotations t)"
  shows "annotations_ok res (GetAnnotations t')"
proof -
  have "GetAnnotations t' = GetAnnotations t
      \<or> (\<exists>v. GetAnnotations t' = fmupd AnnTotalJobCostUSD v (GetAnnotations t))"
  proof (cases t)
    case (KUnstructured u)
    have st: "GetAnnotations t' = fmupd AnnTotalJobCostUSD v (u_annotations u)"
      if "ka_patch K c t (KUnstructured (u\<lparr>u_annotations := fmupd AnnTotalJobCostUSD v (u_annotations u)\<rparr>)) = (Inr t', c')" for v
      using assms(1) that unfolding stores_annotations_def by (metis GetAnnotations_def kobject.simps(19) unstr.select_convs(4) unstr.surjective unstr.update_convs(4))
    with KUnstructured assms(2) show ?thesis
      by (auto simp: patchTrainJobTotalCostIfComplete_def GetAnnotations_def split: if_splits prod.splits option.splits)
  qed (use assms(2) in \<open>auto simp: patchTrainJobTotalCostIfComplete_def\<close>)
  then show ?thesis using assms(3) by (auto simp: annotations_ok_def ann_defs mget_def mhas_def)
qed

lemma written_annotations_ok:
  assumes "stores_annotations (ka_patch K)" and "WriteCost a K t res c = (Inr t', c')"
    and "shouldPatchCostAnnotations (GetAnnotations t) res"
  shows "annotations_ok res (GetAnnotations t')"
proof (cases "a = KubeflowTrainer")
  case True
  with assms(2) obtain t1 c1 where "PatchTargetAnnotations (ka_patch K) t res c = (Inr t1, c1)"
      "patchTrainJobTotalCostIfComplete K t1 res c1 = (Inr t', c')"
    by (auto simp: WriteCost_def KubeflowTrainer_WriteCost_def split: prod.splits sum.splits)
  with assms(1,3) patched_annotations_ok total_patch_annotations show ?thesis by metis
next
  case False
  with assms(2) have "PatchTargetAnnotations (ka_patch K) t res c = (Inr t', c')"
    by (cases a) (simp_all add: WriteCost_def)
  with assms(1,3) show ?thesis by (metis patched_annotations_ok)
qed

text \<open>Every check of the suite passes, but for an adapter that detects every pod, when the adapter detects the pod, the
  server creates the owner and finds it again, the adapter resolves the pod to it, and the write succeeds.\<close>

theorem AdapterTestSuite_passes:
  assumes "stores_annotations (ka_patch K)" and "Detect a (prepared_pod owner p)"
    and "su_create api c owner = (None, c1)" and "su_get api c1 owner = Inr owner'"
    and "ResolveTarget a K c1 (prepared_pod owner p) = Inr t" and "namespaced K"
    and "object_gvk t = object_gvk owner" and "object_name t = object_name owner"
    and "shouldPatchCostAnnotations (GetAnnotations t) (sampleCost (suite_config_of opts))"
    and "WriteCost a K t (sampleCost (suite_config_of opts)) c1 = (Inr t', c2)"
    and "su_get api c2 t' = Inr r" and "GetAnnotations r = GetAnnotations t'"
  shows "\<forall>(check_name, result) \<in> set (AdapterTestSuite api K a p owner opts c). result = Pass \<or> result = Skip \<and> Detect a (nonMatchPod (suite_config_of opts))"
  using assms written_annotations_ok [OF assms(1,10,9)]
  by (auto simp: AdapterTestSuite_def Let_def check_owner_def check_write_cost_def ensureOwnerExists_def check_def
      ResolveTarget_target split: if_splits)

definition suite_demo_kube :: "(kobject list) kube" where
  "suite_demo_kube = \<lparr>ka_get_deployment = (\<lambda>c ns n. Inl ErrNotFound), ka_get_statefulset = (\<lambda>c ns n. Inl ErrNotFound),
     ka_get_replicaset = (\<lambda>c ns n. Inl ErrNotFound),
     ka_get_unstructured = (\<lambda>c g ns n. case c of [KUnstructured u] \<Rightarrow>
       if u_gvk u = g \<and> u_namespace u = ns \<and> u_name u = n then Inr u else Inl ErrNotFound | _ \<Rightarrow> Inl ErrNotFound),
     ka_list_unstructured = (\<lambda>c g ns. Inr []), ka_list_pods = (\<lambda>c. Inr []),
     ka_list_pods_labelled = (\<lambda>c ns k v. Inr []), ka_patch = (\<lambda>c orig t. (Inr t, [t])),
     NestedInt64 = (\<lambda>m ks. Inr None), NestedString = (\<lambda>m ks. Inr None), NestedSlice = (\<lambda>m ks. Inr None),
     NestedMap = (\<lambda>m ks. Inr None), ParseQuantity = (\<lambda>s. None), k_oor64 = (\<lambda>_. 0)\<rparr>"

definition suite_demo_api :: "(kobject list) suite_api" where
  "suite_demo_api = \<lparr>su_create = (\<lambda>c ob. (None, [ob])), su_get = (\<lambda>c ob. case c of [] \<Rightarrow> Inl ErrNotFound | x # _ \<Rightarrow> Inr x)\<rparr>"

definition suite_demo_owner :: kobject where
  "suite_demo_owner = KUnstructured \<lparr>u_gvk = inferenceServiceGVK, u_namespace = ''default'', u_name = ''my-model'',
     u_annotations = fmempty, u_object = fmempty\<rparr>"

definition suite_demo_pod :: pod where
  "suite_demo_pod = empty_pod\<lparr>p_name := ''kserve-pod'', p_labels := fmupd labelInferenceService ''my-model'' fmempty\<rparr>"

lemma zero_time: "IsZero (LastUpdatedAt zero_cost)"
  by code_simp

lemma suite_demo_prepared: "prepared_pod suite_demo_owner suite_demo_pod = suite_demo_pod\<lparr>p_namespace := ''default''\<rparr>"
  by (simp add: prepared_pod_def suite_demo_owner_def suite_demo_pod_def object_namespace_def empty_pod_def)

theorem AdapterTestSuite_passes_witness:
  "list_all (\<lambda>(check_name, result). result = Pass)
     (AdapterTestSuite suite_demo_api suite_demo_kube KServe suite_demo_pod suite_demo_owner [] [])"
proof -
  have cfg: "nonMatchPod (suite_config_of []) = empty_pod" "sampleCost (suite_config_of []) = default_cost"
    by (simp_all add: suite_config_of_def Let_def zero_time)
  have res: "ResolveTarget KServe suite_demo_kube [suite_demo_owner] (prepared_pod suite_demo_owner suite_demo_pod)
      = Inr suite_demo_owner"
    unfolding suite_demo_prepared
    by (simp add: ResolveTarget_def KServe_ResolveTarget_def resolve_named_def inferenceServiceNameFromPod_def
        suite_demo_kube_def suite_demo_pod_def suite_demo_owner_def empty_pod_def)
  have should: "shouldPatchCostAnnotations (GetAnnotations suite_demo_owner) default_cost"
    by (simp add: shouldPatchCostAnnotations_def suite_demo_owner_def GetAnnotations_def differs_def default_cost_def
        zero_cost_def mget_def eq_commute [of "''''"])
  let ?t = "SetAnnotations (updated_annotations (GetAnnotations suite_demo_owner) default_cost) suite_demo_owner"
  have w: "WriteCost KServe suite_demo_kube suite_demo_owner default_cost [suite_demo_owner] = (Inr ?t, [?t])"
    using should by (simp add: WriteCost_def PatchTargetAnnotations_def patch_supported_def suite_demo_kube_def
        suite_demo_owner_def SetAnnotations_def)
  have "\<forall>(check_name, result) \<in> set (AdapterTestSuite suite_demo_api suite_demo_kube KServe suite_demo_pod suite_demo_owner [] []).
     result = Pass \<or> result = Skip \<and> Detect KServe (nonMatchPod (suite_config_of []))"
    by (rule AdapterTestSuite_passes [where ?c1.0 = "[suite_demo_owner]" and t = suite_demo_owner and t' = ?t and ?c2.0 = "[?t]"
          and owner' = suite_demo_owner and r = ?t])
      (simp_all add: cfg res [unfolded suite_demo_prepared] should w suite_demo_prepared,
       auto simp: suite_demo_kube_def suite_demo_api_def stores_annotations_def namespaced_def Detect_def KServe_Detect_def
         suite_demo_pod_def empty_pod_def mget_def split: list.splits kobject.splits if_splits)
  moreover have "\<not> Detect KServe empty_pod"
    by (simp add: Detect_def KServe_Detect_def empty_pod_def mget_def)
  ultimately show ?thesis unfolding cfg(1) by (auto simp: list_all_iff)
qed

end
