(* ===== verification/TestUtils.thy ===== *)
theory TestUtils
  imports Prelude
begin

text \<open>
  The helpers of the operator's end-to-end tests, \<^verbatim>\<open>operator/test/utils/utils.go\<close>: commands run from the project
  directory, the installation of cert-manager, and the edit of a file that uncomments a block of lines. The processes,
  the working directory and the files are a state \<open>'c\<close> with the calls of \<open>shell\<close>. Output for the reader of the test is
  left out. Writes to a \<^verbatim>\<open>bytes.Buffer\<close> never fail, so the branches for that have no counterpart.
\<close>

section \<open>Text\<close>

definition newline :: char where "newline = CHR 0x0A"

text \<open>\<^verbatim>\<open>strings.Index\<close>, \<^verbatim>\<open>strings.Split\<close> at newlines and \<^verbatim>\<open>strings.ReplaceAll\<close> by the empty string.\<close>

fun Index :: "string \<Rightarrow> string \<Rightarrow> nat option" where
  "Index [] sub = (if sub = [] then Some 0 else None)"
| "Index (c # s) sub = (if prefix sub (c # s) then Some 0 else map_option Suc (Index s sub))"

fun split_lines :: "string \<Rightarrow> string list" where
  "split_lines [] = [[]]"
| "split_lines (c # s) = (if c = newline then [] # split_lines s
     else (case split_lines s of [] \<Rightarrow> [[c]] | l # ls \<Rightarrow> (c # l) # ls))"

function remove_all :: "string \<Rightarrow> string \<Rightarrow> string" where
  "remove_all sub s = (case s of [] \<Rightarrow> [] | c # t \<Rightarrow>
     if sub \<noteq> [] \<and> prefix sub s then remove_all sub (drop (length sub) s) else c # remove_all sub t)"
  by pat_completeness auto
termination by (relation "measure (\<lambda>(sub, s). length s)") auto

declare remove_all.simps [simp del]

text \<open>The lines of a \<^verbatim>\<open>bufio.Scanner\<close>: without the newline and a carriage return before it; a line that does not fit
  its buffer of 64 KiB ends the scan, and no empty line follows a final newline.\<close>

definition drop_cr :: "string \<Rightarrow> string" where
  "drop_cr l = (if l \<noteq> [] \<and> last l = CHR 0x0D then butlast l else l)"

function scan_lines :: "string \<Rightarrow> string list" where
  "scan_lines s = (if s = [] then [] else
     let l = takeWhile (\<lambda>c. c \<noteq> newline) s in
     if 65536 \<le> length l then []
     else drop_cr l # (case dropWhile (\<lambda>c. c \<noteq> newline) s of [] \<Rightarrow> [] | _ # r \<Rightarrow> scan_lines r))"
  by pat_completeness auto
termination
proof (relation "measure length")
  fix s l r :: string and c :: char
  assume "dropWhile (\<lambda>c. c \<noteq> newline) s = c # r"
  then have "length (c # r) \<le> length s" by (metis length_dropWhile_le)
  then show "(r, s) \<in> measure length" by simp
qed simp

declare scan_lines.simps [simp del]

section \<open>Commands\<close>

record 'c shell =
  sh_getwd :: "'c \<Rightarrow> string \<times> string option"
  sh_chdir :: "string \<Rightarrow> 'c \<Rightarrow> 'c"
  sh_output :: "string \<Rightarrow> string list \<Rightarrow> 'c \<Rightarrow> (string \<times> string option) \<times> 'c"
  sh_env :: "'c \<Rightarrow> smap"
  sh_read :: "string \<Rightarrow> 'c \<Rightarrow> string + string"
  sh_write :: "string \<Rightarrow> string \<Rightarrow> 'c \<Rightarrow> string option \<times> 'c"
  sh_quote :: "string \<Rightarrow> string"

definition GetProjectDir :: "'c shell \<Rightarrow> 'c \<Rightarrow> string \<times> string option" where
  "GetProjectDir S c = (case sh_getwd S c of
     (wd, Some err) \<Rightarrow> (wd, Some (''failed to get current working directory: '' @ err))
   | (wd, None) \<Rightarrow> (remove_all ''/test/e2e'' wd, None))"

definition Run_cmd :: "'c shell \<Rightarrow> string list \<Rightarrow> 'c \<Rightarrow> (string \<times> string option) \<times> 'c" where
  "Run_cmd S args c =
    (let dir = fst (GetProjectDir S c); command = join '' '' args in
     case sh_output S dir args (sh_chdir S dir c) of
       ((output, None), c') \<Rightarrow> ((output, None), c')
     | ((output, Some err), c') \<Rightarrow>
         ((output, Some (sh_quote S command @ '' failed with error '' @ sh_quote S output @ '': '' @ err)), c'))"

definition certmanager_url :: string where
  "certmanager_url = ''https://github.com/cert-manager/cert-manager/releases/download/v1.20.2/cert-manager.yaml''"

text \<open>Failures of the removal are warnings only.\<close>

definition UninstallCertManager :: "'c shell \<Rightarrow> 'c \<Rightarrow> 'c" where
  "UninstallCertManager S c =
    fold (\<lambda>lease c. snd (Run_cmd S [''kubectl'', ''delete'', ''lease'', lease, ''-n'', ''kube-system'',
        ''--ignore-not-found'', ''--force'', ''--grace-period=0''] c))
      [''cert-manager-cainjector-leader-election'', ''cert-manager-controller'']
      (snd (Run_cmd S [''kubectl'', ''delete'', ''-f'', certmanager_url] c))"

definition InstallCertManager :: "'c shell \<Rightarrow> 'c \<Rightarrow> string option \<times> 'c" where
  "InstallCertManager S c = (case Run_cmd S [''kubectl'', ''apply'', ''-f'', certmanager_url] c of
     ((_, Some err), c') \<Rightarrow> (Some err, c')
   | ((_, None), c') \<Rightarrow> (case Run_cmd S [''kubectl'', ''wait'', ''deployment.apps/cert-manager-webhook'', ''--for'',
        ''condition=Available'', ''--namespace'', ''cert-manager'', ''--timeout'', ''5m''] c' of
      ((_, err), c'') \<Rightarrow> (err, c'')))"

definition GetNonEmptyLines :: "string \<Rightarrow> string list" where
  "GetNonEmptyLines output = filter (\<lambda>l. l \<noteq> []) (split_lines output)"

definition certManagerCRDs :: "string list" where
  "certManagerCRDs = [''certificates.cert-manager.io'', ''issuers.cert-manager.io'', ''clusterissuers.cert-manager.io'',
     ''certificaterequests.cert-manager.io'', ''orders.acme.cert-manager.io'', ''challenges.acme.cert-manager.io'']"

definition IsCertManagerCRDsInstalled :: "'c shell \<Rightarrow> 'c \<Rightarrow> bool \<times> 'c" where
  "IsCertManagerCRDsInstalled S c = (case Run_cmd S [''kubectl'', ''get'', ''crds''] c of
     ((_, Some _), c') \<Rightarrow> (False, c')
   | ((output, None), c') \<Rightarrow> (let crdList = GetNonEmptyLines output in
       (list_ex (\<lambda>crd. list_ex (\<lambda>line. Contains line crd) crdList) certManagerCRDs, c')))"

definition LoadImageToKindClusterWithName :: "'c shell \<Rightarrow> string \<Rightarrow> 'c \<Rightarrow> string option \<times> 'c" where
  "LoadImageToKindClusterWithName S name c =
    (let cluster = (case fmlookup (sh_env S c) ''KIND_CLUSTER'' of Some v \<Rightarrow> v | None \<Rightarrow> ''kind'');
         kindBinary = (case fmlookup (sh_env S c) ''KIND'' of Some v \<Rightarrow> v | None \<Rightarrow> ''kind'') in
     case Run_cmd S [kindBinary, ''load'', ''docker-image'', name, ''--name'', cluster] c of ((_, err), c') \<Rightarrow> (err, c'))"

section \<open>Uncommenting a block\<close>

definition uncommented :: "string \<Rightarrow> nat \<Rightarrow> string \<Rightarrow> string \<Rightarrow> string" where
  "uncommented content idx target pre = take idx content
     @ join [newline] (map (\<lambda>l. TrimPrefix l pre) (scan_lines target)) @ drop (idx + length target) content"

definition UncommentCode :: "'c shell \<Rightarrow> string \<Rightarrow> string \<Rightarrow> string \<Rightarrow> 'c \<Rightarrow> string option \<times> 'c" where
  "UncommentCode S filename target pre c = (case sh_read S filename c of
     Inl err \<Rightarrow> (Some (''failed to read file '' @ sh_quote S filename @ '': '' @ err), c)
   | Inr content \<Rightarrow> (case Index content target of
       None \<Rightarrow> (Some (''unable to find the code '' @ sh_quote S target @ '' to be uncommented''), c)
     | Some idx \<Rightarrow> if scan_lines target = [] then (None, c)
         else (case sh_write S filename (uncommented content idx target pre) c of
           (Some err, c') \<Rightarrow> (Some (''failed to write file '' @ sh_quote S filename @ '': '' @ err), c')
         | (None, c') \<Rightarrow> (None, c'))))"

section \<open>Lines\<close>

lemma split_lines_nonempty [simp]: "split_lines s \<noteq> []"
  by (induction s) (auto split: list.splits)

lemma join_split_lines: "join [newline] (split_lines s) = s"
proof (induction s)
  case (Cons c s)
  then show ?case by (cases "split_lines s"; cases "tl (split_lines s)") (auto split: list.splits)
qed simp

lemma split_lines_clean: "l \<in> set (split_lines s) \<Longrightarrow> newline \<notin> set l"
  by (induction s arbitrary: l) (auto split: list.splits if_splits)

text \<open>A text without newlines occurs in a text exactly when it occurs in one of its lines.\<close>

lemma sublist_split: "newline \<notin> set sub \<Longrightarrow> sublist sub (l @ newline # s) \<longleftrightarrow> sublist sub l \<or> sublist sub s"
proof
  assume clean: "newline \<notin> set sub" and "sublist sub (l @ newline # s)"
  then consider "sublist sub l" | "sublist sub (newline # s)"
    | xs1 xs2 where "sub = xs1 @ xs2" "suffix xs1 l" "prefix xs2 (newline # s)"
    by (auto simp: sublist_append)
  then show "sublist sub l \<or> sublist sub s"
  proof cases
    case 2
    with clean show ?thesis by (auto simp: sublist_Cons_right prefix_Cons)
  next
    case 3
    with clean have "xs2 = []" by (auto simp: prefix_Cons)
    with 3 show ?thesis by auto
  qed simp
next
  assume "sublist sub l \<or> sublist sub s"
  then show "sublist sub (l @ newline # s)"
    by (metis append.assoc append_Cons append_Nil sublist_append_leftI sublist_append_rightI sublist_order.order.trans)
qed

lemma sublist_join: "newline \<notin> set sub \<Longrightarrow> ls \<noteq> [] \<Longrightarrow> sublist sub (join [newline] ls) \<longleftrightarrow> (\<exists>l \<in> set ls. sublist sub l)"
  by (induction "[newline]" ls rule: join.induct) (auto simp: sublist_split)

lemma GetNonEmptyLines_contains:
  assumes "newline \<notin> set sub" and "sub \<noteq> []"
  shows "(\<exists>l \<in> set (GetNonEmptyLines out). Contains l sub) \<longleftrightarrow> Contains out sub"
proof -
  have "Contains out sub \<longleftrightarrow> (\<exists>l \<in> set (split_lines out). sublist sub l)"
    using sublist_join [OF assms(1), of "split_lines out"] by (simp add: Contains_sublist join_split_lines)
  moreover have "\<not> sublist sub []" using assms(2) by simp
  ultimately show ?thesis by (fastforce simp: GetNonEmptyLines_def Contains_sublist)
qed

text \<open>cert-manager is taken as installed exactly when the listing succeeds and names one of its types.\<close>

theorem IsCertManagerCRDsInstalled_iff:
  "fst (IsCertManagerCRDsInstalled S c) \<longleftrightarrow> (case fst (Run_cmd S [''kubectl'', ''get'', ''crds''] c) of
     (output, err) \<Rightarrow> err = None \<and> (\<exists>crd \<in> set certManagerCRDs. Contains output crd))"
proof -
  have "newline \<notin> set crd \<and> crd \<noteq> []" if "crd \<in> set certManagerCRDs" for crd
    using that by (auto simp: certManagerCRDs_def newline_def)
  then have "(\<exists>crd \<in> set certManagerCRDs. \<exists>l \<in> set (GetNonEmptyLines out). Contains l crd)
      \<longleftrightarrow> (\<exists>crd \<in> set certManagerCRDs. Contains out crd)" for out
    by (metis GetNonEmptyLines_contains)
  then show ?thesis
    by (simp add: IsCertManagerCRDsInstalled_def Let_def list_ex_iff split: prod.split option.split)
qed

section \<open>What uncommenting does\<close>

text \<open>A line that the scanner gives back as it is.\<close>

definition plain_line :: "string \<Rightarrow> bool" where
  "plain_line l \<longleftrightarrow> newline \<notin> set l \<and> (l = [] \<or> last l \<noteq> CHR 0x0D) \<and> length l < 65536"

lemma break_line:
  assumes "newline \<notin> set l"
  shows "takeWhile (\<lambda>c. c \<noteq> newline) l = l" "dropWhile (\<lambda>c. c \<noteq> newline) l = []"
    "takeWhile (\<lambda>c. c \<noteq> newline) (l @ newline # s) = l" "dropWhile (\<lambda>c. c \<noteq> newline) (l @ newline # s) = newline # s"
  using assms by (induction l) auto

lemma scan_last: "plain_line l \<Longrightarrow> l \<noteq> [] \<Longrightarrow> scan_lines l = [l]"
  by (subst scan_lines.simps) (simp add: plain_line_def drop_cr_def break_line Let_def)

lemma scan_next: "plain_line l \<Longrightarrow> scan_lines (l @ newline # s) = l # scan_lines s"
  by (subst scan_lines.simps) (auto simp: plain_line_def drop_cr_def break_line Let_def)

lemma scan_join:
  "ls \<noteq> [] \<Longrightarrow> \<forall>l \<in> set ls. plain_line l \<Longrightarrow> last ls \<noteq> [] \<Longrightarrow> scan_lines (join [newline] ls) = ls"
  by (induction "[newline]" ls rule: join.induct) (auto simp: scan_last scan_next)

lemma scan_join_newline:
  "\<forall>l \<in> set ls. plain_line l \<Longrightarrow> ls \<noteq> [] \<Longrightarrow> scan_lines (join [newline] ls @ [newline]) = ls"
  by (induction "[newline]" ls rule: join.induct) (auto simp: scan_next scan_lines.simps [of "[]"])

lemma Index_prefix: "Index s sub = Some i \<Longrightarrow> s = take i s @ sub @ drop (i + length sub) s"
proof (induction s sub arbitrary: i rule: Index.induct)
  case (2 c s sub)
  then show ?case by (auto simp: prefix_def split: if_splits)
qed (auto split: if_splits)

lemma TrimPrefix_add [simp]: "TrimPrefix (pre @ l) pre = l"
  by (simp add: TrimPrefix_def HasPrefix_def)

text \<open>When the block found in the file is a list of lines, each behind the comment prefix, the file afterwards has these
  lines without the prefix, and is the same before and after the block.\<close>

theorem UncommentCode_effect:
  fixes pre :: string
  assumes "sh_read S f c = Inr content" and "target = join [newline] (map ((@) pre) ls)" and "Index content target = Some i"
    and "ls \<noteq> []" and "\<forall>l \<in> set ls. plain_line (pre @ l)" and "pre @ last ls \<noteq> []"
    and "sh_write S f (take i content @ join [newline] ls @ drop (i + length target) content) c = (None, c')"
  shows "UncommentCode S f target pre c = (None, c') \<and> content = take i content @ target @ drop (i + length target) content"
proof -
  have "scan_lines target = map ((@) pre) ls"
    unfolding assms(2) using assms(4-6) by (intro scan_join) (auto simp: last_map)
  with assms Index_prefix [OF assms(3)] show ?thesis
    by (simp add: UncommentCode_def uncommented_def comp_def)
qed

text \<open>A block that ends with a newline loses it: the line after the block is joined to its last line.\<close>

theorem UncommentCode_joins_next_line:
  fixes pre :: string
  assumes "target = join [newline] (map ((@) pre) ls) @ [newline]" and "ls \<noteq> []" and "\<forall>l \<in> set ls. plain_line (pre @ l)"
    and "Index content target = Some i"
  shows "uncommented content i target pre = take i content @ join [newline] ls @ drop (i + length target) content
    \<and> content = take i content @ target @ drop (i + length target) content"
proof -
  have "scan_lines target = map ((@) pre) ls"
    unfolding assms(1) using assms(2,3) by (intro scan_join_newline) auto
  with Index_prefix [OF assms(4)] show ?thesis by (simp add: uncommented_def comp_def)
qed

text \<open>A line that does not fit the scanner's buffer is dropped with all that follows it in the block, and no error is
  returned.\<close>

theorem UncommentCode_drops_long_line:
  assumes "65536 \<le> length l" and "newline \<notin> set l" and "plain_line k"
  shows "scan_lines (k @ newline # l @ newline # s) = [k]"
proof -
  have "scan_lines (l @ newline # s) = []"
    using assms(1,2) by (subst scan_lines.simps) (simp add: break_line Let_def)
  with assms(3) show ?thesis by (simp add: scan_next)
qed

end
