(* ===== verification/CostSystem.thy ===== *)
theory CostSystem
  imports CostReconcile CostCollect
begin

text \<open>
  The cost patcher as a system: its ticks (\<open>CostReconcile\<close>), users who apply and delete workloads, and the cost table
  of the command line (\<open>CostCollect\<close>), all on one API server.

  The patcher reads through a cache, which answers with some version an object had, and patches the object as it is
  then stored. \<open>cost_run h s\<close> says that the server \<open>s\<close> is reached by some interleaving of changes by users and of
  the patcher's work on single pods and owners, each with its own cache, Prometheus and failures. The history \<open>h\<close>
  lists what the patcher looked at, each pod with the target it resolved to and each InferenceService found idle, and
  the hourly costs users wrote themselves, as \<^verbatim>\<open>hack/demo-workload.yaml\<close> and the FAQ do. The invariant says that
  every hourly cost of every version goes back to one entry of the history.
\<close>

section \<open>The API server\<close>

type_synonym kobject_id = "gvk \<times> string \<times> string"

definition deploymentGVK :: gvk where
  "deploymentGVK = \<lparr>gvk_group = ''apps'', gvk_version = ''v1'', gvk_kind = ''Deployment''\<rparr>"

definition statefulSetGVK :: gvk where
  "statefulSetGVK = \<lparr>gvk_group = ''apps'', gvk_version = ''v1'', gvk_kind = ''StatefulSet''\<rparr>"

definition kobject_id :: "kobject \<Rightarrow> kobject_id" where
  "kobject_id ob = (case ob of KDeployment r \<Rightarrow> (deploymentGVK, r_namespace r, r_name r)
     | KStatefulSet r \<Rightarrow> (statefulSetGVK, r_namespace r, r_name r)
     | KUnstructured u \<Rightarrow> (u_gvk u, u_namespace u, u_name u)
     | KOther ty _ \<Rightarrow> (\<lparr>gvk_group = '''', gvk_version = '''', gvk_kind = ty\<rparr>, '''', ''''))"

text \<open>Deployments and StatefulSets are typed objects.\<close>

definition well_kinded :: "kobject \<Rightarrow> bool" where
  "well_kinded ob \<longleftrightarrow> (case ob of KUnstructured u \<Rightarrow> u_gvk u \<noteq> deploymentGVK \<and> u_gvk u \<noteq> statefulSetGVK
     | KOther _ _ \<Rightarrow> False | _ \<Rightarrow> True)"

lemma kobject_id_set [simp]:
  "kobject_id (SetAnnotations m ob) = kobject_id ob" "well_kinded (SetAnnotations m ob) = well_kinded ob"
  by (simp_all add: kobject_id_def well_kinded_def SetAnnotations_def split: kobject.split)

record cost_server =
  co_objects :: "(kobject_id, kobject) fmap"
  co_versions :: "kobject list"
  co_pods :: "pod list"

definition put_object :: "kobject \<Rightarrow> cost_server \<Rightarrow> cost_server" where
  "put_object ob s = s\<lparr>co_objects := fmupd (kobject_id ob) ob (co_objects s), co_versions := ob # co_versions s\<rparr>"

definition patched_object :: "kobject \<Rightarrow> kobject \<Rightarrow> kobject \<Rightarrow> kobject" where
  "patched_object orig t cur =
     SetAnnotations (merge_annotations (GetAnnotations orig) (GetAnnotations t) (GetAnnotations cur)) cur"

text \<open>Documented behaviour of the API server behind a cache: a read answers with versions of what was asked for, a merge
  patch fails and changes nothing or is applied to the stored object.\<close>

definition cached_reads :: "cost_server kube \<Rightarrow> bool" where
  "cached_reads K \<longleftrightarrow>
     (\<forall>s ns n r. ka_get_deployment K s ns n = Inr r
        \<longrightarrow> KDeployment r \<in> set (co_versions s) \<and> r_namespace r = ns \<and> r_name r = n)
   \<and> (\<forall>s ns n r. ka_get_statefulset K s ns n = Inr r
        \<longrightarrow> KStatefulSet r \<in> set (co_versions s) \<and> r_namespace r = ns \<and> r_name r = n)
   \<and> (\<forall>s ns n r. ka_get_replicaset K s ns n = Inr r \<longrightarrow> rs_namespace r = ns \<and> rs_name r = n)
   \<and> (\<forall>s g ns n u. ka_get_unstructured K s g ns n = Inr u
        \<longrightarrow> KUnstructured u \<in> set (co_versions s) \<and> u_gvk u = g \<and> u_namespace u = ns \<and> u_name u = n)
   \<and> (\<forall>s g nso us. ka_list_unstructured K s (list_gvk g) nso = Inr us
        \<longrightarrow> (\<forall>u \<in> set us. KUnstructured u \<in> set (co_versions s) \<and> u_gvk u = g))
   \<and> (\<forall>s g ns us. ka_list_unstructured K s g (Some ns) = Inr us \<longrightarrow> (\<forall>u \<in> set us. u_namespace u = ns))
   \<and> (\<forall>s ps. ka_list_pods K s = Inr ps \<longrightarrow> set ps \<subseteq> set (co_pods s))"

definition merging_patches :: "cost_server kube \<Rightarrow> bool" where
  "merging_patches K \<longleftrightarrow> (\<forall>s orig t. (\<exists>err. ka_patch K s orig t = (Inl err, s))
     \<or> (\<exists>cur. fmlookup (co_objects s) (kobject_id orig) = Some cur
          \<and> ka_patch K s orig t = (Inr (patched_object orig t cur), put_object (patched_object orig t cur) s)))"

definition empty_cluster :: cost_server where
  "empty_cluster = \<lparr>co_objects = fmempty, co_versions = [], co_pods = []\<rparr>"

section \<open>Runs\<close>

definition price_keys :: "string list" where
  "price_keys = [AnnCostPerHour, AnnCostPerHourPerReplica]"

definition stored_annotation :: "cost_server \<Rightarrow> kobject_id \<Rightarrow> string \<Rightarrow> string option" where
  "stored_annotation s q k = Option.bind (fmlookup (co_objects s) q) (\<lambda>ob. fmlookup (GetAnnotations ob) k)"

datatype price_event = PodRead prom_api pod kobject | IdleRead unstr | UserWrote kobject_id string string

text \<open>A user may apply any object. An hourly cost that is not as stored is one the user writes.\<close>

definition user_writes :: "cost_server \<Rightarrow> kobject \<Rightarrow> price_event list" where
  "user_writes s ob = concat (map (\<lambda>k. case fmlookup (GetAnnotations ob) k of None \<Rightarrow> []
     | Some v \<Rightarrow> if stored_annotation s (kobject_id ob) k = Some v then [] else [UserWrote (kobject_id ob) k v]) price_keys)"

definition pod_read :: "cost_server kube \<Rightarrow> prom_api \<Rightarrow> adapter list \<Rightarrow> pod \<Rightarrow> cost_server \<Rightarrow> price_event list" where
  "pod_read K api adapters p s = (case choose_adapter adapters p of None \<Rightarrow> []
     | Some a \<Rightarrow> (case ResolveTarget a K s p of Inl _ \<Rightarrow> [] | Inr t \<Rightarrow> [PodRead api p t]))"

definition idle :: "cost_server kube \<Rightarrow> unstr \<Rightarrow> bool" where
  "idle K u \<longleftrightarrow> (case predictorReadyReplicas K u of Inr (Some n) \<Rightarrow> n \<le> 0 | _ \<Rightarrow> False)"

definition idle_read :: "cost_server kube \<Rightarrow> cost_server \<Rightarrow> price_event list" where
  "idle_read K s = (case ka_list_unstructured K s (list_gvk inferenceServiceGVK) None of Inl _ \<Rightarrow> []
     | Inr us \<Rightarrow> map IdleRead (filter (idle K) us))"

definition owners_round :: "cost_server kube \<Rightarrow> utc \<Rightarrow> cost_server \<Rightarrow> cost_server" where
  "owners_round K now s = snd (KServe_ReconcileOwners K now s)"

inductive cost_run :: "price_event list \<Rightarrow> cost_server \<Rightarrow> bool" where
  started: "cost_run [] empty_cluster"
| pod_seen: "cost_run h s \<Longrightarrow> cost_run h (s\<lparr>co_pods := p # co_pods s\<rparr>)"
| applied: "cost_run h s \<Longrightarrow> well_kinded ob \<Longrightarrow> cost_run (h @ user_writes s ob) (put_object ob s)"
| removed: "cost_run h s \<Longrightarrow> cost_run h (s\<lparr>co_objects := fmdrop q (co_objects s)\<rparr>)"
| pod_ticked: "cost_run h s \<Longrightarrow> cached_reads K \<Longrightarrow> merging_patches K \<Longrightarrow> p \<in> set (co_pods s) \<Longrightarrow>
    cost_run (h @ pod_read K api adapters p s) (snd (tick_pod K api adapters now p s))"
| owners_ticked: "cost_run h s \<Longrightarrow> cached_reads K \<Longrightarrow> merging_patches K \<Longrightarrow>
    cost_run (h @ idle_read K s) (owners_round K now s)"

section \<open>Where hourly costs come from\<close>

definition explained :: "price_event list \<Rightarrow> kobject_id \<Rightarrow> string \<Rightarrow> bool" where
  "explained h q v \<longleftrightarrow>
     (\<exists>api p t x. PodRead api p t \<in> set h \<and> kobject_id t = q \<and> 0 < GPUCountFromPod p
        \<and> QueryInstant api (cost_per_hour_query p) = Inr (Some x) \<and> v = formatCost x)
   \<or> (\<exists>u. IdleRead u \<in> set h \<and> kobject_id (KUnstructured u) = q \<and> v = formatCost fzero)
   \<or> (\<exists>k \<in> set price_keys. UserWrote q k v \<in> set h)"

definition priced :: "price_event list \<Rightarrow> kobject \<Rightarrow> bool" where
  "priced h ob \<longleftrightarrow> (\<forall>k \<in> set price_keys. \<forall>v. fmlookup (GetAnnotations ob) k = Some v \<longrightarrow> explained h (kobject_id ob) v)"

definition event_ok :: "pod list \<Rightarrow> price_event \<Rightarrow> bool" where
  "event_ok ps ev = (case ev of PodRead api p t \<Rightarrow> p \<in> set ps \<and> object_namespace t = p_namespace p
     | IdleRead u \<Rightarrow> u_gvk u = inferenceServiceGVK | UserWrote _ _ _ \<Rightarrow> True)"

definition coherent :: "cost_server \<Rightarrow> bool" where
  "coherent s \<longleftrightarrow> fmpred (\<lambda>q ob. q = kobject_id ob \<and> well_kinded ob \<and> ob \<in> set (co_versions s)) (co_objects s)"

lemma coherent_stored: "coherent s \<Longrightarrow> fmlookup (co_objects s) q = Some ob \<Longrightarrow> kobject_id ob = q \<and> well_kinded ob \<and> ob \<in> set (co_versions s)"
  by (cases q) (auto simp: coherent_def fmpred_iff)

lemma coherent_put: "coherent s \<Longrightarrow> well_kinded ob \<Longrightarrow> coherent (put_object ob s)"
  by (auto simp: coherent_def put_object_def fmpred_iff split: if_splits)

definition cost_ok :: "price_event list \<Rightarrow> cost_server \<Rightarrow> bool" where
  "cost_ok h s \<longleftrightarrow> coherent s
     \<and> (\<forall>ob \<in> set (co_versions s). priced h ob) \<and> (\<forall>ev \<in> set h. event_ok (co_pods s) ev)"

lemma explained_append: "explained h q v \<Longrightarrow> explained (h @ h') q v"
  unfolding explained_def set_append by blast

lemma explained_pod:
  "PodRead api p t \<in> set h \<Longrightarrow> 0 < GPUCountFromPod p \<Longrightarrow> QueryInstant api (cost_per_hour_query p) = Inr (Some x)
    \<Longrightarrow> explained h (kobject_id t) (formatCost x)"
  unfolding explained_def by blast

lemma explained_idle: "IdleRead u \<in> set h \<Longrightarrow> explained h (kobject_id (KUnstructured u)) (formatCost fzero)"
  unfolding explained_def by blast

lemma explained_user: "UserWrote q k v \<in> set h \<Longrightarrow> k \<in> set price_keys \<Longrightarrow> explained h q v"
  unfolding explained_def by blast

lemma priced_append: "priced h ob \<Longrightarrow> priced (h @ h') ob"
  by (simp add: priced_def explained_append)

lemma cost_ok_append: "cost_ok h s \<Longrightarrow> list_all (event_ok (co_pods s)) h' \<Longrightarrow> cost_ok (h @ h') s"
  by (auto simp: cost_ok_def priced_append list_all_iff)

lemma cost_ok_put: "cost_ok h s \<Longrightarrow> well_kinded ob \<Longrightarrow> priced h ob \<Longrightarrow> cost_ok h (put_object ob s)"
  by (auto simp: cost_ok_def coherent_put) (auto simp: put_object_def)

lemma cost_ok_stored:
  "cost_ok h s \<Longrightarrow> fmlookup (co_objects s) q = Some ob \<Longrightarrow> kobject_id ob = q \<and> well_kinded ob \<and> priced h ob"
  by (auto simp: cost_ok_def dest: coherent_stored)

text \<open>A patch that changes an hourly cost only to an explained one, or removes it.\<close>

definition fair_patch :: "price_event list \<Rightarrow> kobject \<Rightarrow> kobject \<Rightarrow> bool" where
  "fair_patch h orig t \<longleftrightarrow> (\<forall>k \<in> set price_keys. \<forall>v. fmlookup (GetAnnotations t) k = Some v
     \<longrightarrow> fmlookup (GetAnnotations orig) k = Some v \<or> explained h (kobject_id orig) v)"

lemma kobject_id_patched [simp]:
  "kobject_id (patched_object orig t cur) = kobject_id cur" "well_kinded (patched_object orig t cur) = well_kinded cur"
  by (simp_all add: patched_object_def)

lemma patched_priced:
  assumes "priced h cur" and "kobject_id cur = kobject_id orig" and "fair_patch h orig t"
  shows "priced h (patched_object orig t cur)"
  using assms by (auto simp: priced_def fair_patch_def patched_object_def split: if_splits)

lemma patch_ok:
  assumes "cost_ok h s" and "merging_patches K" and "fair_patch h orig t"
  shows "cost_ok h (snd (ka_patch K s orig t))"
proof -
  from assms(2) consider (failed) err where "ka_patch K s orig t = (Inl err, s)"
    | (done_ok) cur where "fmlookup (co_objects s) (kobject_id orig) = Some cur"
        "ka_patch K s orig t = (Inr (patched_object orig t cur), put_object (patched_object orig t cur) s)"
    unfolding merging_patches_def by metis
  then show ?thesis
  proof cases
    case done_ok
    with cost_ok_stored [OF assms(1) done_ok(1)] assms(1,3) show ?thesis
      by (simp add: cost_ok_put patched_priced)
  qed (simp add: assms(1))
qed

lemma supported_patch_ok:
  assumes "cost_ok h s" and "merging_patches K" and "fair_patch h orig t"
  shows "cost_ok h (snd (patch_supported (ka_patch K) orig t s))"
  using assms patch_ok [OF assms] by (cases t) (simp_all add: patch_supported_def)

lemma lookup_get: "fmlookup m k = (if mhas m k then Some (mget m k) else None)"
  by (auto simp: mget_def mhas_def)

lemma updated_price:
  "k \<in> set price_keys \<Longrightarrow> CostPerHour res = Some x \<Longrightarrow> fmlookup (updated_annotations anns res) k = Some (formatCost x)"
  by (auto simp: lookup_get updated_get updated_has price_keys_def build_has build_get)

lemma PatchTarget_ok:
  assumes "cost_ok h s" and "merging_patches K" and "CostPerHour res = Some x"
    and "explained h (kobject_id t) (formatCost x)"
  shows "cost_ok h (snd (PatchTargetAnnotations (ka_patch K) t res s))"
  using assms supported_patch_ok [OF assms(1,2)]
  by (simp add: PatchTargetAnnotations_def fair_patch_def updated_price)

lemma Remove_ok:
  assumes "cost_ok h s" and "merging_patches K"
  shows "cost_ok h (snd (RemoveCostAnnotations (ka_patch K) t rate_keys s))"
  using assms supported_patch_ok [OF assms]
  by (simp add: RemoveCostAnnotations_def Let_def fair_patch_def price_keys_def rate_keys_def)

lemma total_ok:
  assumes "cost_ok h s" and "merging_patches K"
  shows "cost_ok h (snd (patchTrainJobTotalCostIfComplete K t res s))"
proof (cases t)
  case (KUnstructured u)
  have "fair_patch h t (KUnstructured (u\<lparr>u_annotations := fmupd AnnTotalJobCostUSD v (u_annotations u)\<rparr>))" for v
    by (simp add: KUnstructured fair_patch_def price_keys_def GetAnnotations_def ann_defs)
  with assms patch_ok [OF assms] KUnstructured show ?thesis
    by (simp add: patchTrainJobTotalCostIfComplete_def split: option.split prod.split)
qed (use assms in \<open>simp_all add: patchTrainJobTotalCostIfComplete_def\<close>)

lemma WriteCost_ok:
  assumes "cost_ok h s" and "merging_patches K" and "CostPerHour res = Some x"
    and "explained h (kobject_id t) (formatCost x)"
  shows "cost_ok h (snd (WriteCost a K t res s))"
  using PatchTarget_ok [OF assms] total_ok [OF _ assms(2)]
  by (cases "PatchTargetAnnotations (ka_patch K) t res s")
    (auto simp: WriteCost_def KubeflowTrainer_WriteCost_def split: adapter.split sum.split)

lemma cached_namespaced: "cached_reads K \<Longrightarrow> namespaced K"
  by (simp add: cached_reads_def namespaced_def)

lemma pod_read_ok:
  assumes "cached_reads K" and "p \<in> set (co_pods s)"
  shows "list_all (event_ok (co_pods s)) (pod_read K api adapters p s)"
  using assms ResolveTarget_target [OF cached_namespaced [OF assms(1)]]
  by (auto simp: pod_read_def event_ok_def split: option.split sum.split)

lemma tick_pod_ok:
  assumes "cost_ok h s" and "cached_reads K" and "merging_patches K" and "p \<in> set (co_pods s)"
  shows "cost_ok (h @ pod_read K api adapters p s) (snd (tick_pod K api adapters now p s))"
proof -
  let ?h = "h @ pod_read K api adapters p s"
  have ok: "cost_ok ?h s" using assms by (simp add: cost_ok_append pod_read_ok)
  have ex: "explained ?h (kobject_id t) (formatCost x)"
    if "choose_adapter adapters p = Some a" "ResolveTarget a K s p = Inr t" "0 < GPUCountFromPod p"
      "QueryInstant api (cost_per_hour_query p) = Inr (Some x)" for a t x
    by (rule explained_pod [OF _ that(3,4)]) (simp add: pod_read_def that(1,2))
  show ?thesis
    using ok ex WriteCost_ok [OF ok assms(3)] Remove_ok [OF ok assms(3)]
    by (auto simp: tick_pod_def Let_def split: option.split sum.split)
qed

lemma idle_read_ok: "cached_reads K \<Longrightarrow> list_all (event_ok (co_pods s)) (idle_read K s)"
  unfolding idle_read_def cached_reads_def
  by (auto simp: event_ok_def list_all_iff split: sum.split) metis

lemma owner_list_ok:
  assumes "cost_ok h s" and "merging_patches K" and "\<And>u. u \<in> set us \<Longrightarrow> idle K u \<Longrightarrow> IdleRead u \<in> set h"
  shows "cost_ok h (snd (reconcile_owner_list K now us s))"
  using assms(1,3)
proof (induction us arbitrary: s)
  case (Cons u us)
  have IH: "cost_ok h s' \<Longrightarrow> cost_ok h (snd (reconcile_owner_list K now us s'))" for s'
    by (rule Cons.IH) (use Cons.prems(2) in auto)
  have "cost_ok h (snd (PatchTargetAnnotations (ka_patch K) (KUnstructured u) (zero_result K now u) s))" if "idle K u"
    by (rule PatchTarget_ok [OF Cons.prems(1) assms(2)])
      (use that Cons.prems(2) [of u] explained_idle [of u h] in \<open>auto simp: zero_result_def Let_def\<close>)
  with Cons.prems(1) IH show ?case
    by (cases "PatchTargetAnnotations (ka_patch K) (KUnstructured u) (zero_result K now u) s")
      (auto simp: idle_def split: sum.split option.split)
qed simp

lemma owners_round_ok:
  assumes "cost_ok h s" and "cached_reads K" and "merging_patches K"
  shows "cost_ok (h @ idle_read K s) (owners_round K now s)"
proof -
  have ok: "cost_ok (h @ idle_read K s) s" using assms by (simp add: cost_ok_append idle_read_ok)
  show ?thesis
    using ok owner_list_ok [OF ok assms(3)]
    by (auto simp: owners_round_def KServe_ReconcileOwners_def idle_read_def split: sum.split)
qed

lemma user_writes_mem:
  assumes "k \<in> set price_keys" and "fmlookup (GetAnnotations ob) k = Some v"
    and "stored_annotation s (kobject_id ob) k \<noteq> Some v"
  shows "UserWrote (kobject_id ob) k v \<in> set (user_writes s ob)"
  unfolding user_writes_def set_concat set_map by (rule UN_I [OF imageI [OF assms(1)]]) (simp add: assms(2,3))

lemma user_writes_ok: "list_all (event_ok ps) (user_writes s ob)"
  by (auto simp: user_writes_def list_all_iff event_ok_def split: option.splits if_splits)

lemma cost_run_ok: "cost_run h s \<Longrightarrow> cost_ok h s"
proof (induction rule: cost_run.induct)
  case started
  show ?case by (simp add: cost_ok_def coherent_def empty_cluster_def)
next
  case (pod_seen h s p)
  then show ?case by (force simp: cost_ok_def coherent_def event_ok_def split: price_event.splits)
next
  case (applied h s ob)
  let ?h = "h @ user_writes s ob"
  have ok: "cost_ok ?h s" using applied.IH by (rule cost_ok_append) (simp add: user_writes_ok)
  have "explained ?h (kobject_id ob) v" if k: "k \<in> set price_keys" "fmlookup (GetAnnotations ob) k = Some v" for k v
  proof (cases "stored_annotation s (kobject_id ob) k = Some v")
    case True
    then obtain cur where "fmlookup (co_objects s) (kobject_id ob) = Some cur" "fmlookup (GetAnnotations cur) k = Some v"
      by (auto simp: stored_annotation_def bind_eq_Some_conv)
    with cost_ok_stored [OF ok] k(1) show ?thesis by (metis priced_def)
  next
    case False
    from user_writes_mem [OF k this] show ?thesis by (intro explained_user [OF _ k(1)]) simp
  qed
  then have "priced ?h ob" by (simp add: priced_def)
  with ok applied.hyps(2) show ?case by (simp add: cost_ok_put)
next
  case (removed h s q)
  then show ?case by (auto simp: cost_ok_def coherent_def fmpred_iff split: if_splits)
qed (simp_all add: tick_pod_ok owners_round_ok)

text \<open>A whole tick on one cluster is such a run, whatever happens on the way.\<close>

lemma merging_patch_state:
  assumes "merging_patches K"
  shows "snd (ka_patch K s orig t) = s
    \<or> (\<exists>cur. fmlookup (co_objects s) (kobject_id orig) = Some cur \<and> snd (ka_patch K s orig t) = put_object (patched_object orig t cur) s)"
  using assms unfolding merging_patches_def by (metis snd_conv)

lemma tick_pod_pods:
  assumes "merging_patches K"
  shows "co_pods (snd (tick_pod K api adapters now p s)) = co_pods s"
proof -
  have "cost_writes_keep K (\<lambda>s'. co_pods s' = co_pods s)"
    unfolding cost_writes_keep_def
    using merging_patch_state [OF assms] by (metis put_object_def cost_server.select_convs(3) cost_server.surjective
        cost_server.update_convs(1,2))
  then show ?thesis by (rule tick_pod_keeps) simp
qed

lemma tick_pods_pods:
  assumes "merging_patches K"
  shows "co_pods (snd (tick_pods K api adapters now ps s)) = co_pods s"
proof (induction ps arbitrary: s)
  case (Cons p ps)
  from tick_pod_pods [OF assms, of api adapters "now p" p s] Cons show ?case
    by (cases "tick_pod K api adapters (now p) p s") (auto split: option.split)
qed simp

lemma tick_pods_run:
  assumes "cost_run h s" and "cached_reads K" and "merging_patches K" and "set ps \<subseteq> set (co_pods s)"
  shows "\<exists>h'. cost_run (h @ h') (snd (tick_pods K api adapters now ps s))"
  using assms(1,4)
proof (induction ps arbitrary: h s)
  case Nil
  then show ?case by (intro exI [of _ "[]"]) simp
next
  case (Cons p ps)
  obtain err s' where s': "tick_pod K api adapters (now p) p s = (err, s')" by (metis surj_pair)
  have step: "cost_run (h @ pod_read K api adapters p s) s'"
    using cost_run.pod_ticked [OF Cons.prems(1) assms(2,3), of p api adapters "now p"] Cons.prems(2) s' by simp
  show ?case
  proof (cases err)
    case None
    have "co_pods s' = co_pods s" using tick_pod_pods [OF assms(3), of api adapters "now p" p s] s' by simp
    with Cons.IH [OF step] Cons.prems(2) None s' show ?thesis by auto
  next
    case (Some e)
    with step s' show ?thesis by auto
  qed
qed

lemma tick_owners_registry: "tick_owners K now Registry s = owners_round K now s"
  by (simp add: tick_owners_def Registry_def ReconcileOwners_def owners_round_def)

lemma tick_run:
  assumes "cost_run h s" and "cached_reads K" and "merging_patches K"
  shows "\<exists>h'. cost_run (h @ h') (snd (tick K api Registry now onow s))"
proof (cases "ka_list_pods K s")
  case (Inl err)
  with assms(1) show ?thesis by (intro exI [of _ "[]"]) (simp add: tick_def)
next
  case (Inr ps)
  then have "set ps \<subseteq> set (co_pods s)" using assms(2) by (simp add: cached_reads_def)
  from tick_pods_run [OF assms this] obtain h' where
    h': "cost_run (h @ h') (snd (tick_pods K api Registry now ps s))" by blast
  show ?thesis
  proof (cases "tick_pods K api Registry now ps s")
    case (Pair err s')
    with h' cost_run.owners_ticked [OF h' assms(2,3), of onow] Inr show ?thesis
      by (cases err) (auto simp: tick_def tick_owners_registry)
  qed
qed

lemma formatCost_zero: "formatCost fzero = ''0''"
proof -
  have "scaled 12 0 = 0" using scaled_int [of 12 0] by simp
  then have "FormatFixed 12 fzero = ''0.000000000000''"
    by (simp add: fzero_def FormatFixed_numeral) code_simp
  then show ?thesis by (simp add: formatCost_def trim_right_def Let_def)
qed

text \<open>C6 Every hourly cost on a workload came from Prometheus unless a user wrote it: with a cache as stale as it may be,
  failing calls and users applying any objects at any time, an hourly cost annotation of any version of any object is the
  text of a sample that Prometheus gave for a GPU pod of that object's namespace which resolved to that object, or the zero of
  an InferenceService found without ready replicas, or a text that a user applied to that object under one of the two
  hourly keys when it was not what the object held there.\<close>

theorem costs_come_from_prometheus:
  assumes "cost_run h s" and "ob \<in> set (co_versions s)"
    and "k = AnnCostPerHour \<or> k = AnnCostPerHourPerReplica" and "fmlookup (GetAnnotations ob) k = Some v"
  shows "(\<exists>api p t x. PodRead api p t \<in> set h \<and> kobject_id t = kobject_id ob \<and> p \<in> set (co_pods s)
        \<and> p_namespace p = object_namespace t \<and> 0 < GPUCountFromPod p
        \<and> QueryInstant api (cost_per_hour_query p) = Inr (Some x) \<and> v = formatCost x)
    \<or> (\<exists>u. IdleRead u \<in> set h \<and> kobject_id (KUnstructured u) = kobject_id ob \<and> u_gvk u = inferenceServiceGVK \<and> v = ''0'')
    \<or> (\<exists>k. (k = AnnCostPerHour \<or> k = AnnCostPerHourPerReplica) \<and> UserWrote (kobject_id ob) k v \<in> set h)"
proof -
  note ok = cost_run_ok [OF assms(1)]
  have "explained h (kobject_id ob) v"
    using ok assms(2-4) by (auto simp: cost_ok_def priced_def price_keys_def)
  then show ?thesis
  proof (unfold explained_def, elim disjE exE conjE bexE, goal_cases)
    case (1 api p t x)
    with ok have "event_ok (co_pods s) (PodRead api p t)" by (simp add: cost_ok_def)
    with 1 show ?case by (intro disjI1 exI [of _ api] exI [of _ p] exI [of _ t] exI [of _ x]) (simp add: event_ok_def)
  next
    case (2 u)
    with ok have "event_ok (co_pods s) (IdleRead u)" by (simp add: cost_ok_def)
    with 2 show ?case by (intro disjI2 disjI1 exI [of _ u]) (simp add: event_ok_def formatCost_zero)
  next
    case (3 k)
    then show ?case by (intro disjI2 exI [of _ k]) (simp add: price_keys_def)
  qed
qed

section \<open>Which pod of a workload decides its cost\<close>

text \<open>A working API server: the patch of a stored object succeeds.\<close>

definition working_patches :: "cost_server kube \<Rightarrow> bool" where
  "working_patches K \<longleftrightarrow> (\<forall>s orig t. case fmlookup (co_objects s) (kobject_id orig) of
       None \<Rightarrow> (\<exists>err. ka_patch K s orig t = (Inl err, s))
     | Some cur \<Rightarrow> ka_patch K s orig t = (Inr (patched_object orig t cur), put_object (patched_object orig t cur) s))"

lemma working_patch_applies:
  assumes "working_patches K"
  shows "fmlookup (co_objects s) (kobject_id orig) = Some cur \<Longrightarrow>
      ka_patch K s orig t = (Inr (patched_object orig t cur), put_object (patched_object orig t cur) s)"
    and "fmlookup (co_objects s) (kobject_id orig) = None \<Longrightarrow> \<exists>err. ka_patch K s orig t = (Inl err, s)"
  using assms [unfolded working_patches_def, rule_format, of s orig t] by simp_all

lemma working_merging: "working_patches K \<Longrightarrow> merging_patches K"
  unfolding merging_patches_def by (metis working_patch_applies option.exhaust)

text \<open>The pod resolves to the object \<open>q\<close> as it is stored; the pod costs nothing or never resolves to \<open>q\<close>.\<close>

definition resolves_to :: "cost_server kube \<Rightarrow> adapter list \<Rightarrow> kobject_id \<Rightarrow> pod \<Rightarrow> bool" where
  "resolves_to K adapters q p \<longleftrightarrow> p_namespace p \<noteq> '''' \<and> p_name p \<noteq> '''' \<and> 0 < GPUCountFromPod p
     \<and> (\<exists>a. choose_adapter adapters p = Some a
          \<and> (\<forall>s ob. coherent s \<longrightarrow> fmlookup (co_objects s) q = Some ob \<longrightarrow> ResolveTarget a K s p = Inr ob))"

definition elsewhere :: "cost_server kube \<Rightarrow> adapter list \<Rightarrow> kobject_id \<Rightarrow> pod \<Rightarrow> bool" where
  "elsewhere K adapters q p \<longleftrightarrow> GPUCountFromPod p \<le> 0
     \<or> (\<forall>s a t. choose_adapter adapters p = Some a \<longrightarrow> ResolveTarget a K s p = Inr t \<longrightarrow> kobject_id t \<noteq> q)"

lemma Get_patched [simp]:
  "GetAnnotations (patched_object orig t cur) = merge_annotations (GetAnnotations orig) (GetAnnotations t) (GetAnnotations cur)"
  by (simp add: patched_object_def)

text \<open>What a patch keeps: the object \<open>q\<close> stays stored, and its annotation \<open>k\<close> as it is, if the patch is of another
  object or leaves \<open>k\<close> alone.\<close>

definition holds :: "kobject_id \<Rightarrow> string \<Rightarrow> string option \<Rightarrow> cost_server \<Rightarrow> bool" where
  "holds q k v s \<longleftrightarrow> coherent s \<and> fmlookup (co_objects s) q \<noteq> None \<and> stored_annotation s q k = v"

definition is_stored :: "kobject_id \<Rightarrow> cost_server \<Rightarrow> bool" where
  "is_stored q s \<longleftrightarrow> coherent s \<and> fmlookup (co_objects s) q \<noteq> None"

lemma co_objects_put [simp]: "co_objects (put_object ob s) = fmupd (kobject_id ob) ob (co_objects s)"
  by (simp add: put_object_def)

lemma patch_holds:
  assumes "merging_patches K" and "holds q k v s"
    and "kobject_id orig = q \<Longrightarrow> fmlookup (GetAnnotations t) k = fmlookup (GetAnnotations orig) k"
  shows "holds q k v (snd (ka_patch K s orig t))"
  using merging_patch_state [OF assms(1), of s orig t]
proof (elim disjE exE conjE)
  fix cur assume cur: "fmlookup (co_objects s) (kobject_id orig) = Some cur"
    "snd (ka_patch K s orig t) = put_object (patched_object orig t cur) s"
  have c: "coherent s" "fmlookup (co_objects s) q \<noteq> None" "stored_annotation s q k = v"
    using assms(2) by (simp_all add: holds_def)
  have "kobject_id cur = kobject_id orig" "well_kinded cur" using coherent_stored [OF c(1) cur(1)] by simp_all
  with c cur(1) assms(3) show ?thesis
    unfolding cur(2) holds_def by (auto simp: coherent_put stored_annotation_def)
qed (simp add: assms(2))

lemma patch_stored: 
  assumes "merging_patches K"
  shows "cost_writes_keep K (is_stored q)"
  unfolding cost_writes_keep_def
proof (intro allI impI)
  fix s orig t assume s: "is_stored q s"
  from merging_patch_state [OF assms, of s orig t] show "is_stored q (snd (ka_patch K s orig t))"
    using s by (auto simp: is_stored_def) (metis coherent_put coherent_stored kobject_id_patched(2))+
qed

lemma supported_patch_holds:
  assumes "merging_patches K" and "holds q k v s"
    and "kobject_id orig = q \<Longrightarrow> fmlookup (GetAnnotations t) k = fmlookup (GetAnnotations orig) k"
  shows "holds q k v (snd (patch_supported (ka_patch K) orig t s))"
  using assms(2) patch_holds [OF assms] by (cases t) (simp_all add: patch_supported_def)

lemma total_holds:
  assumes "merging_patches K" and "holds q k v s" and "k \<in> set rate_keys"
  shows "holds q k v (snd (patchTrainJobTotalCostIfComplete K t res s))"
proof (cases t)
  case (KUnstructured u)
  have "holds q k v (snd (ka_patch K s t (KUnstructured (u\<lparr>u_annotations := fmupd AnnTotalJobCostUSD w (u_annotations u)\<rparr>))))" for w
    by (rule patch_holds [OF assms(1,2)]) (use assms(3) rate_keys_cost(2) in \<open>auto simp: KUnstructured GetAnnotations_def\<close>)
  with assms(2) KUnstructured show ?thesis
    by (simp add: patchTrainJobTotalCostIfComplete_def split: option.split prod.split)
qed (use assms(2) in \<open>simp_all add: patchTrainJobTotalCostIfComplete_def\<close>)

lemma WriteCost_holds:
  assumes "merging_patches K" and "holds q k v (snd (PatchTargetAnnotations (ka_patch K) t res s))" and "k \<in> set rate_keys"
  shows "holds q k v (snd (WriteCost a K t res s))"
  using assms(2) total_holds [OF assms(1) _ assms(3)]
  by (cases "PatchTargetAnnotations (ka_patch K) t res s")
    (auto simp: WriteCost_def KubeflowTrainer_WriteCost_def split: adapter.split sum.split)

lemma tick_pod_elsewhere:
  assumes "merging_patches K" and "holds q k v s" and "k \<in> set rate_keys" and "elsewhere K adapters q p"
  shows "holds q k v (snd (tick_pod K api adapters now p s))"
proof -
  have other: "holds q k v (snd (WriteCost a K t res s))" "holds q k v (snd (RemoveCostAnnotations (ka_patch K) t ks s))"
    if "kobject_id t \<noteq> q" for a t res ks
    using that assms(2) supported_patch_holds [OF assms(1,2), of t]
    by (auto intro!: WriteCost_holds [OF assms(1) _ assms(3)]
        simp: PatchTargetAnnotations_def RemoveCostAnnotations_def Let_def)
  with assms(2,4) show ?thesis
    by (auto simp: tick_pod_def elsewhere_def Let_def split: option.split sum.split)
qed

lemma tick_pods_elsewhere:
  assumes "merging_patches K" and "holds q k v s" and "k \<in> set rate_keys" and "list_all (elsewhere K adapters q) ps"
  shows "holds q k v (snd (tick_pods K api adapters now ps s))"
  using assms(2,4)
proof (induction ps arbitrary: s)
  case (Cons p ps)
  from tick_pod_elsewhere [OF assms(1) Cons.prems(1) assms(3), of adapters p api "now p"] Cons show ?case
    by (cases "tick_pod K api adapters (now p) p s") (auto split: option.split)
qed simp

text \<open>A patch of the object as it is stored.\<close>

lemma fresh_patch:
  assumes "working_patches K" and "coherent s" and "fmlookup (co_objects s) q = Some ob" and "supported ob"
  shows "holds q k (fmlookup m k) (snd (patch_supported (ka_patch K) ob (SetAnnotations m ob) s))"
proof -
  have id: "kobject_id ob = q" "well_kinded ob" using coherent_stored [OF assms(2,3)] by simp_all
  have "snd (patch_supported (ka_patch K) ob (SetAnnotations m ob) s) = put_object (patched_object ob (SetAnnotations m ob) ob) s"
    using working_patch_applies(1) [OF assms(1), of s ob ob] assms(3,4) id
    by (cases ob) (simp_all add: patch_supported_def supported_def SetAnnotations_def)
  then show ?thesis using assms(2) id by (auto simp: holds_def coherent_put stored_annotation_def)
qed

lemma fresh_write:
  assumes "working_patches K" and "coherent s" and "fmlookup (co_objects s) q = Some ob" and "supported ob"
    and "CostPerHour res = Some x" and "k \<in> set price_keys"
  shows "holds q k (Some (formatCost x)) (snd (PatchTargetAnnotations (ka_patch K) ob res s))"
proof (cases "shouldPatchCostAnnotations (GetAnnotations ob) res")
  case True
  with fresh_patch [OF assms(1-4), of k "updated_annotations (GetAnnotations ob) res"] updated_price [OF assms(6,5)]
  show ?thesis by (simp add: PatchTargetAnnotations_def)
next
  case False
  then have "mget (GetAnnotations ob) k = formatCost x"
    using assms(5,6) by (auto simp: shouldPatchCostAnnotations_def differs_def price_keys_def)
  then have "fmlookup (GetAnnotations ob) k = Some (formatCost x)"
    by (metis formatCost_nonempty lookup_get mget_nonempty_has)
  with False assms(2,3) show ?thesis
    by (simp add: PatchTargetAnnotations_def holds_def stored_annotation_def)
qed

lemma fresh_remove:
  assumes "working_patches K" and "coherent s" and "fmlookup (co_objects s) q = Some ob" and "supported ob"
    and "k \<in> set rate_keys"
  shows "holds q k None (snd (RemoveCostAnnotations (ka_patch K) ob rate_keys s))"
proof (cases "list_ex (mhas (GetAnnotations ob)) rate_keys")
  case True
  with fresh_patch [OF assms(1-4), of k "mdrop_keys rate_keys (GetAnnotations ob)"] assms(5) show ?thesis
    by (simp add: RemoveCostAnnotations_def Let_def)
next
  case False
  with assms(5) have "fmlookup (GetAnnotations ob) k = None" by (auto simp: list_ex_iff mhas_def)
  with False assms(2,3) show ?thesis
    by (simp add: RemoveCostAnnotations_def Let_def holds_def stored_annotation_def)
qed

lemma ResolveTarget_supported: "ResolveTarget a K s p = Inr t \<Longrightarrow> supported t"
  by (cases a) (auto simp: ResolveTarget_def dest: kserve.resolve_supported trainer.resolve_supported
      rayserve.resolve_supported bentoml.resolve_supported generic.resolve_supported)

text \<open>What the pod that decides leaves.\<close>

definition decided :: "kobject_id \<Rightarrow> string + f64 option \<Rightarrow> cost_server \<Rightarrow> bool" where
  "decided q sample s \<longleftrightarrow> (case sample of Inl _ \<Rightarrow> False
     | Inr None \<Rightarrow> list_all (\<lambda>k. holds q k None s) rate_keys
     | Inr (Some x) \<Rightarrow> list_all (\<lambda>k. holds q k (Some (formatCost x)) s) price_keys)"

lemma tick_pod_decides:
  assumes "working_patches K" and "is_stored q s" and "resolves_to K adapters q p"
    and "fst (tick_pod K api adapters now p s) = None"
  shows "decided q (QueryInstant api (cost_per_hour_query p)) (snd (tick_pod K api adapters now p s))"
proof -
  obtain ob where ob: "coherent s" "fmlookup (co_objects s) q = Some ob" using assms(2) by (auto simp: is_stored_def)
  obtain a where a: "choose_adapter adapters p = Some a" "ResolveTarget a K s p = Inr ob"
    using assms(3) ob by (auto simp: resolves_to_def)
  note sup = ResolveTarget_supported [OF a(2)]
  have w: "list_all (\<lambda>k. holds q k (Some (formatCost x)) (snd (WriteCost a K ob res s))) price_keys"
    if "CostPerHour res = Some x" for x res
    using fresh_write [OF assms(1) ob sup that]
    by (auto simp: list_all_iff intro!: WriteCost_holds [OF working_merging [OF assms(1)]])
      (simp add: price_keys_def rate_keys_def, blast)
  have r: "list_all (\<lambda>k. holds q k None (snd (RemoveCostAnnotations (ka_patch K) ob rate_keys s))) rate_keys"
    using fresh_remove [OF assms(1) ob sup] by (simp add: list_all_iff)
  show ?thesis
    using assms(3,4) a w r
    by (auto simp: resolves_to_def decided_def tick_pod_def Let_def split: sum.split option.split)
qed

lemma tick_pods_append:
  "tick_pods K api adapters now (ps @ qs) s = (case tick_pods K api adapters now ps s of
     (Some err, s') \<Rightarrow> (Some err, s') | (None, s') \<Rightarrow> tick_pods K api adapters now qs s')"
  by (induction ps arbitrary: s) (auto split: prod.split option.split)

lemma decided_elsewhere:
  assumes "merging_patches K" and "decided q sample s" and "list_all (elsewhere K adapters q) ps"
  shows "decided q sample (snd (tick_pods K api adapters now ps s))"
proof -
  have "set price_keys \<subseteq> set rate_keys" by (auto simp: price_keys_def rate_keys_def)
  then show ?thesis
    using assms(2) tick_pods_elsewhere [OF assms(1) _ _ assms(3)]
    by (auto simp: decided_def list_all_iff split: sum.splits option.splits)
qed

text \<open>Owner lists without a cache: the InferenceServices as they are stored, each once; and lists of pods that depend on the
  pods only.\<close>

definition fresh_owners :: "cost_server kube \<Rightarrow> bool" where
  "fresh_owners K \<longleftrightarrow> (\<forall>s us. coherent s \<longrightarrow> ka_list_unstructured K s (list_gvk inferenceServiceGVK) None = Inr us \<longrightarrow>
       distinct (map (\<lambda>u. kobject_id (KUnstructured u)) us)
       \<and> (\<forall>u \<in> set us. u_gvk u = inferenceServiceGVK
            \<and> fmlookup (co_objects s) (kobject_id (KUnstructured u)) = Some (KUnstructured u)))
   \<and> (\<forall>s s'. co_pods s = co_pods s' \<longrightarrow> ka_list_pods_labelled K s = ka_list_pods_labelled K s')"

text \<open>An InferenceService without ready replicas and without live pods, and its prices once it is seen as such.\<close>

definition scaled_down :: "cost_server kube \<Rightarrow> cost_server \<Rightarrow> kobject_id \<Rightarrow> unstr \<Rightarrow> bool" where
  "scaled_down K s q u \<longleftrightarrow> kobject_id (KUnstructured u) = q \<and> u_gvk u = inferenceServiceGVK \<and> idle K u
     \<and> kserveHasActivePods K s (u_namespace u) (u_name u) = Inr False"

definition settled :: "cost_server kube \<Rightarrow> cost_server \<Rightarrow> kobject_id \<Rightarrow> string + f64 option \<Rightarrow> cost_server \<Rightarrow> bool" where
  "settled K s0 q sample s \<longleftrightarrow> decided q sample s
     \<or> (\<exists>u. scaled_down K s0 q u) \<and> list_all (\<lambda>k. holds q k (Some ''0'') s) price_keys"

lemma settled_keep:
  assumes "settled K s0 q sample s" and "\<And>k v. k \<in> set rate_keys \<Longrightarrow> holds q k v s \<Longrightarrow> holds q k v s'"
  shows "settled K s0 q sample s'"
proof -
  have "set price_keys \<subseteq> set rate_keys" by (auto simp: price_keys_def rate_keys_def)
  with assms show ?thesis
    by (auto simp: settled_def decided_def list_all_iff split: sum.splits option.splits)
qed

lemma decided_coherent: "decided q sample s \<Longrightarrow> coherent s"
  by (auto simp: decided_def list_all_iff holds_def price_keys_def rate_keys_def split: sum.splits option.splits)

lemma settled_coherent: "settled K s0 q sample s \<Longrightarrow> coherent s"
  unfolding settled_def by (elim disjE conjE, erule decided_coherent) (simp add: price_keys_def holds_def)

text \<open>A patch of one object leaves the others as they are stored.\<close>

lemma patch_other:
  assumes "merging_patches K" and "coherent s" and "kobject_id orig \<noteq> q"
  shows "fmlookup (co_objects (snd (patch_supported (ka_patch K) orig t s))) q = fmlookup (co_objects s) q
    \<and> co_pods (snd (patch_supported (ka_patch K) orig t s)) = co_pods s"
proof -
  have "fmlookup (co_objects (snd (ka_patch K s orig t))) q = fmlookup (co_objects s) q
      \<and> co_pods (snd (ka_patch K s orig t)) = co_pods s"
    using merging_patch_state [OF assms(1), of s orig t] coherent_stored [OF assms(2), of "kobject_id orig"] assms(3)
    by (elim disjE exE conjE) (simp_all add: put_object_def)
  then show ?thesis by (cases t) (simp_all add: patch_supported_def)
qed

lemma owner_list_settles:
  assumes "working_patches K" and "settled K s0 q sample s" and "co_pods s = co_pods s0"
    and pods: "\<And>s s'. co_pods s = co_pods s' \<Longrightarrow> ka_list_pods_labelled K s = ka_list_pods_labelled K s'"
    and "distinct (map (\<lambda>u. kobject_id (KUnstructured u)) us)"
    and "\<And>u. u \<in> set us \<Longrightarrow> u_gvk u = inferenceServiceGVK
      \<and> fmlookup (co_objects s) (kobject_id (KUnstructured u)) = Some (KUnstructured u)"
  shows "settled K s0 q sample (snd (reconcile_owner_list K now us s))"
  using assms(2,3,5,6)
proof (induction us arbitrary: s)
  case (Cons u us)
  let ?id = "kobject_id (KUnstructured u)" and ?res = "zero_result K now u"
  let ?s = "snd (PatchTargetAnnotations (ka_patch K) (KUnstructured u) ?res s)"
  note merging = working_merging [OF assms(1)]
  have coh: "coherent s" using Cons.prems(1) by (rule settled_coherent)
  have here: "u_gvk u = inferenceServiceGVK" "fmlookup (co_objects s) ?id = Some (KUnstructured u)"
    using Cons.prems(4) [of u] by simp_all
  have skip: "settled K s0 q sample (snd (reconcile_owner_list K now us s))"
    using Cons.prems by (intro Cons.IH) simp_all
  have frame: "fmlookup (co_objects ?s) j = fmlookup (co_objects s) j \<and> co_pods ?s = co_pods s" if "j \<noteq> ?id" for j
    using patch_other [OF merging coh, of "KUnstructured u" j] that by (simp add: PatchTargetAnnotations_def)
  have pods_s: "co_pods ?s = co_pods s" using frame [of "(undefined, undefined, ''x'' @ snd (snd ?id))"] by (cases ?id) simp
  have patched: "settled K s0 q sample ?s"
    if "idle K u" "kserveHasActivePods K s (u_namespace u) (u_name u) = Inr False"
  proof (cases "?id = q")
    case False
    have "holds q k v ?s" if "holds q k v s" for k v
      using that supported_patch_holds [OF merging that, of "KUnstructured u"] False by (simp add: PatchTargetAnnotations_def)
    with Cons.prems(1) show ?thesis by (rule settled_keep)
  next
    case True
    have "scaled_down K s0 q u"
      using that True here(1) pods [OF Cons.prems(2)] by (simp add: scaled_down_def kserveHasActivePods_def)
    moreover have "holds q k (Some ''0'') ?s" if "k \<in> set price_keys" for k
      using fresh_write [OF assms(1) coh here(2) _ _ that, of ?res fzero] True
      by (simp add: supported_def zero_result_def Let_def formatCost_zero)
    ultimately show ?thesis by (auto simp: settled_def list_all_iff)
  qed
  have go_on: "settled K s0 q sample (snd (reconcile_owner_list K now us ?s))"
    if "idle K u" "kserveHasActivePods K s (u_namespace u) (u_name u) = Inr False"
  proof (rule Cons.IH [OF patched [OF that]])
    fix w assume w: "w \<in> set us"
    have "?id \<notin> (\<lambda>u. kobject_id (KUnstructured u)) ` set us" using Cons.prems(3) by simp
    then have "kobject_id (KUnstructured w) \<noteq> ?id" using imageI [OF w, of "\<lambda>u. kobject_id (KUnstructured u)"] by force
    with frame w Cons.prems(4) [of w] show "u_gvk w = inferenceServiceGVK
        \<and> fmlookup (co_objects ?s) (kobject_id (KUnstructured w)) = Some (KUnstructured w)" by simp
  qed (use Cons.prems pods_s in simp_all)
  show ?case
    using skip go_on patched Cons.prems(1)
    by (cases "PatchTargetAnnotations (ka_patch K) (KUnstructured u) ?res s")
      (auto simp: idle_def split: sum.split option.split)
qed simp

lemma owners_round_settles:
  assumes "working_patches K" and "fresh_owners K" and "settled K s0 q sample s" and "co_pods s = co_pods s0"
  shows "settled K s0 q sample (owners_round K now s)"
proof (cases "ka_list_unstructured K s (list_gvk inferenceServiceGVK) None")
  case (Inr us)
  note fresh = assms(2) [unfolded fresh_owners_def]
  from fresh settled_coherent [OF assms(3)] Inr
  have us: "distinct (map (\<lambda>u. kobject_id (KUnstructured u)) us)" "\<And>u. u \<in> set us \<Longrightarrow> u_gvk u = inferenceServiceGVK
      \<and> fmlookup (co_objects s) (kobject_id (KUnstructured u)) = Some (KUnstructured u)" by metis+
  have "settled K s0 q sample (snd (reconcile_owner_list K now us s))"
    by (rule owner_list_settles [OF assms(1,3,4) _ us]) (use fresh in blast)
  with Inr show ?thesis by (simp add: owners_round_def KServe_ReconcileOwners_def)
qed (simp add: owners_round_def KServe_ReconcileOwners_def assms(3))

text \<open>C7 The last GPU pod that resolves to a workload decides what a tick leaves on the workload, whatever the pods before it
  gave. In a whole tick that ends without an error, with fresh reads and patches that succeed, the hourly cost is that pod's sample, and when
  Prometheus has no sample for that pod every rate annotation is gone, those just written for its running siblings
  included. The one exception is the scale-to-zero step at the end of the tick: a workload that is an InferenceService without
  ready replicas, none of whose pods is running or pending without being deleted, may show zero instead.\<close>

theorem last_pod_decides:
  assumes "working_patches K" and "fresh_owners K" and "is_stored q s" and "resolves_to K Registry q p"
    and "list_all (elsewhere K Registry q) qs" and "ka_list_pods K s = Inr (ps @ p # qs)"
    and "tick K api Registry now onow s = (None, s')"
  shows "(case QueryInstant api (cost_per_hour_query p) of Inl _ \<Rightarrow> False
      | Inr (Some x) \<Rightarrow> list_all (\<lambda>k. stored_annotation s' q k = Some (formatCost x)) price_keys
      | Inr None \<Rightarrow> list_all (\<lambda>k. stored_annotation s' q k = None) rate_keys)
    \<or> (\<exists>u. kobject_id (KUnstructured u) = q \<and> u_gvk u = inferenceServiceGVK \<and> idle K u
        \<and> kserveHasActivePods K s (u_namespace u) (u_name u) = Inr False)
      \<and> list_all (\<lambda>k. stored_annotation s' q k = Some ''0'') price_keys"
proof -
  let ?sample = "QueryInstant api (cost_per_hour_query p)"
  note merging = working_merging [OF assms(1)]
  obtain s3 where pods: "tick_pods K api Registry now (ps @ p # qs) s = (None, s3)" and s': "s' = owners_round K onow s3"
    using assms(6,7) by (auto simp: tick_def tick_owners_registry split: prod.splits option.splits)
  obtain s1 s2 where s1: "tick_pods K api Registry now ps s = (None, s1)"
    and s2: "tick_pod K api Registry (now p) p s1 = (None, s2)" and s3: "tick_pods K api Registry now qs s2 = (None, s3)"
    using pods by (auto simp: tick_pods_append split: prod.splits option.splits)
  have "is_stored q s1"
    using tick_pods_keeps [OF patch_stored [OF merging] assms(3), of api Registry now ps] s1 by simp
  then have "decided q ?sample s2"
    using tick_pod_decides [OF assms(1) _ assms(4), of s1 api "now p"] s2 by simp
  from decided_elsewhere [OF merging this assms(5), of api now] s3 have "settled K s q ?sample s3" by (simp add: settled_def)
  moreover have "co_pods s3 = co_pods s" using tick_pods_pods [OF merging, of api Registry now "ps @ p # qs" s] pods by simp
  ultimately have "settled K s q ?sample s'" unfolding s' by (rule owners_round_settles [OF assms(1,2)])
  then show ?thesis
    by (auto simp: settled_def scaled_down_def decided_def holds_def list_all_iff split: sum.splits option.splits)
qed

text \<open>A cluster without a cache: reads answer with what is stored.\<close>

definition stored_now :: "cost_server \<Rightarrow> kobject_id \<Rightarrow> kobject option" where
  "stored_now s q = (case fmlookup (co_objects s) q of None \<Rightarrow> None
     | Some ob \<Rightarrow> if kobject_id ob = q \<and> List.member (co_versions s) ob then Some ob else None)"

definition fresh_kube :: "cost_server kube" where
  "fresh_kube = \<lparr>ka_get_deployment = (\<lambda>s ns n. case stored_now s (deploymentGVK, ns, n) of
        Some (KDeployment r) \<Rightarrow> Inr r | _ \<Rightarrow> Inl ErrNotFound),
     ka_get_statefulset = (\<lambda>s ns n. Inl ErrNotFound),
     ka_get_replicaset = (\<lambda>s ns n. Inr \<lparr>rs_namespace = ns, rs_name = n,
       rs_controller = Some \<lparr>or_kind = ''Deployment'', or_name = ''llm''\<rparr>\<rparr>),
     ka_get_unstructured = (\<lambda>s g ns n. Inl ErrNotFound),
     ka_list_unstructured = (\<lambda>s g ns. Inr []), ka_list_pods = (\<lambda>s. Inr (co_pods s)),
     ka_list_pods_labelled = (\<lambda>s ns k v. Inr []),
     ka_patch = (\<lambda>s orig t. case fmlookup (co_objects s) (kobject_id orig) of None \<Rightarrow> (Inl ''not found'', s)
        | Some cur \<Rightarrow> (Inr (patched_object orig t cur), put_object (patched_object orig t cur) s)),
     NestedInt64 = NestedInt64 demo_kube, NestedString = NestedString demo_kube,
     NestedSlice = NestedSlice demo_kube, NestedMap = NestedMap demo_kube,
     ParseQuantity = ParseQuantity demo_kube, k_oor64 = (\<lambda>_. 0)\<rparr>"

lemma fresh_laws: "cached_reads fresh_kube" "working_patches fresh_kube"
proof -
  have "kobject_id (KDeployment r) = (deploymentGVK, ns, n) \<Longrightarrow> r_namespace r = ns \<and> r_name r = n" for r ns n
    by (simp add: kobject_id_def)
  then show "cached_reads fresh_kube"
    by (auto simp: cached_reads_def fresh_kube_def stored_now_def split: option.splits kobject.splits if_splits)
  show "working_patches fresh_kube"
    by (auto simp: working_patches_def fresh_kube_def split: option.split)
qed

definition demo_pod2 :: pod where
  "demo_pod2 = demo_pod\<lparr>p_name := ''llm-2''\<rparr>"

definition demo_id :: kobject_id where
  "demo_id = (deploymentGVK, ''ml'', ''llm'')"

definition demo_cluster :: cost_server where
  "demo_cluster = put_object demo_target (empty_cluster\<lparr>co_pods := [demo_pod]\<rparr>)"

text \<open>Prometheus has an hourly cost for the first pod only.\<close>

definition one_sample :: prom_api where
  "one_sample q = (if q = cost_per_hour_query demo_pod then Inr (PScalar (f64_of_int 2)) else Inr (PVector []))"

lemma demo_adapter: "choose_adapter Registry demo_pod = Some Generic" "choose_adapter Registry demo_pod2 = Some Generic"
  by (simp_all add: choose_adapter_registry demo_pod2_def demo_pod_def KServe_Detect_def KubeflowTrainer_Detect_def
      RayServe_Detect_def BentoML_Detect_def)

lemma demo_resolves: "resolves_to fresh_kube Registry demo_id demo_pod" "resolves_to fresh_kube Registry demo_id demo_pod2"
proof -
  have res: "ResolveTarget Generic fresh_kube s p = Inr ob"
    if "p = demo_pod \<or> p = demo_pod2" "coherent s" "fmlookup (co_objects s) demo_id = Some ob" for s p ob
  proof -
    have ob: "kobject_id ob = demo_id \<and> well_kinded ob \<and> ob \<in> set (co_versions s)" using coherent_stored that(2,3) by blast
    then have st: "stored_now s demo_id = Some ob" using that(3) by (simp add: stored_now_def)
    obtain r where "ob = KDeployment r"
      using ob by (cases ob) (auto simp: kobject_id_def well_kinded_def demo_id_def deploymentGVK_def statefulSetGVK_def)
    with that(1) st show ?thesis
      by (auto simp: ResolveTarget_def Generic_ResolveTarget_def fresh_kube_def demo_pod2_def demo_pod_def
          demo_id_def eval_nat_numeral)
  qed
  have "0 < GPUCountFromPod demo_pod" "GPUCountFromPod demo_pod2 = GPUCountFromPod demo_pod"
    by (simp_all add: GPUCountFromPod_def gpuOfContainer_def gpuQtyFromList_def gpuResourceName_def demo_pod2_def demo_pod_def
        i64_id in_i64_def)
  with res demo_adapter show "resolves_to fresh_kube Registry demo_id demo_pod" "resolves_to fresh_kube Registry demo_id demo_pod2"
    by (simp_all add: resolves_to_def) (simp_all add: demo_pod2_def demo_pod_def)
qed

lemma sys_demo_queries:
  "QueryInstant one_sample (cost_per_hour_query demo_pod) = Inr (Some (f64_of_int 2))"
  "QueryInstant one_sample (cost_per_hour_query demo_pod2) = Inr None"
  by (simp_all add: QueryInstant_def one_sample_def cost_per_hour_query_def demo_pod2_def demo_pod_def)

lemma one_sample_no_error: "QueryInstant one_sample q \<noteq> Inl err"
  by (simp add: QueryInstant_def one_sample_def)

lemma one_sample_ticks: "fst (tick_pods K one_sample adapters now ps s) = None"
proof -
  have one: "fst (tick_pod K one_sample adapters t p s) = None" for t p s
    using one_sample_no_error
    by (auto simp: tick_pod_def Let_def split: option.split sum.split)
  show ?thesis
  proof (induction ps arbitrary: s)
    case (Cons p ps)
    with one [of "now p" p s] show ?case by (cases "tick_pod K one_sample adapters (now p) p s") simp
  qed simp
qed

lemma demo_stored: "is_stored demo_id demo_cluster" "fmlookup (co_objects demo_cluster) demo_id = Some demo_target"
proof -
  have "coherent (empty_cluster\<lparr>co_pods := [demo_pod]\<rparr>)" by (simp add: coherent_def empty_cluster_def)
  moreover have "well_kinded demo_target" "kobject_id demo_target = demo_id"
    by (simp_all add: demo_target_def well_kinded_def kobject_id_def demo_id_def)
  ultimately show "is_stored demo_id demo_cluster" "fmlookup (co_objects demo_cluster) demo_id = Some demo_target"
    by (simp_all add: is_stored_def demo_cluster_def coherent_put)
qed

text \<open>The outcome depends on the order in which the API server lists the pods.\<close>

definition demo_listing :: "pod list \<Rightarrow> cost_server" where
  "demo_listing ps = demo_cluster\<lparr>co_pods := ps\<rparr>"

lemma demo_listing_stored: "is_stored demo_id (demo_listing ps)"
  using demo_stored(1) by (simp add: demo_listing_def is_stored_def coherent_def)

lemma fresh_owner_lists: "fresh_owners fresh_kube"
  by (simp add: fresh_owners_def fresh_kube_def)

lemma demo_listed_tick:
  obtains s' where "ka_list_pods fresh_kube (demo_listing ps) = Inr ps"
    and "tick fresh_kube one_sample Registry now onow (demo_listing ps) = (None, s')"
proof -
  have l: "ka_list_pods fresh_kube (demo_listing ps) = Inr ps" by (simp add: fresh_kube_def demo_listing_def)
  obtain s' where "tick_pods fresh_kube one_sample Registry now ps (demo_listing ps) = (None, s')"
    using one_sample_ticks [of fresh_kube Registry now ps "demo_listing ps"] by (metis prod.collapse)
  with l show ?thesis by (intro that [OF l]) (simp add: tick_def)
qed

lemma demo_not_owner: "kobject_id (KUnstructured u) = demo_id \<Longrightarrow> u_gvk u \<noteq> inferenceServiceGVK"
  by (auto simp: kobject_id_def demo_id_def deploymentGVK_def inferenceServiceGVK_def)

theorem last_pod_decides_witness:
  "stored_annotation (snd (tick fresh_kube one_sample Registry (\<lambda>_. LastUpdatedAt demo_result) (LastUpdatedAt demo_result)
      (demo_listing [demo_pod2, demo_pod]))) demo_id AnnCostPerHour = Some (formatCost (f64_of_int 2))
   \<and> stored_annotation (snd (tick fresh_kube one_sample Registry (\<lambda>_. LastUpdatedAt demo_result) (LastUpdatedAt demo_result)
      (demo_listing [demo_pod, demo_pod2]))) demo_id AnnCostPerHour = None"
proof -
  let ?now = "\<lambda>_. LastUpdatedAt demo_result" and ?onow = "LastUpdatedAt demo_result"
  obtain s1 where s1: "ka_list_pods fresh_kube (demo_listing [demo_pod2, demo_pod]) = Inr ([demo_pod2] @ demo_pod # [])"
    "tick fresh_kube one_sample Registry ?now ?onow (demo_listing [demo_pod2, demo_pod]) = (None, s1)"
    by (rule demo_listed_tick [of "[demo_pod2, demo_pod]" ?now ?onow]) simp
  obtain s2 where s2: "ka_list_pods fresh_kube (demo_listing [demo_pod, demo_pod2]) = Inr ([demo_pod] @ demo_pod2 # [])"
    "tick fresh_kube one_sample Registry ?now ?onow (demo_listing [demo_pod, demo_pod2]) = (None, s2)"
    by (rule demo_listed_tick [of "[demo_pod, demo_pod2]" ?now ?onow]) simp
  note by_last = last_pod_decides [OF fresh_laws(2) fresh_owner_lists demo_listing_stored]
  from by_last [OF demo_resolves(1) _ s1] by_last [OF demo_resolves(2) _ s2] show ?thesis
    unfolding s1(2) s2(2) using demo_not_owner
    by (auto simp: sys_demo_queries price_keys_def rate_keys_def)
qed

text \<open>A run: a pod, its Deployment and one tick.\<close>

definition demo_ticked :: cost_server where
  "demo_ticked = snd (tick_pod fresh_kube one_sample Registry (LastUpdatedAt demo_result) demo_pod demo_cluster)"

definition demo_history :: "price_event list" where
  "demo_history = pod_read fresh_kube one_sample Registry demo_pod demo_cluster"

lemma demo_run: "cost_run demo_history demo_ticked"
proof -
  have "cost_run [] (empty_cluster\<lparr>co_pods := [demo_pod]\<rparr>)"
    using cost_run.pod_seen [OF cost_run.started, of demo_pod] by (simp add: empty_cluster_def)
  moreover have "well_kinded demo_target" "user_writes (empty_cluster\<lparr>co_pods := [demo_pod]\<rparr>) demo_target = []"
    by (simp_all add: user_writes_def well_kinded_def price_keys_def demo_target_def GetAnnotations_def ann_defs)
  ultimately have "cost_run [] demo_cluster" unfolding demo_cluster_def using cost_run.applied by fastforce
  moreover have "demo_pod \<in> set (co_pods demo_cluster)" by (simp add: demo_cluster_def put_object_def)
  ultimately show ?thesis
    using cost_run.pod_ticked [OF _ fresh_laws(1) working_merging [OF fresh_laws(2)], of "[]" demo_cluster]
    by (simp add: demo_history_def demo_ticked_def)
qed

lemma demo_price: "k \<in> set price_keys \<Longrightarrow> stored_annotation demo_ticked demo_id k = Some (formatCost (f64_of_int 2))"
  and demo_coherent: "coherent demo_ticked"
proof -
  have "fst (tick_pod fresh_kube one_sample Registry (LastUpdatedAt demo_result) demo_pod demo_cluster) = None"
    using one_sample_ticks [of fresh_kube Registry "\<lambda>_. LastUpdatedAt demo_result" "[demo_pod]" demo_cluster]
    by (auto split: prod.splits option.splits)
  from tick_pod_decides [OF fresh_laws(2) demo_stored(1) demo_resolves(1) this]
  have h: "holds demo_id k (Some (formatCost (f64_of_int 2))) demo_ticked" if "k \<in> set price_keys" for k
    using that by (simp add: sys_demo_queries decided_def list_all_iff demo_ticked_def)
  then show "stored_annotation demo_ticked demo_id k = Some (formatCost (f64_of_int 2))" if "k \<in> set price_keys"
    using that by (simp add: holds_def)
  show "coherent demo_ticked" using h [of AnnCostPerHour] by (simp add: holds_def price_keys_def)
qed

lemma demo_version:
  obtains ob where "ob \<in> set (co_versions demo_ticked)" "kobject_id ob = demo_id"
    "fmlookup (GetAnnotations ob) AnnCostPerHour = Some (formatCost (f64_of_int 2))"
  using demo_price [of AnnCostPerHour] coherent_stored [OF demo_coherent, of demo_id]
  by (auto simp: stored_annotation_def bind_eq_Some_conv price_keys_def)

lemma demo_history_pod: "ev \<in> set demo_history \<Longrightarrow> \<exists>t. ev = PodRead one_sample demo_pod t"
  by (auto simp: demo_history_def pod_read_def split: option.splits sum.splits)

theorem costs_come_from_prometheus_witness:
  "\<exists>t x. PodRead one_sample demo_pod t \<in> set demo_history \<and> kobject_id t = demo_id
     \<and> QueryInstant one_sample (cost_per_hour_query demo_pod) = Inr (Some x) \<and> formatCost (f64_of_int 2) = formatCost x"
proof -
  obtain ob where ob: "ob \<in> set (co_versions demo_ticked)" "kobject_id ob = demo_id"
    "fmlookup (GetAnnotations ob) AnnCostPerHour = Some (formatCost (f64_of_int 2))" by (rule demo_version)
  from costs_come_from_prometheus [OF demo_run ob(1) disjI1 [OF refl] ob(3)] ob(2) show ?thesis
    by (auto dest: demo_history_pod)
qed

section \<open>What the cost table shows\<close>

text \<open>The lists the table is made from hold versions of the cluster's objects.\<close>

definition typed_version :: "cost_server \<Rightarrow> gvk \<Rightarrow> typed_workload \<Rightarrow> bool" where
  "typed_version s g d \<longleftrightarrow> list_ex (\<lambda>ob. kobject_id ob = (g, tw_namespace d, tw_name d)
     \<and> GetAnnotations ob = tw_annotations d) (co_versions s)"

definition lists_versions :: "cost_server \<Rightarrow> cost_source \<Rightarrow> bool" where
  "lists_versions s src \<longleftrightarrow> list_all (typed_version s deploymentGVK) (listed (cs_deployments src))
     \<and> list_all (typed_version s statefulSetGVK) (listed (cs_statefulsets src))
     \<and> (case cs_dynamic src of None \<Rightarrow> True
        | Some list_gvr \<Rightarrow> \<forall>g. \<forall>u \<in> set (listed (list_gvr g)). KUnstructured u \<in> set (co_versions s))"

definition row_version :: "cost_server \<Rightarrow> cost_row \<Rightarrow> kobject \<Rightarrow> bool" where
  "row_version s r ob \<longleftrightarrow> ob \<in> set (co_versions s) \<and> snd (kobject_id ob) = (cr_namespace r, cr_name r)
     \<and> cr_costPerHour r = fst (costAnnotationsFromMap (GetAnnotations ob))"

lemma workload_row_fields [simp]:
  "cr_namespace (workload_row ns name kind l a n spec) = ns" "cr_name (workload_row ns name kind l a n spec) = name"
  "cr_costPerHour (workload_row ns name kind l a n spec) = fst (costAnnotationsFromMap a)"
  by (simp_all add: workload_row_def split: prod.splits)

lemma typed_row_version:
  "typed_version s g d \<Longrightarrow> \<exists>ob. row_version s (typed_row kind d) ob"
  by (auto simp: typed_version_def list_ex_iff row_version_def typed_row_def)

lemma qualifying_version:
  assumes "lists_versions s src" and "r \<in> set (qualifying_rows L src)"
  shows "\<exists>ob. row_version s r ob"
proof -
  have un: "\<exists>ob. row_version s r ob"
    if "cs_dynamic src = Some lg" "r \<in> set (unstructured_rows L g (listed (lg g)))" for lg g
    using that assms(1)
    by (force simp: lists_versions_def unstructured_rows_def row_version_def kobject_id_def GetAnnotations_def)
  show ?thesis
    using assms un
    by (auto simp: qualifying_rows_def lists_versions_def deployment_rows_def statefulset_rows_def list_all_iff
        intro: typed_row_version split: option.splits sum.splits)
qed

text \<open>An hourly cost is read from one of the two price annotations.\<close>

lemma read_hourly:
  assumes "fst (costAnnotationsFromMap anns) = Some y"
  obtains k v where "k \<in> set price_keys" "fmlookup anns k = Some v" "ParseFloat (TrimSpace v) = Some y"
proof -
  define k where "k = (if mhas anns AnnCostPerHourPerReplica then AnnCostPerHourPerReplica else AnnCostPerHour)"
  have "read_cost anns k = Some y" using assms by (simp add: costAnnotationsFromMap_def k_def Let_def)
  then have "fmlookup anns k = Some (mget anns k)" "ParseFloat (TrimSpace (mget anns k)) = Some y"
    by (auto simp: read_cost_def lookup_get split: if_splits)
  moreover have "k \<in> set price_keys" by (simp add: k_def price_keys_def)
  ultimately show thesis using that by blast
qed

text \<open>Documented type of Prometheus's samples: every value is a float64.\<close>

definition float_samples :: "price_event list \<Rightarrow> bool" where
  "float_samples h \<longleftrightarrow> (\<forall>api p t x. PodRead api p t \<in> set h
     \<longrightarrow> QueryInstant api (cost_per_hour_query p) = Inr (Some x) \<longrightarrow> f64_ok x)"

lemma annotated_zero: "annotated fzero = fzero"
proof -
  have "scaled 12 0 = 0" using scaled_int [of 12 0] by simp
  moreover have "rnd 0 = 0" using rnd_int [of 0] by simp
  ultimately show ?thesis by (simp add: annotated_def fzero_def)
qed

text \<open>C5 The money shown is the money sampled unless a user wrote it: an hourly cost in a row of the cost table is, to the
  twelve decimals an annotation carries, a sample Prometheus gave for a GPU pod of the row's namespace that resolved to an
  object of the row's name, or zero for an idle InferenceService, or the value of a text that a user applied to an object of
  the row's namespace and name under one of the two hourly keys; whatever interleaving of ticks, users, stale caches and
  failures led to the annotations, and however old the versions the table reads.\<close>

theorem table_shows_sampled_costs:
  assumes "cost_run h s" and "float_samples h" and "lists_versions s src"
    and "range_order order" and "sorts sort_slice" and "CollectCostRows L order sort_slice src = Inr rows"
    and "r \<in> set rows" and "cr_costPerHour r = Some y"
  shows "(\<exists>api p t x. PodRead api p t \<in> set h \<and> snd (kobject_id t) = (cr_namespace r, cr_name r)
        \<and> p_namespace p = cr_namespace r \<and> 0 < GPUCountFromPod p
        \<and> QueryInstant api (cost_per_hour_query p) = Inr (Some x) \<and> y = annotated x)
    \<or> (\<exists>u. IdleRead u \<in> set h \<and> u_namespace u = cr_namespace r \<and> u_name u = cr_name r
        \<and> u_gvk u = inferenceServiceGVK \<and> y = fzero)
    \<or> (\<exists>g k v. (k = AnnCostPerHour \<or> k = AnnCostPerHourPerReplica)
        \<and> UserWrote (g, cr_namespace r, cr_name r) k v \<in> set h \<and> ParseFloat (TrimSpace v) = Some y)"
proof -
  note ok = cost_run_ok [OF assms(1)]
  obtain ob where ob: "ob \<in> set (co_versions s)" "snd (kobject_id ob) = (cr_namespace r, cr_name r)"
      "fst (costAnnotationsFromMap (GetAnnotations ob)) = Some y"
    using qualifying_version [OF assms(3) CollectCostRows_qualify [OF assms(4-7)]] assms(8) by (auto simp: row_version_def)
  obtain k v where v: "k \<in> set price_keys" "fmlookup (GetAnnotations ob) k = Some v" "ParseFloat (TrimSpace v) = Some y"
    using ob(3) by (rule read_hourly)
  have "explained h (kobject_id ob) v" using ok ob(1) v by (simp add: cost_ok_def priced_def)
  then show ?thesis
  proof (unfold explained_def, elim disjE exE conjE bexE, goal_cases)
    case (1 api p t x)
    then have "f64_ok x" using assms(2) by (auto simp: float_samples_def)
    with 1 v(3) read_formatCost have "y = annotated x" by simp
    moreover have "p_namespace p = cr_namespace r"
      using ok 1 ob(2) by (auto simp: cost_ok_def event_ok_def object_namespace_def kobject_id_def split: kobject.splits)
    ultimately show ?case using 1 ob(2) by (intro disjI1 exI [of _ api] exI [of _ p] exI [of _ t] exI [of _ x]) simp
  next
    case (2 u)
    have "y = fzero" using 2 v(3) read_formatCost [of fzero] by (simp add: annotated_zero)
    moreover have "u_gvk u = inferenceServiceGVK" using ok 2 by (auto simp: cost_ok_def event_ok_def)
    moreover have "snd (kobject_id (KUnstructured u)) = (cr_namespace r, cr_name r)" using 2 ob(2) by simp
    then have "u_namespace u = cr_namespace r \<and> u_name u = cr_name r" by (simp add: kobject_id_def)
    ultimately show ?case using 2 by (intro disjI2 disjI1 exI [of _ u]) simp
  next
    case (3 k)
    then show ?case
      using v(3) ob(2) by (intro disjI2 exI [of _ "fst (kobject_id ob)"] exI [of _ k] exI [of _ v])
        (cases "kobject_id ob", simp add: price_keys_def)
  qed
qed

definition demo_listed :: typed_workload where
  "demo_listed = demo_workload\<lparr>tw_annotations := GetAnnotations (the (fmlookup (co_objects demo_ticked) demo_id))\<rparr>"

definition demo_ticked_source :: cost_source where
  "demo_ticked_source = demo_source\<lparr>cs_deployments := Inr [demo_listed]\<rparr>"

lemma demo_ticked_collect:
  "CollectCostRows std_lib key_order stable_sort demo_ticked_source = Inr [typed_row ''Deployment'' demo_listed]"
proof -
  have inc: "deployment_rows [demo_listed] = [typed_row ''Deployment'' demo_listed]"
    by (simp add: deployment_rows_def demo_listed_def demo_workload_def isKServeChildDeployment_def isBentoChildDeployment_def
        shouldIncludeWorkload_def podSpecRequestsGPU_def gpusPerPod_def gpuQty_def demo_pod_def i64_id in_i64_def)
  show ?thesis
    by (simp add: CollectCostRows_def demo_ticked_source_def demo_source_def discoverCRDs_def collectDeployments_rows
        collectStatefulSets_rows statefulset_rows_def inc put_first_def key_order_def stable_sort_def)
qed

lemma demo_listed_hourly: "cr_costPerHour (typed_row ''Deployment'' demo_listed) = Some (annotated (f64_of_int 2))"
proof -
  let ?a = "tw_annotations demo_listed"
  have "fmlookup ?a k = Some (formatCost (f64_of_int 2))" if "k \<in> set price_keys" for k
    using demo_price [OF that] by (auto simp: stored_annotation_def bind_eq_Some_conv demo_listed_def)
  then have "mhas ?a AnnCostPerHourPerReplica" "mget ?a AnnCostPerHourPerReplica = formatCost (f64_of_int 2)"
    by (simp_all add: mhas_def mget_def price_keys_def)
  moreover have "TrimSpace (formatCost (f64_of_int 2)) \<noteq> '''' \<and>
      ParseFloat (TrimSpace (formatCost (f64_of_int 2))) = Some (annotated (f64_of_int 2))"
    by (rule read_formatCost) simp
  ultimately show ?thesis
    by (simp add: typed_row_def costAnnotationsFromMap_def read_cost_def)
qed

lemma demo_float: "float_samples demo_history"
  unfolding float_samples_def by (auto dest!: demo_history_pod simp: sys_demo_queries)

lemma demo_lists: "lists_versions demo_ticked demo_ticked_source"
proof -
  obtain ob where ob: "fmlookup (co_objects demo_ticked) demo_id = Some ob"
    using demo_price [of AnnCostPerHour] by (auto simp: stored_annotation_def bind_eq_Some_conv price_keys_def)
  with coherent_stored [OF demo_coherent ob] show ?thesis
    by (auto simp: lists_versions_def demo_ticked_source_def demo_source_def listed_def typed_version_def list_ex_iff
        demo_listed_def demo_workload_def demo_id_def)
qed

lemma demo_history_elems:
  "PodRead api p t \<in> set demo_history \<Longrightarrow> api = one_sample \<and> p = demo_pod" "IdleRead u \<notin> set demo_history"
  "UserWrote q k v \<notin> set demo_history"
  using demo_history_pod by blast+

theorem table_shows_sampled_costs_witness:
  "\<exists>t x. PodRead one_sample demo_pod t \<in> set demo_history \<and> snd (kobject_id t) = (''ml'', ''llm'')
     \<and> QueryInstant one_sample (cost_per_hour_query demo_pod) = Inr (Some x)
     \<and> cr_costPerHour (typed_row ''Deployment'' demo_listed) = Some (annotated x)"
proof -
  have in_row: "typed_row ''Deployment'' demo_listed \<in> set [typed_row ''Deployment'' demo_listed]" by simp
  have row: "cr_namespace (typed_row ''Deployment'' demo_listed) = ''ml''" "cr_name (typed_row ''Deployment'' demo_listed) = ''llm''"
    by (simp_all add: typed_row_def demo_listed_def demo_workload_def)
  from table_shows_sampled_costs [OF demo_run demo_float demo_lists demo_orders demo_ticked_collect in_row demo_listed_hourly]
  obtain api p t x where "PodRead api p t \<in> set demo_history" "snd (kobject_id t) = (''ml'', ''llm'')"
    "QueryInstant api (cost_per_hour_query p) = Inr (Some x)" "annotated (f64_of_int 2) = annotated x"
    unfolding row using demo_history_elems(2,3) by blast
  with demo_history_elems(1) show ?thesis
    by (intro exI [of _ t] exI [of _ x]) (auto simp: demo_listed_hourly)
qed

end
