(* ===== verification/PatcherProcess.thy ===== *)
theory PatcherProcess
  imports Startup
begin

text \<open>
  The cost patcher as a running process, \<^verbatim>\<open>app.go\<close>: the three goroutines of its error group, the cancellation of their
  context and the end of the process.

  \<open>app_step\<close> is one step of any goroutine, of the signal handler or of an HTTP client. Each goroutine does its rounds in
  any order with the others; a select with both its channels ready takes either, so a loop may do more rounds after the
  context is cancelled. \<open>Startup\<close> describes a run as the function \<open>app_Run\<close>; the refinement relates the two. Documented
  behaviour of the libraries: the first goroutine of the group that returns an error cancels the context, and \<^verbatim>\<open>Wait\<close>
  returns that error once all have returned; \<^verbatim>\<open>ListenAndServe\<close> returns at once when \<^verbatim>\<open>Shutdown\<close> is called, while
  requests are still being answered.
\<close>

section \<open>The process\<close>

datatype loop_state = Starting | Looping | Ended

record 'c process =
  pr_state :: "collector \<times> 'c"
  pr_events :: "patcher_event list"
  pr_refresher :: loop_state
  pr_reconciler :: loop_state
  pr_server :: "serve_result option"
  pr_inflight :: nat
  pr_cancelled :: bool
  pr_error :: "run_failure option"
  pr_end :: "app_end option"

definition app_started :: "'c \<Rightarrow> 'c process" where
  "app_started c = \<lparr>pr_state = (NewGaugeCollector, c), pr_events = [], pr_refresher = Starting, pr_reconciler = Starting,
     pr_server = None, pr_inflight = 0, pr_cancelled = False, pr_error = None, pr_end = None\<rparr>"

text \<open>One round of a loop.\<close>

definition round_done :: "rng \<Rightarrow> 'c kube \<Rightarrow> patcher_event \<Rightarrow> 'c process \<Rightarrow> 'c process" where
  "round_done rng K ev p = p\<lparr>pr_state := patcher_step rng K Registry ev (pr_state p), pr_events := pr_events p @ [ev]\<rparr>"

text \<open>The server goroutine returns: an error is the group's if it is the first, and cancels the context.\<close>

definition server_returns :: "serve_result \<Rightarrow> 'c process \<Rightarrow> 'c process" where
  "server_returns served p = (case runHTTPServer served of
     None \<Rightarrow> p\<lparr>pr_server := Some served\<rparr>
   | Some err \<Rightarrow> p\<lparr>pr_server := Some served, pr_cancelled := True,
       pr_error := (if pr_error p = None then Some err else pr_error p)\<rparr>)"

text \<open>What \<^verbatim>\<open>Run\<close> makes of the group's error.\<close>

definition group_result :: "run_failure option \<Rightarrow> run_failure option" where
  "group_result err = (case err of Some (Failed e) \<Rightarrow> Some (Failed e) | _ \<Rightarrow> None)"

inductive app_step :: "rng \<Rightarrow> 'c kube \<Rightarrow> config \<Rightarrow> 'c process \<Rightarrow> 'c process \<Rightarrow> bool"
  for rng :: rng and K :: "'c kube" and cfg :: config where
  refresher_panics: "pr_end p = None \<Longrightarrow> pr_refresher p = Starting \<Longrightarrow> NewTicker (PricingPollInterval cfg) = Some msg
    \<Longrightarrow> app_step rng K cfg p (p\<lparr>pr_end := Some (Crashed msg)\<rparr>)"
| refresher_round: "pr_end p = None \<Longrightarrow> pr_refresher p \<noteq> Ended \<Longrightarrow> NewTicker (PricingPollInterval cfg) = None
    \<Longrightarrow> app_step rng K cfg p (round_done rng K (Refreshed answers) (p\<lparr>pr_refresher := Looping\<rparr>))"
| refresher_ends: "pr_end p = None \<Longrightarrow> pr_refresher p = Looping \<Longrightarrow> pr_cancelled p
    \<Longrightarrow> app_step rng K cfg p (p\<lparr>pr_refresher := Ended\<rparr>)"
| reconciler_panics: "pr_end p = None \<Longrightarrow> pr_reconciler p = Starting \<Longrightarrow> NewTicker (ReconcileInterval cfg) = Some msg
    \<Longrightarrow> app_step rng K cfg p (p\<lparr>pr_end := Some (Crashed msg)\<rparr>)"
| reconciler_round: "pr_end p = None \<Longrightarrow> pr_reconciler p \<noteq> Ended \<Longrightarrow> NewTicker (ReconcileInterval cfg) = None
    \<Longrightarrow> app_step rng K cfg p (round_done rng K (Ticked i) (p\<lparr>pr_reconciler := Looping\<rparr>))"
| reconciler_ends: "pr_end p = None \<Longrightarrow> pr_reconciler p = Looping \<Longrightarrow> pr_cancelled p
    \<Longrightarrow> app_step rng K cfg p (p\<lparr>pr_reconciler := Ended\<rparr>)"
| signalled: "pr_end p = None \<Longrightarrow> app_step rng K cfg p (p\<lparr>pr_cancelled := True\<rparr>)"
| request: "pr_end p = None \<Longrightarrow> pr_server p = None \<Longrightarrow> app_step rng K cfg p (p\<lparr>pr_inflight := Suc (pr_inflight p)\<rparr>)"
| answered: "pr_end p = None \<Longrightarrow> pr_inflight p = Suc n \<Longrightarrow> app_step rng K cfg p (p\<lparr>pr_inflight := n\<rparr>)"
| serve_failed: "pr_end p = None \<Longrightarrow> pr_server p = None
    \<Longrightarrow> app_step rng K cfg p (server_returns (ServeError err) p)"
| shut_down: "pr_end p = None \<Longrightarrow> pr_server p = None \<Longrightarrow> pr_cancelled p
    \<Longrightarrow> app_step rng K cfg p (server_returns ServerClosed p)"
| returned: "pr_end p = None \<Longrightarrow> pr_refresher p = Ended \<Longrightarrow> pr_reconciler p = Ended \<Longrightarrow> pr_server p = Some served
    \<Longrightarrow> app_step rng K cfg p (p\<lparr>pr_end := Some (Returned (group_result (pr_error p)))\<rparr>)"

abbreviation app_steps :: "rng \<Rightarrow> 'c kube \<Rightarrow> config \<Rightarrow> 'c process \<Rightarrow> 'c process \<Rightarrow> bool" where
  "app_steps rng K cfg \<equiv> (app_step rng K cfg)\<^sup>*\<^sup>*"

section \<open>What every reachable process satisfies\<close>

definition begun :: "config \<Rightarrow> 'c process \<Rightarrow> bool" where
  "begun cfg p \<longleftrightarrow> (pr_refresher p \<noteq> Starting \<longrightarrow> NewTicker (PricingPollInterval cfg) = None \<and> refreshes (pr_events p) \<noteq> [])
     \<and> (pr_reconciler p \<noteq> Starting \<longrightarrow> NewTicker (ReconcileInterval cfg) = None \<and> ticks (pr_events p) \<noteq> [])"

definition ended_well :: "config \<Rightarrow> 'c process \<Rightarrow> bool" where
  "ended_well cfg p \<longleftrightarrow> (case pr_end p of None \<Rightarrow> True
     | Some (Crashed msg) \<Rightarrow> NewTicker (PricingPollInterval cfg) = Some msg \<or> NewTicker (ReconcileInterval cfg) = Some msg
     | Some (Returned r) \<Rightarrow> r = group_result (pr_error p) \<and> pr_refresher p = Ended \<and> pr_reconciler p = Ended
         \<and> pr_server p \<noteq> None)"

definition process_ok :: "rng \<Rightarrow> 'c kube \<Rightarrow> config \<Rightarrow> 'c \<Rightarrow> 'c process \<Rightarrow> bool" where
  "process_ok rng K cfg c p \<longleftrightarrow> begun cfg p \<and> ended_well cfg p
     \<and> pr_state p = fold (patcher_step rng K Registry) (pr_events p) (NewGaugeCollector, c)
     \<and> pr_error p = (case pr_server p of None \<Rightarrow> None | Some served \<Rightarrow> runHTTPServer served)
     \<and> (pr_server p \<noteq> None \<or> pr_refresher p = Ended \<or> pr_reconciler p = Ended \<longrightarrow> pr_cancelled p)"

lemma refreshes_append [simp]: "refreshes (evs @ evs') = refreshes evs @ refreshes evs'"
  and ticks_append [simp]: "ticks (evs @ evs') = ticks evs @ ticks evs'"
  unfolding refreshes_def ticks_def List.map_filter_def by simp_all

lemma events_one [simp]:
  "refreshes [Refreshed a] = [a]" "refreshes [Ticked i] = []" "ticks [Refreshed a] = []" "ticks [Ticked i] = [i]"
  by (simp_all add: refreshes_def ticks_def map_filter_def)

lemma app_step_ok:
  assumes "app_step rng K cfg p p'" and "process_ok rng K cfg c p"
  shows "process_ok rng K cfg c p'"
  using assms
proof (induction rule: app_step.induct)
  case (refresher_round p answers)
  then show ?case by (simp add: process_ok_def begun_def ended_well_def round_done_def)
next
  case (reconciler_round p i)
  then show ?case by (simp add: process_ok_def begun_def ended_well_def round_done_def)
next
  case (serve_failed p err)
  then show ?case by (auto simp: process_ok_def begun_def ended_well_def server_returns_def runHTTPServer_def)
next
  case (shut_down p)
  then show ?case by (auto simp: process_ok_def begun_def ended_well_def server_returns_def runHTTPServer_def)
qed (auto simp: process_ok_def begun_def ended_well_def)

lemma app_steps_ok:
  assumes "app_steps rng K cfg (app_started c) p"
  shows "process_ok rng K cfg c p"
  using assms
proof (induction rule: rtranclp_induct)
  case base
  show ?case by (simp add: process_ok_def begun_def ended_well_def app_started_def)
next
  case (step p p')
  then show ?case by (blast intro: app_step_ok)
qed

text \<open>C20 However the goroutines interleave, a run of the process ends as the function \<open>app_Run\<close> says: with the crash of an
  interval that is not positive, the error of the server, or none; it has done what its two loops do each alone, each
  at least once when it did not crash, and it only returns once its context is cancelled.\<close>

theorem process_refines_app_Run:
  assumes "app_steps rng K cfg (app_started c) p" and "pr_end p = Some e" and "NewClient api_client (PrometheusURL cfg) = None"
  shows "\<exists>served. e = app_Run None api_client served cfg
    \<and> (case e of Crashed _ \<Rightarrow> True | Returned _ \<Rightarrow> pr_server p = Some served \<and> pr_cancelled p
        \<and> refreshes (pr_events p) \<noteq> [] \<and> ticks (pr_events p) \<noteq> [])
    \<and> pr_state p = (run_refreshes rng (refreshes (pr_events p)) NewGaugeCollector,
        run_ticks K Registry (ticks (pr_events p)) c)"
proof -
  note ok = app_steps_ok [OF assms(1), unfolded process_ok_def]
  have st: "pr_state p = (run_refreshes rng (refreshes (pr_events p)) NewGaugeCollector,
      run_ticks K Registry (ticks (pr_events p)) c)"
    using ok by (simp add: patcher_loops_independent)
  show ?thesis
  proof (cases e)
    case (Crashed msg)
    then have "e = app_Run None api_client ServerClosed cfg"
      using ok assms(2,3) by (auto simp: ended_well_def app_Run_def NewTicker_def split: if_splits)
    with Crashed st show ?thesis by (intro exI [of _ ServerClosed]) simp
  next
    case (Returned r)
    then obtain served where s: "pr_server p = Some served" "r = group_result (runHTTPServer served)"
      using ok assms(2) by (auto simp: ended_well_def)
    have t: "NewTicker (PricingPollInterval cfg) = None" "NewTicker (ReconcileInterval cfg) = None"
      "refreshes (pr_events p) \<noteq> []" "ticks (pr_events p) \<noteq> []"
      using ok assms(2) Returned by (auto simp: ended_well_def begun_def)
    then have "e = app_Run None api_client served cfg"
      using Returned s(2) assms(3)
      by (simp add: app_Run_def group_result_def runHTTPServer_def split: serve_result.split)
    with st s(1) t Returned ok show ?thesis by (intro exI [of _ served]) simp
  qed
qed

section \<open>How the process ends\<close>

text \<open>Once the context is cancelled, each goroutine can return, the loops after their first round.\<close>

definition can_reach :: "rng \<Rightarrow> 'c kube \<Rightarrow> config \<Rightarrow> 'c process \<Rightarrow> ('c process \<Rightarrow> bool) \<Rightarrow> bool" where
  "can_reach rng K cfg p Q \<longleftrightarrow> (\<exists>p'. app_steps rng K cfg p p' \<and> Q p')"

lemma can_reach_here: "Q p \<Longrightarrow> can_reach rng K cfg p Q"
  by (auto simp: can_reach_def)

lemma can_reach_step: "app_step rng K cfg p p' \<Longrightarrow> can_reach rng K cfg p' Q \<Longrightarrow> can_reach rng K cfg p Q"
  by (auto simp: can_reach_def intro: converse_rtranclp_into_rtranclp)

lemma can_reach_one: "app_step rng K cfg p p' \<Longrightarrow> Q p' \<Longrightarrow> can_reach rng K cfg p Q"
  by (blast intro: can_reach_step can_reach_here)

lemma can_reach_trans:
  assumes "can_reach rng K cfg p Q" and "\<And>p'. Q p' \<Longrightarrow> can_reach rng K cfg p' R"
  shows "can_reach rng K cfg p R"
  using assms unfolding can_reach_def by (meson rtranclp_trans)

text \<open>What the goroutines' returning leaves as it is.\<close>

definition on_the_way :: "'c process \<Rightarrow> nat \<Rightarrow> 'c process \<Rightarrow> bool" where
  "on_the_way p n p' \<longleftrightarrow> pr_end p' = None \<and> pr_cancelled p' \<and> pr_error p' = pr_error p \<and> pr_inflight p' = pr_inflight p
     \<and> length (pr_events p') \<le> length (pr_events p) + n"

lemma refresher_can_end:
  assumes "on_the_way p0 n p" and "NewTicker (PricingPollInterval cfg) = None"
  shows "can_reach rng K cfg p (\<lambda>p'. on_the_way p0 (Suc n) p' \<and> pr_refresher p' = Ended \<and> pr_reconciler p' = pr_reconciler p)"
proof (cases "pr_refresher p")
  case Starting
  show ?thesis
  proof (rule can_reach_step [OF app_step.refresher_round [where answers = undefined]])
    let ?p = "round_done rng K (Refreshed undefined) (p\<lparr>pr_refresher := Looping\<rparr>)"
    show "can_reach rng K cfg ?p (\<lambda>p'. on_the_way p0 (Suc n) p' \<and> pr_refresher p' = Ended \<and> pr_reconciler p' = pr_reconciler p)"
      by (rule can_reach_one [OF app_step.refresher_ends])
        (use assms(1) in \<open>auto simp: on_the_way_def round_done_def\<close>)
  qed (use assms Starting in \<open>auto simp: on_the_way_def\<close>)
next
  case Looping
  show ?thesis
    by (rule can_reach_one [OF app_step.refresher_ends])
      (use assms(1) Looping in \<open>auto simp: on_the_way_def\<close>)
next
  case Ended
  with assms(1) show ?thesis by (intro can_reach_here) (auto simp: on_the_way_def)
qed

lemma reconciler_can_end:
  assumes "on_the_way p0 n p" and "NewTicker (ReconcileInterval cfg) = None"
  shows "can_reach rng K cfg p (\<lambda>p'. on_the_way p0 (Suc n) p' \<and> pr_reconciler p' = Ended \<and> pr_refresher p' = pr_refresher p)"
proof (cases "pr_reconciler p")
  case Starting
  show ?thesis
  proof (rule can_reach_step [OF app_step.reconciler_round [where i = undefined]])
    let ?p = "round_done rng K (Ticked undefined) (p\<lparr>pr_reconciler := Looping\<rparr>)"
    show "can_reach rng K cfg ?p (\<lambda>p'. on_the_way p0 (Suc n) p' \<and> pr_reconciler p' = Ended \<and> pr_refresher p' = pr_refresher p)"
      by (rule can_reach_one [OF app_step.reconciler_ends])
        (use assms(1) in \<open>auto simp: on_the_way_def round_done_def\<close>)
  qed (use assms Starting in \<open>auto simp: on_the_way_def\<close>)
next
  case Looping
  show ?thesis
    by (rule can_reach_one [OF app_step.reconciler_ends])
      (use assms(1) Looping in \<open>auto simp: on_the_way_def\<close>)
next
  case Ended
  with assms(1) show ?thesis by (intro can_reach_here) (auto simp: on_the_way_def)
qed

lemma server_can_end:
  assumes "on_the_way p0 n p"
  shows "can_reach rng K cfg p (\<lambda>p'. on_the_way p0 n p' \<and> pr_server p' \<noteq> None
    \<and> pr_refresher p' = pr_refresher p \<and> pr_reconciler p' = pr_reconciler p)"
proof (cases "pr_server p")
  case None
  show ?thesis
    by (rule can_reach_one [OF app_step.shut_down])
      (use assms None in \<open>auto simp: on_the_way_def server_returns_def runHTTPServer_def\<close>)
next
  case (Some served)
  with assms show ?thesis by (intro can_reach_here) auto
qed

text \<open>The process can return without any of its requests in flight being answered.\<close>

lemma cancelled_can_end:
  assumes "pr_end p = None" and "pr_cancelled p"
    and "NewTicker (PricingPollInterval cfg) = None" and "NewTicker (ReconcileInterval cfg) = None"
  shows "can_reach rng K cfg p (\<lambda>p'. pr_end p' = Some (Returned (group_result (pr_error p))) \<and> pr_inflight p' = pr_inflight p
    \<and> length (pr_events p') \<le> length (pr_events p) + 2)"
  (is "can_reach _ _ _ _ ?Q")
proof -
  have "on_the_way p 0 p" using assms by (simp add: on_the_way_def)
  from refresher_can_end [OF this assms(3), of rng K] show ?thesis
  proof (rule can_reach_trans, elim conjE)
    fix p1 assume p1: "on_the_way p (Suc 0) p1" "pr_refresher p1 = Ended"
    from reconciler_can_end [OF p1(1) assms(4), of rng K] show "can_reach rng K cfg p1 ?Q"
    proof (rule can_reach_trans, elim conjE)
      fix p2 assume p2: "on_the_way p (Suc (Suc 0)) p2" "pr_reconciler p2 = Ended" "pr_refresher p2 = pr_refresher p1"
      from server_can_end [OF p2(1), of rng K cfg] show "can_reach rng K cfg p2 ?Q"
      proof (rule can_reach_trans, elim conjE)
        fix p3 assume p3: "on_the_way p (Suc (Suc 0)) p3" "pr_server p3 \<noteq> None" "pr_refresher p3 = pr_refresher p2"
          "pr_reconciler p3 = pr_reconciler p2"
        then obtain served where "pr_server p3 = Some served" by blast
        with p1(2) p2(2,3) p3 have "app_step rng K cfg p3 (p3\<lparr>pr_end := Some (Returned (group_result (pr_error p3)))\<rparr>)"
          by (intro app_step.returned) (simp_all add: on_the_way_def)
        then show "can_reach rng K cfg p3 ?Q"
          by (rule can_reach_one) (use p3(1) in \<open>simp add: on_the_way_def\<close>)
      qed
    qed
  qed
qed

section \<open>Examples\<close>

definition demo_config :: config where
  "demo_config = \<lparr>PrometheusURL = ''http://localhost:9090'', PricingNamespace = ''kubefisher-system'',
     PricingConfigMap = ''gpu-pricing'', PricingDataKey = ''pricing.yaml'', ReconcileInterval = 30 * ns_per_sec,
     PricingPollInterval = 60 * ns_per_sec, HTTPAddr = '':8080'', LogFormat = ''''\<rparr>"

lemma demo_tickers:
  "NewTicker (PricingPollInterval demo_config) = None" "NewTicker (ReconcileInterval demo_config) = None"
  "NewClient (\<lambda>_. None) (PrometheusURL demo_config) = None"
  by (simp_all add: demo_config_def NewTicker_def NewClient_def ns_per_sec_def)

text \<open>A process that has accepted some requests when the signal comes.\<close>

definition accepted :: "nat \<Rightarrow> 'c \<Rightarrow> 'c process" where
  "accepted n c = (app_started c)\<lparr>pr_inflight := n\<rparr>"

lemma accepted_steps: "app_steps rng K cfg (app_started c) (accepted n c)"
proof (induction n)
  case 0
  show ?case by (simp add: accepted_def app_started_def)
next
  case (Suc n)
  have "app_step rng K cfg (accepted n c) ((accepted n c)\<lparr>pr_inflight := Suc (pr_inflight (accepted n c))\<rparr>)"
    by (rule app_step.request) (simp_all add: accepted_def app_started_def)
  with Suc show ?case by (simp add: accepted_def rtranclp.rtrancl_into_rtrancl)
qed

lemma ended_with_requests:
  assumes "NewTicker (PricingPollInterval cfg) = None" and "NewTicker (ReconcileInterval cfg) = None"
  obtains p where "app_steps rng K cfg (app_started c) p" "pr_end p = Some (Returned None)" "pr_inflight p = n"
proof -
  let ?p = "(accepted n c)\<lparr>pr_cancelled := True\<rparr>"
  have "app_step rng K cfg (accepted n c) ?p" by (rule app_step.signalled) (simp add: accepted_def app_started_def)
  then have s: "app_steps rng K cfg (app_started c) ?p"
    by (rule rtranclp.rtrancl_into_rtrancl [OF accepted_steps])
  have "can_reach rng K cfg ?p (\<lambda>p'. pr_end p' = Some (Returned (group_result (pr_error ?p))) \<and> pr_inflight p' = pr_inflight ?p
      \<and> length (pr_events p') \<le> length (pr_events ?p) + 2)"
    by (rule cancelled_can_end [OF _ _ assms]) (simp_all add: accepted_def app_started_def)
  then obtain p where p: "app_steps rng K cfg ?p p" "pr_end p = Some (Returned None)" "pr_inflight p = n"
    by (auto simp: can_reach_def accepted_def app_started_def group_result_def)
  show thesis by (rule that [OF rtranclp_trans [OF s p(1)] p(2,3)])
qed

theorem process_refines_app_Run_witness:
  "\<exists>(p :: kobject process) served. pr_end p = Some (Returned None)
     \<and> app_Run None (\<lambda>_. None) served demo_config = Returned None \<and> pr_server p = Some served \<and> ticks (pr_events p) \<noteq> []"
proof -
  obtain p where p: "app_steps sorted_list_of_fset one_kube demo_config (app_started demo_target) p"
    "pr_end p = Some (Returned None)" "pr_inflight p = 0"
    by (rule ended_with_requests [OF demo_tickers(1,2)])
  from process_refines_app_Run [OF p(1,2) demo_tickers(3)] p(2) show ?thesis by auto
qed

text \<open>C36 A shutdown may drop requests: whatever the number of requests being answered when the signal comes, the process
  can return, without an error, with all of them unanswered. \<^verbatim>\<open>ListenAndServe\<close> returns as soon as \<^verbatim>\<open>Shutdown\<close> is called,
  and nothing waits for the goroutine that gives the requests ten seconds.\<close>

theorem shutdown_drops_requests:
  assumes "0 < PricingPollInterval cfg" and "0 < ReconcileInterval cfg"
  shows "\<exists>p. app_steps rng K cfg (app_started c) p \<and> pr_end p = Some (Returned None) \<and> pr_inflight p = n"
proof -
  have "NewTicker (PricingPollInterval cfg) = None" "NewTicker (ReconcileInterval cfg) = None"
    using assms by (simp_all add: NewTicker_def)
  then obtain p where "app_steps rng K cfg (app_started c) p" "pr_end p = Some (Returned None)" "pr_inflight p = n"
    by (rule ended_with_requests)
  then show ?thesis by blast
qed

theorem shutdown_drops_requests_witness:
  "\<exists>p. app_steps sorted_list_of_fset one_kube demo_config (app_started demo_target) p
     \<and> pr_end p = Some (Returned None) \<and> pr_inflight p = 3"
  by (rule shutdown_drops_requests) (simp_all add: demo_config_def ns_per_sec_def)

end
