(* ===== verification/Spec2Isabelle.thy ===== *)
theory Spec2Isabelle
  imports FloatText GoTime QuotaPhase Promclient QuotaReconciler Webhook MergePatch Pricing Patch Adapters
    CostReconcile CostTable Deploy Unstructured CostCollect Workload DeployRun
    QuotaCommand Install Commands QuotaSystem QuotaEndToEnd Startup CommandTree DeepCopy
    AdapterSuite TestUtils CostSystem PatcherProcess
begin

text \<open>
  KubeFisher: GPU cost accounting and budget enforcement on Kubernetes. Two processes and a command
  line work on one cluster.

  \<^item> The quota operator (\<^verbatim>\<open>operator/\<close>) reads token and cost usage of a namespace from Prometheus,
    writes the status of each \<^verbatim>\<open>TeamInferenceQuota\<close>, sends events and exports gauges. Its admission
    webhook reads that status and denies GPU pods of a namespace whose quota is exceeded.
  \<^item> The cost patcher (\<^verbatim>\<open>internal/costpatcher\<close>) exports GPU list prices, from which recording rules
    derive costs per pod, and writes those costs as annotations on the workload that owns the pod.
  \<^item> The command line (\<^verbatim>\<open>internal/cli\<close>, \<^verbatim>\<open>internal/cost\<close>, \<^verbatim>\<open>internal/deploy\<close>, \<^verbatim>\<open>internal/workload\<close>,
    \<^verbatim>\<open>internal/install\<close>) shows those annotations, deploys models and installs the parts.

  \<^bold>\<open>Theories and the code they model.\<close>

  \<^item> \<open>Prelude\<close>: Go's fixed-width integers, string-keyed maps (\<open>smap\<close>; reading an absent key gives the
    empty string), the functions of \<^verbatim>\<open>strings\<close> in use, decimal numerals, digit groups.
  \<^item> \<open>Float64\<close>, \<open>FloatText\<close>: IEEE-754 binary64 as exact rationals with rounding to nearest even
    (locales \<open>rounding\<close> and \<open>sharp_rounding\<close>, interpreted as \<open>f64r\<close> on the rounding function), printing
    with a fixed number of decimals, and \<^verbatim>\<open>strconv.ParseFloat\<close>.
  \<^item> \<open>GoTime\<close>: UTC calendar instants, RFC 3339 printing and parsing, saturating durations.
  \<^item> \<open>QuotaPhase\<close>: the types of \<^verbatim>\<open>api/v1alpha1\<close> and \<^verbatim>\<open>controller/phase.go\<close>.
  \<^item> \<open>Promclient\<close>: \<^verbatim>\<open>pkg/promclient\<close>, shared by both processes.
  \<^item> \<open>QuotaReconciler\<close>: \<^verbatim>\<open>teaminferencequota_controller.go\<close> and \<^verbatim>\<open>metrics.go\<close>. \<open>evaluate\<close> is the part of
    \<^verbatim>\<open>Reconcile\<close> between the read and the events, \<open>emit_events\<close> the events, \<open>finish\<close> the status patch,
    gauges and requeue that end every path. \<open>world\<close> is the cluster, the events sent and the gauges;
    \<open>tiq_step\<close> is one reconcile under some environment.
  \<^item> \<open>DeepCopy\<close>: \<^verbatim>\<open>zz_generated.deepcopy.go\<close> over a store of pointers, slices and arrays, and the abstraction
    \<open>quota_of\<close> to the quotas of the other theories, which are values.
  \<^item> \<open>Webhook\<close>: \<^verbatim>\<open>operator/internal/webhook/pod_webhook.go\<close>.
  \<^item> \<open>Kube\<close>: the fields of Kubernetes objects that the program reads, and unstructured values.
  \<^item> \<open>Pricing\<close>: \<^verbatim>\<open>internal/costpatcher/pricing\<close> and the refresh of \<^verbatim>\<open>app.go\<close>. The exchange sort meets
    the locale \<open>string_sorter\<close>, on which the facts about label names rest.
  \<^item> \<open>Patch\<close>: the annotation keys of \<^verbatim>\<open>costpatcher/contract\<close> and \<^verbatim>\<open>platform/patch.go\<close>.
  \<^item> \<open>Adapters\<close>: the five platform adapters, \<^verbatim>\<open>gpu.go\<close> and the registry. The locale \<open>cost_adapter\<close>
    states what the reconcile loop relies on, interpreted for each adapter.
  \<^item> \<open>AdapterSuite\<close>: the contract tests of the adapters, \<^verbatim>\<open>internal/adapters/testharness\<close>, as a function
    to the outcome of each check, and the life of a test environment (\<open>runEnvtest\<close>).
  \<^item> \<open>CostReconcile\<close>: \<^verbatim>\<open>costpatcher/reconcile.go\<close>; \<open>run_ticks\<close> is a run as a sequence of ticks.
  \<^item> \<open>Startup\<close>: both processes' \<^verbatim>\<open>main\<close> and flags, the rest of \<^verbatim>\<open>app.go\<close> (\<open>patcher_step\<close> interleaves its
    loops), \<^verbatim>\<open>internal/kubeclient\<close>, \<^verbatim>\<open>kubeclient.go\<close>, \<^verbatim>\<open>install_cmd.go\<close>, and \<^verbatim>\<open>time.ParseDuration\<close>.
  \<^item> \<open>PatcherProcess\<close>: the cost patcher as a running process: \<open>app_step\<close> is a step of one of its goroutines, of the
    signal handler or of an HTTP client, \<open>process\<close> the state they share. \<open>app_Run\<close> of \<open>Startup\<close> is its abstraction.
  \<^item> \<open>CostSystem\<close>: the cost patcher, users and the cost table on one API server that keeps all versions of its objects;
    \<open>cost_run\<close> is a run of them with the history of the pods and owners the patcher looked at and of the hourly costs
    users wrote themselves.
  \<^item> \<open>MergePatch\<close>: what the client library and the API server make of the patch \<^verbatim>\<open>patchStatus\<close> sends, a JSON merge patch,
    on encoded and on typed statuses.
  \<^item> \<open>QuotaSystem\<close>: controller, users and webhook on one API server that keeps all versions of a quota, because the
    operator reads through a cache; \<open>quota_run\<close> is a run of them with the history of the reconciles that found their
    object, \<open>watch_loop\<close> the reconciles that one quota's own patches start (\<^verbatim>\<open>SetupWithManager\<close>).
  \<^item> \<open>QuotaEndToEnd\<close>: the defaults and validation of the CRD, and \<^verbatim>\<open>quota set\<close> on that server.
  \<^item> \<open>CommandTree\<close>: \<^verbatim>\<open>root.go\<close> and the constructors of the commands: the tree, its flags and what a command line starts.
  \<^item> \<open>TestUtils\<close>: the helpers of the operator's end-to-end tests, \<^verbatim>\<open>operator/test/utils\<close>.
  \<^item> \<open>CostTable\<close>, \<open>CostCollect\<close>: \<^verbatim>\<open>internal/cost\<close>, first the typed workloads, platform detection, GPU counts
    and money formats, then discovery, unstructured workloads, the whole scan the cells of the table and its JSON.
  \<^item> \<open>Unstructured\<close>: the accessors of \<^verbatim>\<open>apimachinery\<close> as the record \<open>lib\<close>.
  \<^item> \<open>Workload\<close>: \<^verbatim>\<open>internal/workload\<close>: lookup by name, statuses, endpoints and pods.
  \<^item> \<open>Deploy\<close>, \<open>DeployRun\<close>: \<^verbatim>\<open>internal/deploy\<close> and \<^verbatim>\<open>deploy_cmd.go\<close>: names, the objects of both strategies,
    platform detection, readiness (the locale \<open>deploy_strategy\<close> is the contract of the interface, interpreted
    for both), polling (a partial function: a poll that never ends is \<open>None\<close>) and the
    command. The cluster a poll sees and the deadline are functions of the round.
  \<^item> \<open>QuotaCommand\<close>: \<^verbatim>\<open>quota_cmd.go\<close>, \<^verbatim>\<open>row.go\<close>, \<^verbatim>\<open>output.go\<close>, \<^verbatim>\<open>gvr.go\<close>, \<^verbatim>\<open>groupversion_info.go\<close> and \<^verbatim>\<open>ResolveNamespace\<close>; \<open>stored\<close> is a quota as the
    JSON tags of its type store it.
  \<^item> \<open>Commands\<close>: \<^verbatim>\<open>status_cmd.go\<close>, \<^verbatim>\<open>logs_cmd.go\<close>, \<^verbatim>\<open>cost_cmd.go\<close> and \<^verbatim>\<open>version_cmd.go\<close>; the watch loop is a
    partial function of the rounds.
  \<^item> \<open>Install\<close>: \<^verbatim>\<open>internal/install\<close>: detection, Helm calls, embedded assets and the steps; \<open>install_plan\<close> is the
    list of the releases that are due, \<open>recorded\<close> a site that logs what an install changes.

  \<^bold>\<open>Parameters.\<close> The API server is a state \<open>'c\<close> with functions for its calls, which answer with an
  error or a value and, for writes, a new state; \<open>'c env\<close> and \<open>'c kube\<close> collect them. Prometheus maps
  a query to an error or a value. The clock, the YAML decoder, the quantity parser, the quoting verb of
  \<^verbatim>\<open>fmt\<close>, the order in which Go ranges over a map and the result of converting an out-of-range float
  to an integer, which the language leaves open, are parameters too; so are processes, files
  and the splitting of a command line into words and flags. What a theorem needs of them is a hypothesis:
  \<open>stores_annotations\<close> (a successful patch stores what was sent), \<open>cached_server\<close> (a read finds a version the
  object had, a patch merges into the stored object or fails), \<open>cached_reads\<close>, \<open>merging_patches\<close> and \<open>working_patches\<close>
  (the same of the cost patcher's calls), \<open>fresh_owners\<close> (the list of InferenceServices
  is up to date), \<open>float_samples\<close> (a sample is a float64), \<open>working\<close> (reads are up to date and patches succeed), \<open>namespaced\<close> (a request
  for a namespace is answered from it), \<open>ranges\<close> and \<open>range_order\<close> (a range statement visits each key once),
  \<open>sorts\<close> (\<^verbatim>\<open>sort.Slice\<close> sorts), \<open>documented\<close> (an accessor finds the value of the asked type at the path) and
  \<open>answers_named\<close> (a get answers the object asked for).

  \<^bold>\<open>What the theorems show.\<close>

  \<^item> Phases: monotone in usage, antitone in the limits, exact on whole token counts and budgets up to
    2^46 (below that bound a hundred times the count stays exactly representable).
  \<^item> Controller: when a status is Unknown, that the percentages of a status agree with its phase unless the token count was
    rounded up for display, which events are sent, what the gauges show after each
    outcome and along every run, and that a month's window is right.
  \<^item> Admission: the rule of the decision, that it fails open, and, in this theory, enforcement from
    spend to denial.
  \<^item> Prices, patches and adapters: sorting and union of label names, first matching rule, patches that
    are idempotent and touch cost keys only, targets in the pod's own namespace, the owner walk as
    reachability (sixteen steps, at most fifteen ReplicaSets), positive job durations, that a whole
    run writes nothing but costs, and when the contract tests of an adapter pass.
  \<^item> Cost system: in every reachable state, with a cache as stale as it may be, an hourly cost on a workload is a sample
    Prometheus gave for a GPU pod that resolved to it, or the zero of an idle InferenceService, or a text a user wrote,
    and so is every hourly cost of the table. The last GPU pod of a workload in the API server's list decides what a tick
    leaves on the workload, scale to zero aside.
  \<^item> Process: however the goroutines interleave, the process ends as \<open>app_Run\<close> says and has done what each loop does
    alone; a shutdown can leave requests unanswered.
  \<^item> System: in every reachable world, with a cache as stale as it may be, the numbers of a status fit the schema of its
    CRD, and a denial goes back to an evaluation that found a budget used up. A stale read can keep a phase that was
    just computed to be another, and the watch starts a reconcile for every status patch. The merge patch of a typed
    status is the JSON merge patch of its encoding. Deep copies are equal to and separate from their originals.
  \<^item> From the command line to admission: what \<^verbatim>\<open>quota set\<close> stores, from its words and flags on, is what the
    controller evaluates and the webhook enforces.
  \<^item> Command line: the cost table lists each qualifying workload once, a lookup is sound and complete and finds
    whatever the table lists, a deployment reported ready is ready, logs come from the workload's own pods, a poll
    ends with the first round that decides and at once on a scheduling failure, an install calls Helm for the releases that
    are due and then applies the assets, dry runs change nothing.
  \<^item> Round trips: status cost to gauge, annotation to table and to status, quota set to quota list.
  \<^item> Behaviour worth knowing: theorems such as \<open>nan_cost_not_enforced\<close>, \<open>stale_fleet_total\<close> or
    \<open>table_counts_gpus_twice\<close> state where the code does less than its comments say.

  \<^bold>\<open>Not modelled.\<close> Log output, the splitting of command lines, help texts, the text of HTTP responses other than the
  probes, the duration of timers, the text of encoded documents and terminal output, which only call libraries; the
  scheme builder and the variables of \<^verbatim>\<open>internal/version\<close>, which the linker sets. In \<open>CostSystem\<close> the work on one pod is
  a single step: a change by a user between its read and its patch is one the stale cache has not seen, but a change
  between the two patches of a finished TrainJob is not covered.
\<close>

section \<open>From spend to admission\<close>



section \<open>Two ways of counting GPUs\<close>

text \<open>The command line counts every GPU twice: for containers whose GPU requests equal their limits,
  as Kubernetes demands of extended resources, the table's count per pod is twice the count the cost
  patcher writes to the annotation.\<close>

theorem table_counts_gpus_twice:
  assumes "\<And>c. c \<in> set cs \<Longrightarrow> gpuQty (c_limits c) = gpuQty (c_requests c) \<and> 0 \<le> gpuQty (c_limits c)"
    and "sum_list (map (\<lambda>c. gpuQty (c_limits c)) cs) < 2 ^ 62" and "p_containers p = cs"
    and "p_initContainers p = []"
  shows "gpusPerPod \<lparr>ps_containers = cs, ps_initContainers = []\<rparr> = 2 * GPUCountFromPod p"
proof -
  let ?g = "\<lambda>c. gpuQty (c_limits c)"
  let ?n = "sum_list (map ?g cs)"
  have g: "0 \<le> ?g c" if "c \<in> set cs" for c using assms(1) [OF that] by simp
  then have nn: "0 \<le> ?n" by (intro sum_list_nonneg) auto
  have le: "?g c \<le> ?n" if "c \<in> set cs" for c
    using that g by (intro member_le_sum_list) auto
  have one: "fold (\<lambda>c n. i64 (n + gpuOfContainer c)) cs 0 = ?n"
  proof -
    have "gpuOfContainer c = ?g c" if "c \<in> set cs" for c
      using that assms(1) [of c] by (simp add: gpuOfContainer_def gpuQtyFromList_def gpuQty_def gpuResourceName_def Let_def)
    then have "fold (\<lambda>c n. i64 (n + gpuOfContainer c)) cs 0 = fold (\<lambda>c n. i64 (n + ?g c)) cs 0"
      by (intro fold_cong) auto
    then show ?thesis using g assms(2) nn by (simp add: fold_i64_sum)
  qed
  have two: "fold (\<lambda>c n. i64 (n + i64 (gpuQty (c_limits c) + gpuQty (c_requests c)))) cs 0 = 2 * ?n"
  proof -
    have "i64 (gpuQty (c_limits c) + gpuQty (c_requests c)) = 2 * ?g c" if "c \<in> set cs" for c
      using that assms(1) [of c] assms(2) le [of c] by (simp add: i64_id in_i64_def)
    then have "fold (\<lambda>c n. i64 (n + i64 (gpuQty (c_limits c) + gpuQty (c_requests c)))) cs 0
        = fold (\<lambda>c n. i64 (n + 2 * ?g c)) cs 0"
      by (intro fold_cong) auto
    also have "\<dots> = 0 + sum_list (map (\<lambda>c. 2 * ?g c) cs)"
      using g assms(2) by (intro fold_i64_sum) (auto simp: sum_list_const_mult)
    finally show ?thesis by (simp add: sum_list_const_mult)
  qed
  show ?thesis
    using nn by (simp add: gpusPerPod_def GPUCountFromPod_def Let_def assms(3,4) one two)
qed

theorem table_counts_gpus_twice_witness:
  "gpusPerPod \<lparr>ps_containers = p_containers demo_pod, ps_initContainers = []\<rparr> = 2 * GPUCountFromPod demo_pod
   \<and> GPUCountFromPod demo_pod = 2"
  using table_counts_gpus_twice [of "p_containers demo_pod" demo_pod]
  by (simp add: demo_pod_def gpuQty_def GPUCountFromPod_def gpuOfContainer_def gpuQtyFromList_def
      gpuResourceName_def Let_def i64_id in_i64_def)

end
